(* ===== verification/Prelude.thy ===== *)
theory Prelude
  imports Main "HOL-Library.Word" "HOL-Library.List_Lexorder" "HOL-Library.Sublist"
begin

text \<open>
  What every component of the development shares: the machine integers and the Rust standard
  library functions the sources call, on strings modelled as lists of Unicode scalar values, on
  ordered sets and maps modelled as strictly sorted lists, and on first-match searches.
  A Rust \<open>String\<close> is a list of code points, because the sources count, trim and compare characters,
  not bytes; the order of two strings is the lexicographic order of their code points, which is
  also the order of their UTF-8 bytes. A \<open>Result\<close> is a sum with the error on the left.
\<close>

section \<open>Types\<close>

type_synonym uchar = nat
type_synonym ustring = "uchar list"
type_synonym u16 = "16 word"
type_synonym u32 = "32 word"
type_synonym u64 = "64 word"

text \<open>The rewrite rules a component's proofs carry: its short definitions and their evaluations.\<close>

named_theorems text_simps \<open>evaluation of text functions\<close>
named_theorems value_defs \<open>definitions of validated values\<close>

section \<open>Results\<close>

text \<open>The operator \<open>?\<close> of Rust: the first error is the result.\<close>

definition and_then :: "'e + 'a \<Rightarrow> ('a \<Rightarrow> 'e + 'b) \<Rightarrow> 'e + 'b" where
  "and_then r f = (case r of Inl e \<Rightarrow> Inl e | Inr x \<Rightarrow> f x)"

definition map_err :: "('e \<Rightarrow> 'f) \<Rightarrow> 'e + 'a \<Rightarrow> 'f + 'a" where
  "map_err f r = (case r of Inl e \<Rightarrow> Inl (f e) | Inr x \<Rightarrow> Inr x)"

definition or_else :: "'a option \<Rightarrow> 'a option \<Rightarrow> 'a option" where
  "or_else x y = (case x of None \<Rightarrow> y | Some _ \<Rightarrow> x)"

definition unwrap_or :: "'a option \<Rightarrow> 'a \<Rightarrow> 'a" where
  "unwrap_or x d = (case x of None \<Rightarrow> d | Some v \<Rightarrow> v)"

definition ok_or :: "'a option \<Rightarrow> 'e \<Rightarrow> 'e + 'a" where
  "ok_or x e = (case x of None \<Rightarrow> Inl e | Some v \<Rightarrow> Inr v)"

lemma and_then_simps [simp]:
  "and_then (Inl e) f = Inl e" "and_then (Inr x) f = f x"
  by (simp_all add: and_then_def)

lemma and_then_Inr_iff: "and_then r f = Inr y \<longleftrightarrow> (\<exists>x. r = Inr x \<and> f x = Inr y)"
  by (cases r) auto

lemma map_err_simps [simp]:
  "map_err f (Inl e) = Inl (f e)" "map_err f (Inr x) = Inr x"
  by (simp_all add: map_err_def)

lemma map_err_Inr_iff [simp]: "map_err f r = Inr x \<longleftrightarrow> r = Inr x"
  by (cases r) auto

lemma or_else_simps [simp]: "or_else None y = y" "or_else (Some v) y = Some v"
  by (simp_all add: or_else_def)

lemma or_else_None_iff [simp]: "or_else x y = None \<longleftrightarrow> x = None \<and> y = None"
  by (cases x) auto

lemma unwrap_or_simps [simp]: "unwrap_or None d = d" "unwrap_or (Some v) d = v"
  by (simp_all add: unwrap_or_def)

lemma ok_or_simps [simp]: "ok_or None e = Inl e" "ok_or (Some v) e = Inr v"
  by (simp_all add: ok_or_def)

lemma ok_or_Inr_iff [simp]: "ok_or x e = Inr v \<longleftrightarrow> x = Some v"
  by (cases x) auto

section \<open>Searches\<close>

text \<open>\<open>Iterator::find_map\<close>: the first \<open>Some\<close>.\<close>

fun find_map :: "('a \<Rightarrow> 'b option) \<Rightarrow> 'a list \<Rightarrow> 'b option" where
  "find_map f [] = None"
| "find_map f (x # xs) = (case f x of None \<Rightarrow> find_map f xs | Some y \<Rightarrow> Some y)"

lemma find_map_None_iff: "find_map f xs = None \<longleftrightarrow> (\<forall>x \<in> set xs. f x = None)"
  by (induction xs) (auto split: option.splits)

lemma find_map_SomeD: "find_map f xs = Some y \<Longrightarrow> \<exists>x \<in> set xs. f x = Some y"
  by (induction xs) (auto split: option.splits)

text \<open>\<open>Iterator::position\<close>: the index of the first element that satisfies the predicate.\<close>

fun position :: "('a \<Rightarrow> bool) \<Rightarrow> 'a list \<Rightarrow> nat option" where
  "position P [] = None"
| "position P (x # xs) = (if P x then Some 0 else map_option Suc (position P xs))"

lemma position_None_iff: "position P xs = None \<longleftrightarrow> (\<forall>x \<in> set xs. \<not> P x)"
  by (induction xs) auto

lemma position_SomeD:
  "position P xs = Some i \<Longrightarrow> i < length xs \<and> P (xs ! i) \<and> (\<forall>j < i. \<not> P (xs ! j))"
proof (induction xs arbitrary: i)
  case (Cons x xs)
  show ?case
  proof (cases "P x")
    case False
    with Cons.prems obtain k where k: "position P xs = Some k" "i = Suc k" by auto
    with Cons.IH[OF k(1)] False show ?thesis
      by (auto simp: nth_Cons split: nat.splits)
  qed (use Cons.prems in auto)
qed simp

lemma position_find: "map_option (nth xs) (position P xs) = find P xs"
proof (induction xs)
  case (Cons x xs)
  then show ?case by (cases "position P xs") auto
qed simp

lemma length_filter_mono:
  "(\<And>x. x \<in> set xs \<Longrightarrow> P x \<Longrightarrow> Q x) \<Longrightarrow> length (filter P xs) \<le> length (filter Q xs)"
  by (induction xs) (auto simp: le_SucI)

lemma length_filter_split: "length (filter P xs) = length (filter (\<lambda>x. P x \<and> Q x) xs) + length (filter (\<lambda>x. P x \<and> \<not> Q x) xs)"
  by (induction xs) auto

lemma find_SomeD: "find P xs = Some x \<Longrightarrow> x \<in> set xs \<and> P x"
  by (induction xs) (auto split: if_splits)

lemma find_None_iff_all: "find P xs = None \<longleftrightarrow> (\<forall>x \<in> set xs. \<not> P x)"
  by (induction xs) auto

section \<open>Machine integers\<close>

definition saturating_add :: "'a::len word \<Rightarrow> 'a word \<Rightarrow> 'a word" where
  "saturating_add a b = (if unat a + unat b < 2 ^ LENGTH('a) then a + b else - 1)"

definition saturating_sub :: "'a::len word \<Rightarrow> 'a word \<Rightarrow> 'a word" where
  "saturating_sub a b = (if b \<le> a then a - b else 0)"

lemma unat_max_word: "unat (- 1 :: 'a::len word) = 2 ^ LENGTH('a) - 1"
  by (simp add: unsigned_minus_1_eq_mask mask_eq_exp_minus_1)

lemma unat_bound: "unat (a :: 'a::len word) < 2 ^ LENGTH('a)"
  by (fact unsigned_less)

lemma unat_saturating_add:
  "unat (saturating_add a b :: 'a::len word) = min (unat a + unat b) (2 ^ LENGTH('a) - 1)"
  by (auto simp: saturating_add_def unat_max_word unat_word_ariths)

lemma unat_saturating_sub: "unat (saturating_sub a b :: 'a::len word) = unat a - unat b"
  by (auto simp: saturating_sub_def unat_sub word_le_nat_alt)

lemma saturating_add_ge: "a \<le> saturating_add a b"
  using unat_bound[of a] by (simp add: word_le_nat_alt unat_saturating_add del: unsigned_less)

lemma saturating_add_mono: "b \<le> c \<Longrightarrow> saturating_add a b \<le> saturating_add a c"
  by (auto simp: word_le_nat_alt unat_saturating_add)

lemma saturating_sub_0_iff: "saturating_sub a b = 0 \<longleftrightarrow> a \<le> b"
  by (metis unat_saturating_sub diff_is_0_eq unat_eq_zero word_le_nat_alt)

section \<open>Ordered sets and maps\<close>

text \<open>
  A \<open>BTreeSet\<close> is the list its iterator yields, strictly ascending; a \<open>BTreeMap\<close> is the list of its
  entries, strictly ascending in their keys. Both are equal exactly when the Rust values are.
\<close>

definition btree_set :: "'a::linorder list \<Rightarrow> bool" where
  "btree_set xs \<longleftrightarrow> sorted xs \<and> distinct xs"

fun bset_extend :: "'a::linorder list \<Rightarrow> 'a list \<Rightarrow> 'a list" where
  "bset_extend s [] = s"
| "bset_extend s (x # xs) = bset_extend (insort_insert x s) xs"

lemma btree_set_Nil [simp]: "btree_set []"
  by (simp add: btree_set_def)

lemma btree_set_insert: "btree_set s \<Longrightarrow> btree_set (insort_insert x s)"
  by (simp add: btree_set_def sorted_insort_insert distinct_insort_insert)

lemma btree_set_extend: "btree_set s \<Longrightarrow> btree_set (bset_extend s xs)"
  by (induction s xs rule: bset_extend.induct) (simp_all add: btree_set_insert)

lemma set_bset_extend [simp]: "set (bset_extend s xs) = set s \<union> set xs"
  by (induction s xs rule: bset_extend.induct) (auto simp: set_insort_insert)

lemma btree_set_eqI: "btree_set s \<Longrightarrow> btree_set t \<Longrightarrow> set s = set t \<Longrightarrow> s = t"
  by (simp add: btree_set_def sorted_distinct_set_unique)

lemma bset_extend_sorted_list: "bset_extend [] xs = sorted_list_of_set (set xs)"
  by (rule btree_set_eqI) (simp_all add: btree_set_extend, simp add: btree_set_def)

lemma length_bset_extend: "length (bset_extend [] xs) = card (set xs)"
  by (simp add: bset_extend_sorted_list)

type_synonym ('k, 'v) bmap = "('k \<times> 'v) list"

definition btree_map :: "('k::linorder, 'v) bmap \<Rightarrow> bool" where
  "btree_map m \<longleftrightarrow> sorted (map fst m) \<and> distinct (map fst m)"

fun bmap_insert :: "'k::linorder \<Rightarrow> 'v \<Rightarrow> ('k, 'v) bmap \<Rightarrow> ('k, 'v) bmap" where
  "bmap_insert k v [] = [(k, v)]"
| "bmap_insert k v ((k', v') # m) =
     (if k < k' then (k, v) # (k', v') # m
      else if k = k' then (k, v) # m
      else (k', v') # bmap_insert k v m)"

definition bmap_remove :: "'k \<Rightarrow> ('k, 'v) bmap \<Rightarrow> ('k, 'v) bmap" where
  "bmap_remove k m = filter (\<lambda>e. fst e \<noteq> k) m"

fun bmap_extend :: "('k::linorder, 'v) bmap \<Rightarrow> ('k \<times> 'v) list \<Rightarrow> ('k, 'v) bmap" where
  "bmap_extend m [] = m"
| "bmap_extend m ((k, v) # es) = bmap_extend (bmap_insert k v m) es"

fun bmap_remove_all :: "('k, 'v) bmap \<Rightarrow> 'k list \<Rightarrow> ('k, 'v) bmap" where
  "bmap_remove_all m [] = m"
| "bmap_remove_all m (k # ks) = bmap_remove_all (bmap_remove k m) ks"

lemma btree_map_Nil [simp]: "btree_map []"
  by (simp add: btree_map_def)

lemma keys_bmap_insert [simp]: "fst ` set (bmap_insert k v m) = insert k (fst ` set m)"
  by (induction k v m rule: bmap_insert.induct) auto

lemma set_bmap_insert: "set (bmap_insert k v m) \<subseteq> insert (k, v) (set m)"
  by (induction k v m rule: bmap_insert.induct) auto

lemma btree_map_insert: "btree_map m \<Longrightarrow> btree_map (bmap_insert k v m)"
proof (induction k v m rule: bmap_insert.induct)
  case (2 k v k' v' m)
  have "set (map fst (bmap_insert k v m)) = insert k (set (map fst m))"
    using keys_bmap_insert[of k v m] by simp
  with 2 show ?case
    by (auto simp: btree_map_def)
qed (simp add: btree_map_def)

lemma map_of_bmap_insert: "btree_map m \<Longrightarrow> map_of (bmap_insert k v m) = (map_of m)(k \<mapsto> v)"
proof (induction k v m rule: bmap_insert.induct)
  case (2 k v k' v' m)
  then show ?case by (auto simp: btree_map_def fun_eq_iff)
qed auto

lemma map_of_bmap_remove: "map_of (bmap_remove k m) = (map_of m)(k := None)"
  unfolding bmap_remove_def by (induction m) (auto simp: fun_eq_iff)

lemma btree_map_remove: "btree_map m \<Longrightarrow> btree_map (bmap_remove k m)"
  by (auto simp: btree_map_def bmap_remove_def sorted_filter distinct_map_filter)

lemma btree_map_extend: "btree_map m \<Longrightarrow> btree_map (bmap_extend m es)"
  by (induction m es rule: bmap_extend.induct) (simp_all add: btree_map_insert)

lemma btree_map_remove_all: "btree_map m \<Longrightarrow> btree_map (bmap_remove_all m ks)"
  by (induction m ks rule: bmap_remove_all.induct) (simp_all add: btree_map_remove)

lemma set_bmap_extend: "set (bmap_extend m es) \<subseteq> set m \<union> set es"
proof (induction m es rule: bmap_extend.induct)
  case (2 m k v es)
  with set_bmap_insert[of k v m] show ?case by auto
qed simp

lemma set_bmap_remove_all: "set (bmap_remove_all m ks) = {e \<in> set m. fst e \<notin> set ks}"
  by (induction m ks rule: bmap_remove_all.induct) (auto simp: bmap_remove_def)

lemma length_bmap_remove_all: "length (bmap_remove_all m ks) \<le> length m"
  by (induction m ks rule: bmap_remove_all.induct)
     (auto simp: bmap_remove_def intro: le_trans[OF _ length_filter_le])

lemma map_of_bmap_extend: "btree_map m \<Longrightarrow> map_of (bmap_extend m es) = map_of m ++ map_of (rev es)"
  by (induction m es rule: bmap_extend.induct)
    (simp_all add: map_of_bmap_insert btree_map_insert map_add_def fun_eq_iff split: option.split)

lemma map_of_bmap_remove_all:
  "map_of (bmap_remove_all m ks) = (\<lambda>k. if k \<in> set ks then None else map_of m k)"
  by (induction m ks rule: bmap_remove_all.induct) (auto simp: map_of_bmap_remove fun_eq_iff)

lemma btree_map_eqI:
  assumes "btree_map m" "btree_map m'" "map_of m = map_of m'"
  shows "m = m'"
proof (rule map_sorted_distinct_set_unique)
  have dist: "distinct (map fst m)" "distinct (map fst m')"
    using assms by (simp_all add: btree_map_def)
  show same: "set m = set m'"
    using map_of_eq_Some_iff[OF dist(1)] map_of_eq_Some_iff[OF dist(2)] assms(3) by (auto simp del: map_of_eq_Some_iff)
  show "inj_on fst (set m \<union> set m')"
    using dist by (simp add: same distinct_map)
qed (use assms in \<open>simp_all add: btree_map_def\<close>)

lemma bmap_remove_absent: "k \<notin> fst ` set m \<Longrightarrow> bmap_remove k m = m"
  by (force simp: bmap_remove_def filter_id_conv)

lemma snoc_split:
  "xs @ [x] = before @ y # after \<longleftrightarrow> after = [] \<and> y = x \<and> before = xs \<or> (\<exists>rest. after = rest @ [x] \<and> xs = before @ y # rest)"
  by (cases after rule: rev_cases) auto

end
