(* ===== verification/RustText.thy ===== *)
theory RustText
  imports Prelude
begin

text \<open>
  The functions of Rust's \<open>str\<close> and \<open>char\<close> that the sources call, on lists of code points: the
  character classes of the standard library, trimming, prefixes and splits, case folding of
  ASCII, and the parsing and printing of unsigned decimal numbers. The round trip
  \<open>parse_uint_show\<close> is what the cursor, port, size and setting parsers of the domain rest on.
\<close>

section \<open>Literals and character classes\<close>

definition utf :: "string \<Rightarrow> ustring" where
  "utf s = map of_char s"

definition chr :: "char \<Rightarrow> uchar" where
  "chr c = of_char c"

text \<open>\<open>char::is_whitespace\<close>: the Unicode property White_Space.\<close>

definition is_whitespace :: "uchar \<Rightarrow> bool" where
  "is_whitespace c \<longleftrightarrow>
     (9 \<le> c \<and> c \<le> 13) \<or> c = 32 \<or> c = 133 \<or> c = 160 \<or> c = 5760 \<or> (8192 \<le> c \<and> c \<le> 8202) \<or>
     c = 8232 \<or> c = 8233 \<or> c = 8239 \<or> c = 8287 \<or> c = 12288"

text \<open>\<open>char::is_control\<close>: the general category Cc.\<close>

definition is_control :: "uchar \<Rightarrow> bool" where
  "is_control c \<longleftrightarrow> c \<le> 31 \<or> (127 \<le> c \<and> c \<le> 159)"

definition is_ascii_digit :: "uchar \<Rightarrow> bool" where
  "is_ascii_digit c \<longleftrightarrow> 48 \<le> c \<and> c \<le> 57"

definition is_ascii_lowercase :: "uchar \<Rightarrow> bool" where
  "is_ascii_lowercase c \<longleftrightarrow> 97 \<le> c \<and> c \<le> 122"

definition is_ascii_uppercase :: "uchar \<Rightarrow> bool" where
  "is_ascii_uppercase c \<longleftrightarrow> 65 \<le> c \<and> c \<le> 90"

definition is_ascii_alphanumeric :: "uchar \<Rightarrow> bool" where
  "is_ascii_alphanumeric c \<longleftrightarrow> is_ascii_digit c \<or> is_ascii_lowercase c \<or> is_ascii_uppercase c"

definition to_ascii_lowercase :: "uchar \<Rightarrow> uchar" where
  "to_ascii_lowercase c = (if is_ascii_uppercase c then c + 32 else c)"

definition eq_ignore_ascii_case :: "ustring \<Rightarrow> ustring \<Rightarrow> bool" where
  "eq_ignore_ascii_case s t \<longleftrightarrow> map to_ascii_lowercase s = map to_ascii_lowercase t"

lemmas char_classes =
  is_whitespace_def is_control_def is_ascii_digit_def is_ascii_lowercase_def
  is_ascii_uppercase_def is_ascii_alphanumeric_def to_ascii_lowercase_def

declare utf_def [text_simps] chr_def [text_simps] char_classes [text_simps]
  eq_ignore_ascii_case_def [text_simps]

lemma eq_ignore_ascii_case_refl [simp]: "eq_ignore_ascii_case s s"
  by (simp add: eq_ignore_ascii_case_def)

section \<open>Trimming\<close>

definition trim_start_with :: "(uchar \<Rightarrow> bool) \<Rightarrow> ustring \<Rightarrow> ustring" where
  "trim_start_with P s = dropWhile P s"

definition trim_end_with :: "(uchar \<Rightarrow> bool) \<Rightarrow> ustring \<Rightarrow> ustring" where
  "trim_end_with P s = rev (dropWhile P (rev s))"

definition trim_with :: "(uchar \<Rightarrow> bool) \<Rightarrow> ustring \<Rightarrow> ustring" where
  "trim_with P s = trim_end_with P (trim_start_with P s)"

definition trim :: "ustring \<Rightarrow> ustring" where
  "trim s = trim_with is_whitespace s"

definition trim_matches :: "uchar \<Rightarrow> ustring \<Rightarrow> ustring" where
  "trim_matches c s = trim_with (\<lambda>d. d = c) s"

declare trim_start_with_def [text_simps] trim_end_with_def [text_simps] trim_with_def [text_simps]
  trim_def [text_simps] trim_matches_def [text_simps]

text \<open>A string is trimmed when neither its first nor its last character is dropped.\<close>

definition trimmed_with :: "(uchar \<Rightarrow> bool) \<Rightarrow> ustring \<Rightarrow> bool" where
  "trimmed_with P s \<longleftrightarrow> s = [] \<or> (\<not> P (hd s) \<and> \<not> P (last s))"

lemma dropWhile_hd: "dropWhile P s \<noteq> [] \<Longrightarrow> \<not> P (hd (dropWhile P s))"
  by (rule hd_dropWhile)

lemma trimmed_trim_with: "trimmed_with P (trim_with P s)"
proof (cases "trim_with P s = []")
  case False
  let ?t = "dropWhile P s"
  have eq: "trim_with P s = rev (dropWhile P (rev ?t))"
    by (simp add: trim_with_def trim_end_with_def trim_start_with_def)
  have "?t = trim_with P s @ rev (takeWhile P (rev ?t))"
    unfolding eq by (metis rev_append rev_rev_ident takeWhile_dropWhile_id)
  then have "hd ?t = hd (trim_with P s)" and "?t \<noteq> []"
    using False by (metis hd_append2, metis append_is_Nil_conv)
  moreover from \<open>?t \<noteq> []\<close> have "\<not> P (hd ?t)" by (rule dropWhile_hd)
  moreover have "last (trim_with P s) = hd (dropWhile P (rev ?t))"
    using False unfolding eq by (simp add: last_rev)
  moreover have "\<not> P (hd (dropWhile P (rev ?t)))"
    using False unfolding eq by (simp add: dropWhile_hd)
  ultimately show ?thesis by (simp add: trimmed_with_def)
qed (simp add: trimmed_with_def)

lemma trim_with_id: "trimmed_with P s \<Longrightarrow> trim_with P s = s"
proof (cases s)
  case (Cons x xs)
  assume "trimmed_with P s"
  with Cons have "\<not> P x" and "\<not> P (last s)" by (simp_all add: trimmed_with_def)
  then have "dropWhile P s = s" using Cons by simp
  moreover have "dropWhile P (rev s) = rev s"
    using \<open>\<not> P (last s)\<close> by (auto simp: dropWhile_eq_self_iff hd_rev)
  ultimately show ?thesis
    by (simp add: trim_with_def trim_end_with_def trim_start_with_def)
qed (simp add: trim_with_def trim_end_with_def trim_start_with_def)

lemma trim_with_idem [simp]: "trim_with P (trim_with P s) = trim_with P s"
  by (rule trim_with_id) (rule trimmed_trim_with)

lemma trim_idem [simp]: "trim (trim s) = trim s"
  by (simp add: trim_def)

lemma set_trim_with: "set (trim_with P s) \<subseteq> set s"
  unfolding trim_with_def trim_end_with_def trim_start_with_def
  by (metis set_dropWhileD set_rev subsetI)

lemma set_trim: "set (trim s) \<subseteq> set s"
  by (simp add: trim_def set_trim_with)

lemma length_trim_with: "length (trim_with P s) \<le> length s"
  unfolding trim_with_def trim_end_with_def trim_start_with_def
  by (metis length_dropWhile_le length_rev order_trans)

lemma trim_id_iff: "trim s = s \<longleftrightarrow> trimmed_with is_whitespace s"
  by (metis trim_def trim_with_id trimmed_trim_with)

lemma trim_id: "list_all (\<lambda>c. \<not> is_whitespace c) s \<Longrightarrow> trim s = s"
  by (cases "s = []") (auto simp: trim_id_iff trimmed_with_def list_all_iff)

section \<open>Prefixes and splits\<close>

definition strip_prefix :: "ustring \<Rightarrow> ustring \<Rightarrow> ustring option" where
  "strip_prefix p s = (if take (length p) s = p then Some (drop (length p) s) else None)"

text \<open>\<open>str::find\<close> on a character, and \<open>split_once\<close> on it: the text before and after the first one.\<close>

definition split_once :: "uchar \<Rightarrow> ustring \<Rightarrow> (ustring \<times> ustring) option" where
  "split_once c s =
     (case position (\<lambda>d. d = c) s of None \<Rightarrow> None | Some i \<Rightarrow> Some (take i s, drop (Suc i) s))"

declare strip_prefix_def [text_simps] split_once_def [text_simps]

lemma strip_prefix_append [simp]: "strip_prefix p (p @ s) = Some s"
  by (simp add: strip_prefix_def)

lemma strip_prefix_Some_iff: "strip_prefix p s = Some t \<longleftrightarrow> s = p @ t"
  by (auto simp: strip_prefix_def) (metis append_take_drop_id)

lemma position_append_skip:
  "(\<forall>x \<in> set xs. \<not> P x) \<Longrightarrow> P y \<Longrightarrow> position P (xs @ y # ys) = Some (length xs)"
  by (induction xs) auto

lemma split_once_append: "c \<notin> set s \<Longrightarrow> split_once c (s @ c # t) = Some (s, t)"
proof -
  assume "c \<notin> set s"
  then have "position (\<lambda>d. d = c) (s @ c # t) = Some (length s)"
    by (intro position_append_skip) auto
  then show ?thesis by (simp add: split_once_def)
qed

section \<open>Unsigned decimal numbers\<close>

text \<open>\<open>Display\<close> of an unsigned integer.\<close>

fun show_nat :: "nat \<Rightarrow> ustring" where
  "show_nat n = (if n < 10 then [48 + n] else show_nat (n div 10) @ [48 + n mod 10])"

declare show_nat.simps [simp del]

fun digits_value :: "nat \<Rightarrow> ustring \<Rightarrow> nat" where
  "digits_value acc [] = acc"
| "digits_value acc (c # cs) = digits_value (10 * acc + (c - 48)) cs"

text \<open>
  \<open>str::parse\<close> for an unsigned integer of \<open>w\<close> bits: an optional plus sign, then at least one digit
  and nothing else, with a value below \<open>2 ^ w\<close>.
\<close>

definition parse_uint :: "nat \<Rightarrow> ustring \<Rightarrow> nat option" where
  "parse_uint w s =
     (let ds = (case s of [] \<Rightarrow> [] | c # cs \<Rightarrow> if c = 43 then cs else s)
      in if ds \<noteq> [] \<and> list_all is_ascii_digit ds \<and> digits_value 0 ds < 2 ^ w
         then Some (digits_value 0 ds) else None)"

declare parse_uint_def [text_simps]

lemma digits_value_append: "digits_value acc (s @ t) = digits_value (digits_value acc s) t"
  by (induction s arbitrary: acc) auto

lemma show_nat_nonempty [simp]: "show_nat n \<noteq> []"
  by (subst show_nat.simps) simp

lemma show_nat_digits: "list_all is_ascii_digit (show_nat n)"
proof (induction n rule: show_nat.induct)
  case (1 n)
  show ?case
  proof (cases "n < 10")
    case True
    then show ?thesis by (subst show_nat.simps) (simp add: is_ascii_digit_def)
  next
    case False
    have "n mod 10 < 10" by simp
    with False 1 show ?thesis
      by (subst show_nat.simps) (simp add: is_ascii_digit_def[of "48 + n mod 10"])
  qed
qed

lemma digits_value_show [simp]: "digits_value 0 (show_nat n) = n"
proof (induction n rule: show_nat.induct)
  case (1 n)
  show ?case
  proof (cases "n < 10")
    case True
    then show ?thesis by (subst show_nat.simps) simp
  next
    case False
    with 1 show ?thesis
      by (subst show_nat.simps) (simp add: digits_value_append)
  qed
qed

lemma show_nat_set: "c \<in> set (show_nat n) \<Longrightarrow> is_ascii_digit c"
  using show_nat_digits[of n] by (simp add: list_all_iff)

lemma parse_uint_show: "n < 2 ^ w \<Longrightarrow> parse_uint w (show_nat n) = Some n"
proof -
  assume n: "n < 2 ^ w"
  obtain c cs where s: "show_nat n = c # cs" by (cases "show_nat n") auto
  then have "c \<noteq> 43" using show_nat_set[of c n] by (auto simp: is_ascii_digit_def)
  with s n show ?thesis
    using show_nat_digits[of n] digits_value_show[of n]
    by (simp add: parse_uint_def)
qed

lemma parse_uint_bound: "parse_uint w s = Some n \<Longrightarrow> n < 2 ^ w"
  by (auto simp: parse_uint_def Let_def split: if_splits)

lemma show_nat_inject [simp]: "show_nat m = show_nat n \<longleftrightarrow> m = n"
  by (metis digits_value_show)

lemma digit_not_whitespace: "is_ascii_digit c \<Longrightarrow> \<not> is_whitespace c"
  by (auto simp: char_classes)

lemma trim_show_nat [simp]: "trim (show_nat n) = show_nat n"
  by (rule trim_id) (meson digit_not_whitespace list_all_iff show_nat_set)

end
