(* ===== verification/Values.thy ===== *)
theory Values
  imports RustText
begin

text \<open>
  The value objects of \<open>muster-domain/src/value\<close> (with the terminal size of \<open>pty/size.rs\<close> and the
  split direction of \<open>terminal_workspace\<close>): validated texts, bounded numbers, parsed and printed
  forms, process references and project paths. A validated text type of the sources is a wrapper
  that sanitises its input, then checks it in the declared order; here it is a function
  \<open>T_try_new\<close> to the sanitised text or the first violated check, and the locale
  \<open>validated_text\<close> is what every such type promises. The Unicode tables, the shell quoting, the
  duration and the size parsers belong to other crates and are arguments: \<open>nfc\<close>, \<open>is_format\<close>,
  \<open>lowercase\<close>, \<open>quote\<close>, \<open>parse_duration\<close>, \<open>format_duration\<close>, \<open>parse_size\<close>.
\<close>

section \<open>Refused text\<close>

record value_parse_error =
  expected :: ustring
  found :: ustring

definition parse_error_to_string :: "value_parse_error \<Rightarrow> ustring" where
  "parse_error_to_string self =
     utf ''expected '' @ expected self @ utf '', got '' @ utf [CHR 0x27] @ found self @ utf [CHR 0x27]"

definition parse_as :: "(ustring \<Rightarrow> 'a option) \<Rightarrow> ustring \<Rightarrow> ustring \<Rightarrow> value_parse_error + 'a" where
  "parse_as from_str raw form = ok_or (from_str (trim raw)) \<lparr>expected = form, found = raw\<rparr>"

fun join :: "ustring \<Rightarrow> ustring list \<Rightarrow> ustring" where
  "join sep [] = []"
| "join sep [x] = x"
| "join sep (x # y # xs) = x @ sep @ join sep (y # xs)"

definition enum_from_str :: "'a list \<Rightarrow> ('a \<Rightarrow> ustring) \<Rightarrow> ustring \<Rightarrow> 'a option" where
  "enum_from_str variants to_string s = find (\<lambda>x. to_string x = s) variants"

definition CHOICE_SEPARATOR :: ustring where
  "CHOICE_SEPARATOR = utf '', ''"

definition parse_choice :: "'a list \<Rightarrow> ('a \<Rightarrow> ustring) \<Rightarrow> ustring \<Rightarrow> value_parse_error + 'a" where
  "parse_choice variants to_string raw =
     parse_as (enum_from_str variants to_string) raw (join CHOICE_SEPARATOR (map to_string variants))"

text \<open>
  What an enumeration with kebab-case names promises: every variant is listed, no two share a
  name, and no name has surrounding white space. Then reading a choice is the inverse of
  printing it.
\<close>

locale choice =
  fixes variants :: "'a list"
    and to_string :: "'a \<Rightarrow> ustring"
  assumes all_listed: "x \<in> set variants"
    and names_inj: "inj to_string"
    and names_trimmed: "trim (to_string x) = to_string x"
begin

lemma enum_from_str_Some_iff: "enum_from_str variants to_string s = Some x \<longleftrightarrow> s = to_string x"
proof
  assume "enum_from_str variants to_string s = Some x"
  then show "s = to_string x" by (auto simp: enum_from_str_def dest: find_SomeD)
next
  assume s: "s = to_string x"
  then obtain y where "find (\<lambda>x. to_string x = s) variants = Some y"
    using all_listed[of x] by (metis (full_types) find_None_iff_all not_Some_eq)
  moreover from this s have "y = x" using names_inj by (auto dest!: find_SomeD dest: injD)
  ultimately show "enum_from_str variants to_string s = Some x" by (simp add: enum_from_str_def)
qed

lemma parse_choice_Inr_iff: "parse_choice variants to_string raw = Inr x \<longleftrightarrow> trim raw = to_string x"
  by (simp add: parse_choice_def parse_as_def enum_from_str_Some_iff)

lemma parse_choice_printed: "parse_choice variants to_string (to_string x) = Inr x"
  by (simp add: parse_choice_Inr_iff names_trimmed)

end

section \<open>Validated text\<close>

datatype nutype_error = NotEmptyViolated | LenCharMaxViolated | PredicateViolated

text \<open>
  The contract of a validated text type: what it accepts is the sanitised text, and a sanitised
  text sanitises to itself. So a value that was accepted once is accepted again as it is, which is
  what reading a stored value back relies on.
\<close>

locale validated_text =
  fixes sanitize :: "ustring \<Rightarrow> ustring"
    and valid :: "ustring \<Rightarrow> bool"
    and try_new :: "ustring \<Rightarrow> nutype_error + ustring"
  assumes sanitize_idem: "sanitize (sanitize s) = sanitize s"
    and try_new_Inr_iff: "try_new raw = Inr s \<longleftrightarrow> s = sanitize raw \<and> valid s"
begin

lemma accepted_again: "try_new raw = Inr s \<Longrightarrow> try_new s = Inr s"
  using sanitize_idem[of raw] by (auto simp: try_new_Inr_iff)

lemma accepted_valid: "try_new raw = Inr s \<Longrightarrow> valid s"
  by (auto simp: try_new_Inr_iff)

lemma refused_iff: "(\<exists>e. try_new raw = Inl e) \<longleftrightarrow> \<not> valid (sanitize raw)"
  by (metis Inl_Inr_False obj_sumE try_new_Inr_iff)

end

text \<open>
  The checks most types declare, in this order: trimmed, not empty, at most \<open>n\<close> characters where
  the type has a cap, and a predicate.
\<close>

definition trimmed_text :: "nat option \<Rightarrow> (ustring \<Rightarrow> bool) \<Rightarrow> ustring \<Rightarrow> nutype_error + ustring" where
  "trimmed_text cap P raw =
     (let s = trim raw in
      if s = [] then Inl NotEmptyViolated
      else if (case cap of None \<Rightarrow> False | Some n \<Rightarrow> n < length s) then Inl LenCharMaxViolated
      else if \<not> P s then Inl PredicateViolated
      else Inr s)"

definition text_ok :: "nat option \<Rightarrow> (ustring \<Rightarrow> bool) \<Rightarrow> ustring \<Rightarrow> bool" where
  "text_ok cap P s \<longleftrightarrow> s \<noteq> [] \<and> (case cap of None \<Rightarrow> True | Some n \<Rightarrow> length s \<le> n) \<and> P s"

lemma trimmed_text_Inr_iff: "trimmed_text cap P raw = Inr s \<longleftrightarrow> s = trim raw \<and> text_ok cap P s"
  by (auto simp: trimmed_text_def text_ok_def Let_def split: option.splits)

lemma validated_trimmed_text: "validated_text trim (text_ok cap P) (trimmed_text cap P)"
  by unfold_locales (simp_all add: trimmed_text_Inr_iff)

section \<open>Text shown on a terminal\<close>

definition TAB :: uchar where
  "TAB = 9"

definition steers_the_terminal :: "(uchar \<Rightarrow> bool) \<Rightarrow> uchar \<Rightarrow> bool" where
  "steers_the_terminal is_format c \<longleftrightarrow> (is_control c \<and> c \<noteq> TAB) \<or> is_format c"

text \<open>\<open>char::escape_default\<close> as the standard library defines it.\<close>

definition hex_digit :: "nat \<Rightarrow> uchar" where
  "hex_digit d = (if d < 10 then 48 + d else 87 + d)"

fun show_hex :: "nat \<Rightarrow> ustring" where
  "show_hex n = (if n < 16 then [hex_digit n] else show_hex (n div 16) @ [hex_digit (n mod 16)])"

declare show_hex.simps [simp del]

definition escape_default :: "uchar \<Rightarrow> ustring" where
  "escape_default c =
     (if c = 9 then utf [CHR 0x5C, CHR ''t'']
      else if c = 13 then utf [CHR 0x5C, CHR ''r'']
      else if c = 10 then utf [CHR 0x5C, CHR ''n'']
      else if c = 39 \<or> c = 34 \<or> c = 92 then [92, c]
      else if 32 \<le> c \<and> c \<le> 126 then [c]
      else utf [CHR 0x5C, CHR ''u'', CHR ''{''] @ show_hex c @ utf ''}'')"

definition printable :: "(uchar \<Rightarrow> bool) \<Rightarrow> ustring \<Rightarrow> ustring" where
  "printable is_format text =
     (if \<not> list_ex (steers_the_terminal is_format) text then text
      else concat (map (\<lambda>c. if steers_the_terminal is_format c then escape_default c else [c]) text))"

lemma show_hex_ascii: "c \<in> set (show_hex n) \<Longrightarrow> 48 \<le> c \<and> c \<le> 102"
proof (induction n rule: show_hex.induct)
  case (1 n)
  then show ?case
    by (subst (asm) show_hex.simps) (auto simp: hex_digit_def split: if_splits)
qed

lemma escape_default_ascii: "d \<in> set (escape_default c) \<Longrightarrow> 32 \<le> d \<and> d \<le> 126"
  by (auto simp: escape_default_def utf_def split: if_splits dest: show_hex_ascii)

lemma escape_default_nonempty: "escape_default c \<noteq> []"
  by (simp add: escape_default_def utf_def)

section \<open>Names\<close>

definition PROCESS_NAME_MAX_CHARS :: nat where
  "PROCESS_NAME_MAX_CHARS = 64"

definition process_name_terminal_safe :: "(uchar \<Rightarrow> bool) \<Rightarrow> ustring \<Rightarrow> bool" where
  "process_name_terminal_safe is_format name \<longleftrightarrow>
     \<not> list_ex (\<lambda>c. is_control c \<or> steers_the_terminal is_format c) name"

definition ProcessName_try_new :: "(uchar \<Rightarrow> bool) \<Rightarrow> ustring \<Rightarrow> nutype_error + ustring" where
  "ProcessName_try_new is_format = trimmed_text None (process_name_terminal_safe is_format)"

definition char_count :: "ustring \<Rightarrow> nat" where
  "char_count name = length name"

definition name_key :: "(ustring \<Rightarrow> ustring) \<Rightarrow> ustring \<Rightarrow> ustring" where
  "name_key nfc name = nfc name"

definition shell_quoted :: "(ustring \<Rightarrow> ustring option) \<Rightarrow> ustring \<Rightarrow> ustring" where
  "shell_quoted quote name =
     (let quoted = unwrap_or (quote name) name
      in if quoted = name then utf [CHR 0x27] @ quoted @ utf [CHR 0x27] else quoted)"

definition ELIDED :: ustring where
  "ELIDED = utf ''...''"

definition refused_name :: "ustring \<Rightarrow> ustring" where
  "refused_name raw =
     (if PROCESS_NAME_MAX_CHARS < length raw then take PROCESS_NAME_MAX_CHARS raw @ ELIDED else raw)"

definition project_name_terminal_safe :: "(uchar \<Rightarrow> bool) \<Rightarrow> ustring \<Rightarrow> bool" where
  "project_name_terminal_safe is_format name \<longleftrightarrow> \<not> list_ex (steers_the_terminal is_format) name"

definition ProjectName_try_new :: "(uchar \<Rightarrow> bool) \<Rightarrow> ustring \<Rightarrow> nutype_error + ustring" where
  "ProjectName_try_new is_format = trimmed_text None (project_name_terminal_safe is_format)"

interpretation process_name: validated_text trim "text_ok None (process_name_terminal_safe is_format)"
    "ProcessName_try_new is_format" for is_format
  unfolding ProcessName_try_new_def by (rule validated_trimmed_text)

interpretation project_name: validated_text trim "text_ok None (project_name_terminal_safe is_format)"
    "ProjectName_try_new is_format" for is_format
  unfolding ProjectName_try_new_def by (rule validated_trimmed_text)

text \<open>
  The names a folder may be registered under: the folder's own name, then that name with \<open>-2\<close>,
  \<open>-3\<close> and so on. The source yields them as an unbounded iterator; here the candidate at an index
  is a function, and a candidate the name type refuses is skipped by \<open>filter_map\<close>.
\<close>

definition ROOT_FOLDER_NAME :: ustring where
  "ROOT_FOLDER_NAME = utf ''root''"

definition FIRST_COLLISION_SUFFIX :: nat where
  "FIRST_COLLISION_SUFFIX = 2"

definition candidate_base :: "(uchar \<Rightarrow> bool) \<Rightarrow> ustring option \<Rightarrow> ustring" where
  "candidate_base is_format file_name =
     (case map_option (printable is_format) file_name of
        Some name \<Rightarrow> if trim name \<noteq> [] then name else ROOT_FOLDER_NAME
      | None \<Rightarrow> ROOT_FOLDER_NAME)"

definition candidate :: "(uchar \<Rightarrow> bool) \<Rightarrow> ustring option \<Rightarrow> nat \<Rightarrow> nutype_error + ustring" where
  "candidate is_format file_name i =
     (let base = candidate_base is_format file_name
      in ProjectName_try_new is_format
           (if i = 0 then base
            else base @ utf ''-'' @ show_nat (FIRST_COLLISION_SUFFIX + (i - 1))))"

lemma steers_ascii: "32 \<le> c \<Longrightarrow> c \<le> 126 \<Longrightarrow> \<not> is_format c \<Longrightarrow> \<not> steers_the_terminal is_format c"
  by (simp add: steers_the_terminal_def is_control_def)

text \<open>\<open>printable\<close> leaves nothing that steers the terminal, and safe text alone.\<close>

lemma printable_safe:
  assumes ascii: "\<And>c. 32 \<le> c \<Longrightarrow> c \<le> 126 \<Longrightarrow> \<not> is_format c"
  shows "\<not> list_ex (steers_the_terminal is_format) (printable is_format text)"
proof -
  have "\<not> steers_the_terminal is_format d" if "d \<in> set (escape_default c)" for c d
    using escape_default_ascii[OF that] by (simp add: ascii steers_ascii)
  then show ?thesis
    by (auto simp: printable_def list_ex_iff)
qed

lemma printable_nonempty: "text \<noteq> [] \<Longrightarrow> printable is_format text \<noteq> []"
  by (cases "text") (auto simp: printable_def escape_default_nonempty)

section \<open>References to processes\<close>

definition ProcessRef_try_new :: "(ustring \<Rightarrow> ustring) \<Rightarrow> ustring \<Rightarrow> nutype_error + ustring" where
  "ProcessRef_try_new nfc typed =
     (let s = nfc (trim typed) in if s = [] then Inl NotEmptyViolated else Inr s)"

datatype unresolved_process = Unknown ustring | Ambiguous ustring "ustring list"

definition resolve :: "(ustring \<Rightarrow> ustring) \<Rightarrow> ustring \<Rightarrow> ustring list \<Rightarrow> unresolved_process + ustring" where
  "resolve nfc self names =
     (let equivalent = filter (\<lambda>name. nfc name = self) names in
      case find (\<lambda>name. name = self) equivalent of
        Some exact \<Rightarrow> Inr exact
      | None \<Rightarrow>
          (case equivalent of
             [] \<Rightarrow> Inl (Unknown self)
           | [only] \<Rightarrow> Inr only
           | several \<Rightarrow> Inl (Ambiguous self several)))"

lemma resolve_Inr: "resolve nfc self names = Inr name \<Longrightarrow> name \<in> set names \<and> nfc name = self"
proof -
  assume r: "resolve nfc self names = Inr name"
  define eq where "eq = filter (\<lambda>name. nfc name = self) names"
  from r have "name \<in> set eq"
    by (auto simp: resolve_def Let_def eq_def[symmetric] split: option.splits list.splits
        dest: find_SomeD)
  then show ?thesis by (simp add: eq_def)
qed

lemma resolve_unknown_iff:
  "resolve nfc self names = Inl (Unknown self) \<longleftrightarrow> (\<forall>name \<in> set names. nfc name \<noteq> self)"
proof -
  define eq where "eq = filter (\<lambda>name. nfc name = self) names"
  have "resolve nfc self names = Inl (Unknown self) \<longleftrightarrow> eq = []"
    by (auto simp: resolve_def Let_def eq_def[symmetric] split: option.splits list.splits
        dest: find_SomeD)
  then show ?thesis by (simp add: eq_def filter_empty_conv)
qed

text \<open>Where no two names share a key, a reference resolves to the one name of its key.\<close>

lemma resolve_unique:
  assumes dist: "distinct (map nfc names)" and name: "name \<in> set names"
  shows "resolve nfc (nfc name) names = Inr name"
proof -
  have inj: "inj_on nfc (set names)" using dist by (simp add: distinct_map)
  have "distinct names" using dist by (simp add: distinct_map)
  have "filter (\<lambda>n. nfc n = nfc name) names = filter (\<lambda>n. n = name) names"
    using inj name by (auto intro!: filter_cong dest: inj_onD)
  also have "\<dots> = [name]"
    using \<open>distinct names\<close> name by (induction names) (auto simp: filter_empty_conv)
  finally have eq: "filter (\<lambda>n. nfc n = nfc name) names = [name]" .
  show ?thesis by (simp add: resolve_def eq)
qed

section \<open>Other validated texts\<close>

definition COMMAND_MAX_CHARS :: nat where
  "COMMAND_MAX_CHARS = 8192"

definition CommandLine_try_new :: "ustring \<Rightarrow> nutype_error + ustring" where
  "CommandLine_try_new = trimmed_text (Some COMMAND_MAX_CHARS) (\<lambda>_. True)"

definition DESCRIPTION_MAX_CHARS :: nat where
  "DESCRIPTION_MAX_CHARS = 300"

definition Description_try_new :: "ustring \<Rightarrow> nutype_error + ustring" where
  "Description_try_new = trimmed_text (Some DESCRIPTION_MAX_CHARS) (\<lambda>_. True)"

definition ENV_NAME_MAX_CHARS :: nat where
  "ENV_NAME_MAX_CHARS = 128"

definition ENV_VALUE_MAX_CHARS :: nat where
  "ENV_VALUE_MAX_CHARS = 8192"

definition is_env_name :: "ustring \<Rightarrow> bool" where
  "is_env_name name \<longleftrightarrow>
     name \<noteq> [] \<and> \<not> list_ex (\<lambda>c. c = chr (CHR ''='') \<or> c = 0) name \<and>
     strip_prefix (utf ''MUSTER_'') name = None"

definition EnvName_try_new :: "ustring \<Rightarrow> nutype_error + ustring" where
  "EnvName_try_new name = (if is_env_name name then Inr name else Inl PredicateViolated)"

definition is_env_value :: "ustring \<Rightarrow> bool" where
  "is_env_value v \<longleftrightarrow> 0 \<notin> set v"

definition EnvValue_try_new :: "ustring \<Rightarrow> nutype_error + ustring" where
  "EnvValue_try_new v = (if is_env_value v then Inr v else Inl PredicateViolated)"

definition WorkspacePaneId_try_new :: "ustring \<Rightarrow> nutype_error + ustring" where
  "WorkspacePaneId_try_new = trimmed_text None (\<lambda>_. True)"

interpretation command_line: validated_text trim "text_ok (Some COMMAND_MAX_CHARS) (\<lambda>_. True)"
    CommandLine_try_new
  unfolding CommandLine_try_new_def by (rule validated_trimmed_text)

interpretation description: validated_text trim "text_ok (Some DESCRIPTION_MAX_CHARS) (\<lambda>_. True)"
    Description_try_new
  unfolding Description_try_new_def by (rule validated_trimmed_text)

interpretation env_name: validated_text "\<lambda>s. s" is_env_name EnvName_try_new
  by unfold_locales (auto simp: EnvName_try_new_def)

interpretation env_value: validated_text "\<lambda>s. s" is_env_value EnvValue_try_new
  by unfold_locales (auto simp: EnvValue_try_new_def)

interpretation workspace_pane_id: validated_text trim "text_ok None (\<lambda>_. True)" WorkspacePaneId_try_new
  unfolding WorkspacePaneId_try_new_def by (rule validated_trimmed_text)

subsection \<open>The detach key\<close>

definition CTRL_PREFIX :: ustring where
  "CTRL_PREFIX = utf ''ctrl-''"

definition DETACH_PUNCTUATION :: "uchar list" where
  "DETACH_PUNCTUATION = [92, 93]"

definition RESERVED_KEYS :: "uchar list" where
  "RESERVED_KEYS = utf ''mjihc''"

definition chord_key :: "ustring \<Rightarrow> uchar option" where
  "chord_key chord =
     (case strip_prefix CTRL_PREFIX chord of
        Some (key # rest) \<Rightarrow>
          (let usable = (is_ascii_lowercase key \<and> key \<notin> set RESERVED_KEYS) \<or> key \<in> set DETACH_PUNCTUATION
           in if rest = [] \<and> usable then Some key else None)
      | _ \<Rightarrow> None)"

definition is_detach_chord :: "ustring \<Rightarrow> bool" where
  "is_detach_chord chord \<longleftrightarrow> chord_key chord \<noteq> None"

definition DetachKey_try_new :: "(ustring \<Rightarrow> ustring) \<Rightarrow> ustring \<Rightarrow> nutype_error + ustring" where
  "DetachKey_try_new lowercase raw =
     (let s = lowercase (trim raw) in if is_detach_chord s then Inr s else Inl PredicateViolated)"

definition detach_char :: "ustring \<Rightarrow> uchar" where
  "detach_char self = unwrap_or (chord_key self) 0"

definition LEGACY_CONTROL_MASK :: "8 word" where
  "LEGACY_CONTROL_MASK = 0x1F"

unbundle bit_operations_syntax

definition legacy_byte :: "ustring \<Rightarrow> 8 word" where
  "legacy_byte self = (of_nat (detach_char self) :: 8 word) AND LEGACY_CONTROL_MASK"

definition kitty_sequence :: "ustring \<Rightarrow> ustring" where
  "kitty_sequence self =
     [27] @ utf ''['' @ show_nat (detach_char self) @ utf '';'' @ show_nat 5 @ utf ''u''"

section \<open>Clocks and cursors\<close>

text \<open>A \<open>Duration\<close> is its number of nanoseconds.\<close>

type_synonym duration = nat

definition NANOS_PER_SEC :: nat where
  "NANOS_PER_SEC = 1000000000"

definition as_secs :: "duration \<Rightarrow> nat" where
  "as_secs d = d div NANOS_PER_SEC"

definition from_secs :: "u64 \<Rightarrow> duration" where
  "from_secs s = unat s * NANOS_PER_SEC"

lemma as_secs_from_secs [simp]: "as_secs (from_secs s) = unat s"
  by (simp add: as_secs_def from_secs_def NANOS_PER_SEC_def)

type_synonym epoch_seconds = u64

definition secs_after :: "epoch_seconds \<Rightarrow> duration \<Rightarrow> epoch_seconds" where
  "secs_after self span = saturating_add self (of_nat (as_secs span))"

definition secs_until :: "epoch_seconds \<Rightarrow> epoch_seconds \<Rightarrow> duration" where
  "secs_until self later = from_secs (saturating_sub later self)"

type_synonym epoch_nanos = u64

text \<open>A \<open>SystemTime\<close> is its signed distance from the epoch in nanoseconds.\<close>

definition epoch_nanos_of :: "int \<Rightarrow> epoch_nanos" where
  "epoch_nanos_of time =
     (let nanos = (if 0 \<le> time then nat time else 0)
      in if nanos < 2 ^ 64 then of_nat nanos else - 1)"

type_synonym output_cursor = u64

definition CURSOR_PREFIX :: ustring where
  "CURSOR_PREFIX = utf ''o:''"

definition CURSOR_FORM :: ustring where
  "CURSOR_FORM = utf ''an output cursor such as o:18234''"

definition advanced :: "output_cursor \<Rightarrow> u64 \<Rightarrow> output_cursor" where
  "advanced self bytes = saturating_add self bytes"

definition bytes_since :: "output_cursor \<Rightarrow> output_cursor \<Rightarrow> u64" where
  "bytes_since self earlier = saturating_sub self earlier"

definition cursor_to_string :: "output_cursor \<Rightarrow> ustring" where
  "cursor_to_string self = CURSOR_PREFIX @ show_nat (unat self)"

definition cursor_from_str :: "ustring \<Rightarrow> value_parse_error + output_cursor" where
  "cursor_from_str raw =
     ok_or
       (case strip_prefix CURSOR_PREFIX (trim raw) of
          None \<Rightarrow> None
        | Some digits \<Rightarrow>
            if list_all is_ascii_digit digits then map_option of_nat (parse_uint 64 digits) else None)
       \<lparr>expected = CURSOR_FORM, found = raw\<rparr>"

lemma trim_cursor [simp]: "trim (cursor_to_string c) = cursor_to_string c"
proof -
  have "last (cursor_to_string c) \<in> set (show_nat (unat c))"
    by (simp add: cursor_to_string_def)
  then have "\<not> is_whitespace (last (cursor_to_string c))"
    by (blast dest: show_nat_set digit_not_whitespace)
  then show ?thesis
    by (simp add: trim_id_iff trimmed_with_def cursor_to_string_def CURSOR_PREFIX_def utf_def
        is_whitespace_def[of 111])
qed

lemma cursor_round_trip: "cursor_from_str (cursor_to_string c) = Inr c"
proof -
  have "unat c < 2 ^ 64" using unat_bound[of c] by simp
  then have p: "parse_uint 64 (show_nat (unat c)) = Some (unat c)" by (rule parse_uint_show)
  have "strip_prefix CURSOR_PREFIX (trim (cursor_to_string c)) = Some (show_nat (unat c))"
    by (simp only: trim_cursor) (simp add: cursor_to_string_def)
  then show ?thesis by (simp add: cursor_from_str_def show_nat_digits p)
qed

lemma bytes_since_advanced:
  "unat (bytes_since (advanced c n) c) = min (unat n) (2 ^ 64 - 1 - unat c)"
  using unat_bound[of c]
  by (auto simp: bytes_since_def advanced_def unat_saturating_add unat_saturating_sub min_def)

section \<open>Ports\<close>

text \<open>A port is the value of a \<open>u16\<close>; zero is refused.\<close>

type_synonym local_port = nat

definition PORT_FORM :: ustring where
  "PORT_FORM = utf ''a port from 1 to 65535''"

definition LocalPort_try_new :: "nat \<Rightarrow> local_port option" where
  "LocalPort_try_new port = (if 0 < port then Some port else None)"

definition local_port_from_str :: "ustring \<Rightarrow> value_parse_error + local_port" where
  "local_port_from_str raw =
     ok_or (Option.bind (parse_uint 16 (trim raw)) LocalPort_try_new)
       \<lparr>expected = PORT_FORM, found = raw\<rparr>"

lemma local_port_range: "local_port_from_str raw = Inr p \<Longrightarrow> 1 \<le> p \<and> p \<le> 65535"
  by (auto simp: local_port_from_str_def LocalPort_try_new_def bind_eq_Some_conv
      split: if_splits dest!: parse_uint_bound)

lemma local_port_round_trip: "0 < p \<Longrightarrow> p < 2 ^ 16 \<Longrightarrow> local_port_from_str (show_nat p) = Inr p"
  by (simp add: local_port_from_str_def LocalPort_try_new_def parse_uint_show)

section \<open>Loopback URLs\<close>

definition HTTP_SCHEME :: ustring where
  "HTTP_SCHEME = utf ''http://''"

definition LOOPBACK_HOSTS :: "ustring list" where
  "LOOPBACK_HOSTS = [utf ''localhost'', utf ''127.0.0.1'', utf ''[::1]'']"

definition is_authority_end :: "uchar \<Rightarrow> bool" where
  "is_authority_end c \<longleftrightarrow> c \<in> set (utf ''/?#'')"

text \<open>
  The scheme is compared on the first seven bytes, which are the first seven characters where it
  matches, the scheme being ASCII.
\<close>

definition host_and_port :: "ustring \<Rightarrow> (ustring \<times> ustring) option" where
  "host_and_port url =
     (if eq_ignore_ascii_case (take (length HTTP_SCHEME) url) HTTP_SCHEME then
        (let rest = drop (length HTTP_SCHEME) url;
             authority = takeWhile (\<lambda>c. \<not> is_authority_end c) rest
         in if chr (CHR ''@'') \<in> set authority then None
            else (case strip_prefix (utf ''['') authority of
                    Some _ \<Rightarrow>
                      (case position (\<lambda>c. c = chr (CHR '']'')) authority of
                         None \<Rightarrow> None
                       | Some close \<Rightarrow> Some (take (close + 1) authority, drop (close + 1) authority))
                  | None \<Rightarrow>
                      (case position (\<lambda>c. c = chr (CHR '':'')) authority of
                         None \<Rightarrow> Some (authority, [])
                       | Some at \<Rightarrow> Some (take at authority, drop at authority))))
      else None)"

definition port_number :: "ustring \<Rightarrow> nat option" where
  "port_number sfx =
     (case strip_prefix (utf '':'') sfx of
        None \<Rightarrow> None
      | Some digits \<Rightarrow> if list_all is_ascii_digit digits then parse_uint 16 digits else None)"

definition is_loopback_url :: "ustring \<Rightarrow> bool" where
  "is_loopback_url url \<longleftrightarrow>
     (if list_ex (\<lambda>c. is_whitespace c \<or> is_control c \<or> c = 92) url then False
      else (case host_and_port url of
              None \<Rightarrow> False
            | Some (host, port) \<Rightarrow>
                (port = [] \<or> (case port_number port of None \<Rightarrow> False | Some n \<Rightarrow> 0 < n)) \<and>
                list_ex (\<lambda>loopback. eq_ignore_ascii_case host loopback) LOOPBACK_HOSTS))"

definition LocalUrl_try_new :: "ustring \<Rightarrow> nutype_error + ustring" where
  "LocalUrl_try_new raw =
     (let s = trim raw in if is_loopback_url s then Inr s else Inl PredicateViolated)"

definition URL_FORM :: ustring where
  "URL_FORM = utf ''an http URL on localhost, 127.0.0.1 or [::1]''"

definition local_url_from_str :: "ustring \<Rightarrow> value_parse_error + ustring" where
  "local_url_from_str raw = map_err (\<lambda>_. \<lparr>expected = URL_FORM, found = raw\<rparr>) (LocalUrl_try_new raw)"

definition local_url_port :: "ustring \<Rightarrow> local_port option" where
  "local_url_port self =
     Option.bind (Option.bind (host_and_port self) (\<lambda>(_, sfx). port_number sfx)) LocalPort_try_new"

interpretation local_url: validated_text trim is_loopback_url LocalUrl_try_new
  by unfold_locales (auto simp: LocalUrl_try_new_def Let_def)

lemma host_and_port_parts:
  assumes "host_and_port url = Some (host, sfx)"
  shows "\<exists>tail. url = take (length HTTP_SCHEME) url @ host @ sfx @ tail \<and>
           (tail = [] \<or> is_authority_end (hd tail)) \<and> chr (CHR ''@'') \<notin> set (host @ sfx)"
proof -
  let ?rest = "drop (length HTTP_SCHEME) url"
  let ?auth = "takeWhile (\<lambda>c. \<not> is_authority_end c) ?rest"
  let ?tail = "dropWhile (\<lambda>c. \<not> is_authority_end c) ?rest"
  from assms have "host @ sfx = ?auth" and "chr (CHR ''@'') \<notin> set ?auth"
    by (auto simp: host_and_port_def Let_def split: if_splits option.splits)
  moreover have "?tail = [] \<or> is_authority_end (hd ?tail)"
    using hd_dropWhile by blast
  moreover have "url = take (length HTTP_SCHEME) url @ ?auth @ ?tail"
    by (metis append_take_drop_id takeWhile_dropWhile_id)
  ultimately show ?thesis by (metis append_assoc)
qed

lemma host_and_port_scheme:
  "host_and_port url = Some hp \<Longrightarrow> eq_ignore_ascii_case (take (length HTTP_SCHEME) url) HTTP_SCHEME"
  by (auto simp: host_and_port_def split: if_splits)

lemma port_number_Some:
  "port_number sfx = Some n \<Longrightarrow> \<exists>digits. sfx = utf '':'' @ digits \<and> list_all is_ascii_digit digits \<and>
     parse_uint 16 digits = Some n"
  by (auto simp: port_number_def strip_prefix_Some_iff split: option.splits if_splits)

section \<open>Sizes\<close>

text \<open>
  A \<open>ByteSize\<close> is a positive number of bytes; the units are those of the sources' table, largest
  first. Reading a size is another crate's parser, the argument \<open>parse_size\<close>.
\<close>

definition UNITS :: "(ustring \<times> nat) list" where
  "UNITS = [(utf ''EiB'', 2 ^ 60), (utf ''PiB'', 2 ^ 50), (utf ''TiB'', 2 ^ 40),
            (utf ''GiB'', 2 ^ 30), (utf ''MiB'', 2 ^ 20), (utf ''KiB'', 2 ^ 10)]"

definition BYTES_UNIT :: ustring where
  "BYTES_UNIT = utf ''B''"

definition ByteSize_try_new :: "nat \<Rightarrow> nat option" where
  "ByteSize_try_new bytes = (if 0 < bytes then Some bytes else None)"

definition byte_size_unit :: "nat \<Rightarrow> ustring \<times> nat" where
  "byte_size_unit bytes = unwrap_or (find (\<lambda>(_, per). per dvd bytes) UNITS) (BYTES_UNIT, 1)"

definition byte_size_to_string :: "nat \<Rightarrow> ustring" where
  "byte_size_to_string bytes = (let (unit, per) = byte_size_unit bytes in show_nat (bytes div per) @ unit)"

definition SIZE_FORM :: ustring where
  "SIZE_FORM = utf ''a positive size such as 10MiB''"

definition byte_size_from_str :: "(ustring \<Rightarrow> nat option) \<Rightarrow> ustring \<Rightarrow> value_parse_error + nat" where
  "byte_size_from_str parse_size raw =
     ok_or (Option.bind (parse_size (trim raw)) ByteSize_try_new) \<lparr>expected = SIZE_FORM, found = raw\<rparr>"

definition MIN_LOG_MAX_BYTES :: nat where
  "MIN_LOG_MAX_BYTES = 16 * 2 ^ 10"

definition MAX_LOG_MAX_BYTES :: nat where
  "MAX_LOG_MAX_BYTES = 2 ^ 30"

definition LogMaxSize_try_new :: "nat \<Rightarrow> nat option" where
  "LogMaxSize_try_new bytes =
     (if MIN_LOG_MAX_BYTES \<le> bytes \<and> bytes \<le> MAX_LOG_MAX_BYTES then Some bytes else None)"

definition LOG_SIZE_FORM :: ustring where
  "LOG_SIZE_FORM = utf ''a size from 16KiB to 1GiB such as 10MiB''"

definition log_max_size_from_str :: "(ustring \<Rightarrow> nat option) \<Rightarrow> ustring \<Rightarrow> value_parse_error + nat" where
  "log_max_size_from_str parse_size raw =
     ok_or
       (case byte_size_from_str parse_size raw of Inl _ \<Rightarrow> None | Inr bytes \<Rightarrow> LogMaxSize_try_new bytes)
       \<lparr>expected = LOG_SIZE_FORM, found = raw\<rparr>"

lemma byte_size_unit_dvd: "byte_size_unit bytes = (unit, per) \<Longrightarrow> per dvd bytes \<and> 0 < per"
  by (auto simp: byte_size_unit_def UNITS_def BYTES_UNIT_def split: if_splits)

lemma byte_size_unit_listed: "byte_size_unit bytes \<in> set (UNITS @ [(BYTES_UNIT, 1)])"
  by (auto simp: byte_size_unit_def UNITS_def BYTES_UNIT_def)

text \<open>The unit shown is the largest that divides the size.\<close>

lemma byte_size_unit_largest:
  "(unit', per') \<in> set UNITS \<Longrightarrow> per' dvd bytes \<Longrightarrow> per' \<le> snd (byte_size_unit bytes)"
  by (auto simp: byte_size_unit_def UNITS_def BYTES_UNIT_def)

section \<open>Durations\<close>

definition NANOS_PER_MILLI :: nat where
  "NANOS_PER_MILLI = 1000000"

definition is_whole_millis :: "duration \<Rightarrow> bool" where
  "is_whole_millis d \<longleftrightarrow> NANOS_PER_MILLI dvd (d mod NANOS_PER_SEC)"

definition is_positive :: "duration \<Rightarrow> bool" where
  "is_positive d \<longleftrightarrow> d \<noteq> 0 \<and> is_whole_millis d"

definition PositiveDuration_try_new :: "duration \<Rightarrow> duration option" where
  "PositiveDuration_try_new d = (if is_positive d then Some d else None)"

definition DURATION_FORM :: ustring where
  "DURATION_FORM = utf ''a positive duration in whole milliseconds, such as 5s or 1m 30s''"

definition positive_duration_from_str ::
    "(ustring \<Rightarrow> duration option) \<Rightarrow> ustring \<Rightarrow> value_parse_error + duration" where
  "positive_duration_from_str parse_duration raw =
     ok_or (Option.bind (parse_duration (trim raw)) PositiveDuration_try_new)
       \<lparr>expected = DURATION_FORM, found = raw\<rparr>"

definition positive_duration_to_string :: "(duration \<Rightarrow> ustring) \<Rightarrow> duration \<Rightarrow> ustring" where
  "positive_duration_to_string format_duration d = format_duration d"

definition MAX_STOP_GRACE :: duration where
  "MAX_STOP_GRACE = 60 * 60 * NANOS_PER_SEC"

definition is_grace :: "duration \<Rightarrow> bool" where
  "is_grace d \<longleftrightarrow> d \<noteq> 0 \<and> d \<le> MAX_STOP_GRACE \<and> is_whole_millis d"

definition StopGrace_try_new :: "duration \<Rightarrow> duration option" where
  "StopGrace_try_new d = (if is_grace d then Some d else None)"

definition STOP_GRACE_FORM :: ustring where
  "STOP_GRACE_FORM = utf ''a positive duration in whole milliseconds up to 1h, such as 5s or 1m 30s''"

definition stop_grace_from_str ::
    "(ustring \<Rightarrow> duration option) \<Rightarrow> ustring \<Rightarrow> value_parse_error + duration" where
  "stop_grace_from_str parse_duration raw =
     ok_or (Option.bind (parse_duration (trim raw)) StopGrace_try_new)
       \<lparr>expected = STOP_GRACE_FORM, found = raw\<rparr>"

definition stop_grace_to_string :: "(duration \<Rightarrow> ustring) \<Rightarrow> duration \<Rightarrow> ustring" where
  "stop_grace_to_string format_duration d = format_duration d"

datatype idle_stop = After duration | Never

definition idle_stop_after :: "idle_stop \<Rightarrow> duration option" where
  "idle_stop_after self = (case self of After d \<Rightarrow> Some d | Never \<Rightarrow> None)"

definition NEVER_WORD :: ustring where
  "NEVER_WORD = utf ''never''"

definition IDLE_STOP_FORM :: ustring where
  "IDLE_STOP_FORM = utf ''a duration such as 30m, or never''"

definition idle_stop_from_str ::
    "(ustring \<Rightarrow> duration option) \<Rightarrow> ustring \<Rightarrow> value_parse_error + idle_stop" where
  "idle_stop_from_str parse_duration raw =
     (let trimmed = trim raw in
      if trimmed = NEVER_WORD then Inr Never
      else (case positive_duration_from_str parse_duration trimmed of
              Inl _ \<Rightarrow> Inl \<lparr>expected = IDLE_STOP_FORM, found = raw\<rparr>
            | Inr d \<Rightarrow> Inr (After d)))"

definition idle_stop_to_string :: "(duration \<Rightarrow> ustring) \<Rightarrow> idle_stop \<Rightarrow> ustring" where
  "idle_stop_to_string format_duration self =
     (case self of After d \<Rightarrow> positive_duration_to_string format_duration d | Never \<Rightarrow> NEVER_WORD)"

section \<open>Terminal sizes\<close>

definition Rows_try_new :: "nat \<Rightarrow> nat option" where
  "Rows_try_new rows = (if 1 \<le> rows \<and> rows \<le> 1000 then Some rows else None)"

definition Cols_try_new :: "nat \<Rightarrow> nat option" where
  "Cols_try_new cols = (if 2 \<le> cols \<and> cols \<le> 2000 then Some cols else None)"

record pty_size =
  rows :: nat
  cols :: nat

datatype size_error = SizeOutOfBounds nat nat

definition PtySize_try_new :: "nat \<Rightarrow> nat \<Rightarrow> size_error + pty_size" where
  "PtySize_try_new rs cs =
     (case (Rows_try_new rs, Cols_try_new cs) of
        (Some rs, Some cs) \<Rightarrow> Inr \<lparr>rows = rs, cols = cs\<rparr>
      | _ \<Rightarrow> Inl (SizeOutOfBounds rs cs))"

definition SIZE_SEPARATOR :: uchar where
  "SIZE_SEPARATOR = 120"

definition PTY_SIZE_FORM :: ustring where
  "PTY_SIZE_FORM = utf ''ROWSxCOLS such as 24x80''"

definition dimensions :: "ustring \<Rightarrow> value_parse_error + nat \<times> nat" where
  "dimensions raw =
     ok_or
       (case split_once SIZE_SEPARATOR (trim raw) of
          None \<Rightarrow> None
        | Some (rs, cs) \<Rightarrow>
            Option.bind (parse_uint 16 rs) (\<lambda>r. map_option (\<lambda>c. (r, c)) (parse_uint 16 cs)))
       \<lparr>expected = PTY_SIZE_FORM, found = raw\<rparr>"

definition pty_size_to_string :: "pty_size \<Rightarrow> ustring" where
  "pty_size_to_string self = show_nat (rows self) @ [SIZE_SEPARATOR] @ show_nat (cols self)"

datatype split_direction = Right | Down

definition split_for_area :: "nat \<Rightarrow> nat \<Rightarrow> split_direction" where
  "split_for_area cs rs = (if rs * 2 \<le> cs \<and> 40 * 2 \<le> cs then Right else Down)"

lemma trim_pty_size: "trim (pty_size_to_string s) = pty_size_to_string s"
  by (rule trim_id)
    (auto simp: pty_size_to_string_def list_all_iff SIZE_SEPARATOR_def is_whitespace_def
      dest!: show_nat_set dest: digit_not_whitespace simp: is_ascii_digit_def)

lemma dimensions_printed:
  assumes "rows s < 2 ^ 16" "cols s < 2 ^ 16"
  shows "dimensions (pty_size_to_string s) = Inr (rows s, cols s)"
proof -
  have "SIZE_SEPARATOR \<notin> set (show_nat (rows s))"
    by (auto simp: SIZE_SEPARATOR_def is_ascii_digit_def dest: show_nat_set)
  then have "split_once SIZE_SEPARATOR (pty_size_to_string s) = Some (show_nat (rows s), show_nat (cols s))"
    by (simp add: pty_size_to_string_def split_once_append)
  with assms show ?thesis
    by (simp add: dimensions_def trim_pty_size parse_uint_show)
qed

section \<open>Properties\<close>

text \<open>What a terminal shows without being steered by it, by code points: no C0 or C1 control character and no
  delete but the tab, and no format character.\<close>

definition inert_on_terminal :: "(uchar \<Rightarrow> bool) \<Rightarrow> uchar \<Rightarrow> bool" where
  "inert_on_terminal is_format c \<longleftrightarrow> (c = 9 \<or> 32 \<le> c \<and> c \<le> 126 \<or> 160 \<le> c) \<and> \<not> is_format c"

lemma inert_iff: "inert_on_terminal is_format c \<longleftrightarrow> \<not> steers_the_terminal is_format c"
  by (auto simp: inert_on_terminal_def steers_the_terminal_def is_control_def TAB_def)

lemma printable_concat:
  "printable is_format s = concat (map (\<lambda>c. if steers_the_terminal is_format c then escape_default c else [c]) s)"
  by (induction s) (auto simp: printable_def)

text \<open>C36. Untrusted text shown on a terminal cannot steer it. Whatever the input, every character of what
  \<^const>\<open>printable\<close> returns is a tab, one of the ASCII characters from the space to the tilde, or one
  from U+00A0 on that is no format character: no escape, no other control character of either range
  and no bidirectional control is left. The text is translated one character at a time; a character
  that is safe in this sense stays as it is, and any other becomes a backslash and what names it. The
  hypothesis is Unicode's: no printable ASCII character is in the category of format characters.\<close>

theorem printable_cannot_steer:
  assumes "\<And>c. 32 \<le> c \<Longrightarrow> c \<le> 126 \<Longrightarrow> \<not> is_format c"
  shows "list_all (inert_on_terminal is_format) (printable is_format s) \<and>
    printable is_format (s @ t) = printable is_format s @ printable is_format t \<and>
    (if inert_on_terminal is_format c then printable is_format [c] = [c]
     else \<exists>escape. printable is_format [c] = 92 # escape \<and> escape \<noteq> [])"
proof -
  have "inert_on_terminal is_format d" if "d \<in> set (escape_default c)" for c d
    using escape_default_ascii[OF that] assms by (auto simp: inert_on_terminal_def)
  then have "list_all (inert_on_terminal is_format) (printable is_format s)"
    by (auto simp: printable_concat list_all_iff inert_iff)
  moreover have "\<exists>escape. escape_default c = 92 # escape \<and> escape \<noteq> []" if "\<not> inert_on_terminal is_format c"
    using that assms[of c] by (auto simp: escape_default_def utf_def inert_on_terminal_def)
  ultimately show ?thesis by (simp add: printable_concat inert_iff)
qed

definition soft_hyphen_or_bidi :: "uchar \<Rightarrow> bool" where
  "soft_hyphen_or_bidi c \<longleftrightarrow> c = 173 \<or> 8234 \<le> c \<and> c \<le> 8238"

theorem printable_cannot_steer_witness:
  "printable soft_hyphen_or_bidi (utf ''a'' @ [27, 8238] @ utf ''b'') =
     utf [CHR ''a'', CHR 0x5C, CHR ''u'', CHR ''{'', CHR ''1'', CHR ''b'', CHR ''}'',
          CHR 0x5C, CHR ''u'', CHR ''{'', CHR ''2'', CHR ''0'', CHR ''2'', CHR ''e'', CHR ''}'', CHR ''b''] \<and>
   list_all (inert_on_terminal soft_hyphen_or_bidi) (printable soft_hyphen_or_bidi (utf ''a'' @ [27, 8238] @ utf ''b''))"
proof
  show "list_all (inert_on_terminal soft_hyphen_or_bidi) (printable soft_hyphen_or_bidi (utf ''a'' @ [27, 8238] @ utf ''b''))"
    using printable_cannot_steer[of soft_hyphen_or_bidi "utf ''a'' @ [27, 8238] @ utf ''b''"]
    by (simp add: soft_hyphen_or_bidi_def)
qed (simp add: printable_concat steers_the_terminal_def is_control_def TAB_def soft_hyphen_or_bidi_def escape_default_def show_hex.simps hex_digit_def utf_def)

text \<open>The candidate names are accepted, and no two are the same.\<close>

lemma trim_append_digits:
  assumes "trim s \<noteq> []" and "ds \<noteq> []" and "list_all is_ascii_digit ds"
  shows "trim (s @ utf ''-'' @ ds) = dropWhile is_whitespace s @ utf ''-'' @ ds"
proof -
  obtain c where some: "c \<in> set s" "\<not> is_whitespace c"
    using assms(1)
    by (auto simp: trim_def trim_with_def trim_start_with_def trim_end_with_def dest: set_dropWhileD)
  obtain ds' d where ds: "ds = ds' @ [d]"
    using assms(2) by (cases ds rule: rev_cases) auto
  have d: "\<not> is_whitespace d"
    using assms(3) digit_not_whitespace by (simp add: ds)
  show ?thesis
    using some d
    by (simp add: trim_def trim_with_def trim_start_with_def trim_end_with_def ds dropWhile_append1)
qed

definition collision_name :: "ustring \<Rightarrow> nat \<Rightarrow> ustring" where
  "collision_name base i =
     (if i = 0 then trim base
      else dropWhile is_whitespace base @ utf ''-'' @ show_nat (FIRST_COLLISION_SUFFIX + (i - 1)))"

lemma collision_name_inject:
  assumes "collision_name base i = collision_name base j"
  shows "i = j"
proof -
  have short: "length (trim base) \<le> length (dropWhile is_whitespace base)"
    by (simp add: trim_def trim_with_def trim_start_with_def trim_end_with_def
        length_dropWhile_le[of is_whitespace "rev (dropWhile is_whitespace base)", simplified])
  have longer: "length (collision_name base 0) < length (collision_name base (Suc k))" for k
    using short by (simp add: collision_name_def utf_def)
  show ?thesis
  proof (cases "i = 0 \<or> j = 0")
    case True
    then show ?thesis
      using assms longer[of "i - 1"] longer[of "j - 1"] by (cases i; cases j) auto
  next
    case False
    then show ?thesis
      using assms by (simp add: collision_name_def FIRST_COLLISION_SUFFIX_def)
  qed
qed

lemma candidate_base_not_blank: "trim (candidate_base is_format file_name) \<noteq> []"
  by (auto simp: candidate_base_def ROOT_FOLDER_NAME_def utf_def trim_id is_whitespace_def split: option.splits)

lemma candidate_accepted:
  assumes "\<And>c. 32 \<le> c \<Longrightarrow> c \<le> 126 \<Longrightarrow> \<not> is_format c"
  shows "candidate is_format file_name i = Inr (collision_name (candidate_base is_format file_name) i)"
proof -
  let ?base = "candidate_base is_format file_name"
  let ?raw = "if i = 0 then ?base else ?base @ utf ''-'' @ show_nat (FIRST_COLLISION_SUFFIX + (i - 1))"
  have digit: "\<not> steers_the_terminal is_format c" if "is_ascii_digit c" for c
    using that by (intro steers_ascii assms) (auto simp: is_ascii_digit_def)
  have root: "\<not> list_ex (steers_the_terminal is_format) ROOT_FOLDER_NAME" "\<not> steers_the_terminal is_format 45"
    by (simp_all add: ROOT_FOLDER_NAME_def utf_def steers_ascii assms)
  have base: "\<not> list_ex (steers_the_terminal is_format) ?base"
    using printable_safe[OF assms] root(1) by (auto simp: candidate_base_def split: option.splits)
  have "\<not> list_ex (steers_the_terminal is_format) (show_nat n)" for n
    using digit show_nat_set by (auto simp: list_ex_iff)
  then have "\<not> list_ex (steers_the_terminal is_format) ?raw"
    using base root(2) by (simp add: utf_def)
  then have "\<not> list_ex (steers_the_terminal is_format) (trim ?raw)"
    using set_trim[of ?raw] by (auto simp: list_ex_iff)
  moreover have trimmed: "trim ?raw = collision_name ?base i"
    using trim_append_digits[OF candidate_base_not_blank show_nat_nonempty show_nat_digits]
    by (simp add: collision_name_def)
  moreover have "trim ?raw \<noteq> []"
    unfolding trimmed using candidate_base_not_blank by (simp add: collision_name_def)
  ultimately show ?thesis
    by (simp add: candidate_def ProjectName_try_new_def trimmed_text_Inr_iff text_ok_def project_name_terminal_safe_def
        Let_def)
qed

text \<open>Whatever finite set of names is taken, one of the first \<open>card taken + 1\<close> candidates is an accepted
  project name outside it.\<close>

lemma free_candidate_exists:
  assumes "\<And>c. 32 \<le> c \<Longrightarrow> c \<le> 126 \<Longrightarrow> \<not> is_format c" and "finite taken"
  shows "\<exists>i \<le> card taken. \<exists>name. candidate is_format file_name i = Inr name \<and> name \<notin> taken"
proof (rule ccontr)
  let ?name = "collision_name (candidate_base is_format file_name)"
  assume "\<not> ?thesis"
  then have "?name ` {..card taken} \<subseteq> taken"
    using candidate_accepted[of is_format file_name, OF assms(1)] by auto
  moreover have "inj_on ?name {..card taken}"
    using collision_name_inject by (auto intro: inj_onI)
  ultimately show False
    using card_inj_on_le[of ?name "{..card taken}" taken] assms(2) by simp
qed

text \<open>C37. A probe never leaves the machine: an accepted URL is the scheme \<open>http://\<close>, then a loopback
  host, then nothing or a port from 1 to 65535, then the end of the text or a path, query or fragment,
  with no user-info mark that would move the host and no whitespace, control
  character or backslash anywhere; and the port the code reads from it is the one written there.\<close>

theorem local_url_is_loopback:
  assumes "LocalUrl_try_new raw = Inr url"
  shows "\<exists>scheme host sfx tail. url = scheme @ host @ sfx @ tail \<and>
     eq_ignore_ascii_case scheme HTTP_SCHEME \<and>
     (\<exists>loopback \<in> set LOOPBACK_HOSTS. eq_ignore_ascii_case host loopback) \<and>
     (tail = [] \<or> is_authority_end (hd tail)) \<and> chr (CHR ''@'') \<notin> set (host @ sfx) \<and>
     \<not> list_ex (\<lambda>c. is_whitespace c \<or> is_control c \<or> c = 92) url \<and>
     (case local_url_port url of
        None \<Rightarrow> sfx = []
      | Some p \<Rightarrow> 0 < p \<and> p < 2 ^ 16 \<and> (\<exists>digits. sfx = utf '':'' @ digits \<and> parse_uint 16 digits = Some p))"
proof -
  have loop: "is_loopback_url url"
    using assms by (rule local_url.accepted_valid)
  then obtain host sfx where hp: "host_and_port url = Some (host, sfx)"
    and port: "sfx = [] \<or> (case port_number sfx of None \<Rightarrow> False | Some n \<Rightarrow> 0 < n)"
    and host: "\<exists>loopback \<in> set LOOPBACK_HOSTS. eq_ignore_ascii_case host loopback"
    and clean: "\<not> list_ex (\<lambda>c. is_whitespace c \<or> is_control c \<or> c = 92) url"
    by (auto simp: is_loopback_url_def list_ex_iff split: option.splits if_splits)
  obtain tail where parts: "url = take (length HTTP_SCHEME) url @ host @ sfx @ tail"
      "tail = [] \<or> is_authority_end (hd tail)" "chr (CHR ''@'') \<notin> set (host @ sfx)"
    using host_and_port_parts[OF hp] by blast
  have "case local_url_port url of
      None \<Rightarrow> sfx = []
    | Some p \<Rightarrow> 0 < p \<and> p < 2 ^ 16 \<and> (\<exists>digits. sfx = utf '':'' @ digits \<and> parse_uint 16 digits = Some p)"
  proof (cases "sfx = []")
    case True
    then show ?thesis
      by (simp add: local_url_port_def hp port_number_def strip_prefix_def utf_def)
  next
    case False
    then obtain n where n: "port_number sfx = Some n" "0 < n"
      using port by (auto split: option.splits)
    obtain digits where d: "sfx = utf '':'' @ digits" "parse_uint 16 digits = Some n"
      using port_number_Some[OF n(1)] by blast
    have "local_url_port url = Some n"
      using n by (simp add: local_url_port_def hp LocalPort_try_new_def)
    moreover have "n < 2 ^ 16"
      using parse_uint_bound[OF d(2)] by simp
    ultimately show ?thesis
      using n d by auto
  qed
  then show ?thesis
    using parts host clean host_and_port_scheme[OF hp]
    by (intro exI[of _ "take (length HTTP_SCHEME) url"] exI[of _ host] exI[of _ sfx] exI[of _ tail] conjI)
qed

theorem local_url_is_loopback_witness:
  "LocalUrl_try_new (utf '' http://LocalHost:8080/health'') = Inr (utf ''http://LocalHost:8080/health'') \<and>
   (\<exists>scheme host sfx tail. utf ''http://LocalHost:8080/health'' = scheme @ host @ sfx @ tail \<and>
     eq_ignore_ascii_case scheme HTTP_SCHEME \<and> chr (CHR ''@'') \<notin> set (host @ sfx))"
proof -
  have "LocalUrl_try_new (utf '' http://LocalHost:8080/health'') = Inr (utf ''http://LocalHost:8080/health'')"
    by (simp add: LocalUrl_try_new_def is_loopback_url_def host_and_port_def HTTP_SCHEME_def LOOPBACK_HOSTS_def
        utf_def text_simps is_whitespace_def is_control_def eq_ignore_ascii_case_def to_ascii_lowercase_def
        is_ascii_uppercase_def is_authority_end_def strip_prefix_def chr_def port_number_def is_ascii_digit_def
        parse_uint_def Let_def)
  then show ?thesis
    using local_url_is_loopback[of "utf '' http://LocalHost:8080/health''" "utf ''http://LocalHost:8080/health''"]
    by blast
qed

text \<open>C38. The output cursor a client prints and sends back is the cursor it was given, for every
  64-bit offset, and the bytes since an earlier cursor are those written in
  between unless the offset saturated.\<close>

theorem cursor_round_trip_and_distance:
  "cursor_from_str (cursor_to_string c) = Inr c \<and>
   unat (bytes_since (advanced c n) c) = min (unat n) (2 ^ 64 - 1 - unat c)"
  by (simp add: cursor_round_trip bytes_since_advanced)

text \<open>A log size in range is read back from its text, given only that the size parser reads a whole
  number followed by one of the printed units, up to 1 GiB, as their product.\<close>

lemma log_max_size_printed:
  assumes parse: "\<And>n unit per. (unit, per) \<in> set (UNITS @ [(BYTES_UNIT, 1)]) \<Longrightarrow> n * per \<le> 2 ^ 30 \<Longrightarrow>
      parse_size (show_nat n @ unit) = Some (n * per)"
    and "LogMaxSize_try_new bytes = Some size'"
  shows "log_max_size_from_str parse_size (byte_size_to_string size') = Inr size'"
proof -
  have range: "size' = bytes" "MIN_LOG_MAX_BYTES \<le> bytes" "bytes \<le> MAX_LOG_MAX_BYTES"
    using assms(2) by (auto simp: LogMaxSize_try_new_def split: if_splits)
  obtain unit per where u: "byte_size_unit bytes = (unit, per)"
    by fastforce
  have whole: "bytes div per * per = bytes"
    using byte_size_unit_dvd[OF u] by simp
  have listed: "(unit, per) \<in> set (UNITS @ [(BYTES_UNIT, 1)])"
    using byte_size_unit_listed[of bytes] u by simp
  have "list_all (\<lambda>c. \<not> is_whitespace c) unit"
    using listed by (auto simp: UNITS_def BYTES_UNIT_def utf_def is_whitespace_def)
  moreover have "list_all (\<lambda>c. \<not> is_whitespace c) (show_nat n)" for n
    by (meson digit_not_whitespace list_all_iff show_nat_set)
  ultimately have "trim (show_nat (bytes div per) @ unit) = show_nat (bytes div per) @ unit"
    by (intro trim_id) simp
  moreover have "parse_size (show_nat (bytes div per) @ unit) = Some bytes"
    using parse[OF listed, of "bytes div per"] whole range by (simp add: MAX_LOG_MAX_BYTES_def)
  ultimately show ?thesis
    using range by (simp add: log_max_size_from_str_def byte_size_from_str_def byte_size_to_string_def u
        ByteSize_try_new_def LogMaxSize_try_new_def MIN_LOG_MAX_BYTES_def)
qed

definition exact_size :: "ustring \<Rightarrow> nat option" where
  "exact_size raw =
     (let digits = takeWhile is_ascii_digit raw; unit = dropWhile is_ascii_digit raw
      in case map_of (UNITS @ [(BYTES_UNIT, 1)]) unit of
           None \<Rightarrow> None
         | Some per \<Rightarrow> map_option (\<lambda>n. n * per) (parse_uint 64 digits))"

lemma exact_size_printed:
  assumes "(unit, per) \<in> set (UNITS @ [(BYTES_UNIT, 1)])" and "n * per \<le> 2 ^ 30"
  shows "exact_size (show_nat n @ unit) = Some (n * per)"
proof -
  have "\<not> is_ascii_digit (hd unit) \<and> unit \<noteq> [] \<and> 0 < per \<and> map_of (UNITS @ [(BYTES_UNIT, 1)]) unit = Some per"
    using assms(1) by (auto simp: UNITS_def BYTES_UNIT_def utf_def is_ascii_digit_def)
  moreover from this have "n < 2 ^ 64"
    using assms(2) by (cases per) auto
  ultimately show ?thesis
    using show_nat_digits[of n] by (cases unit)
      (auto simp: exact_size_def Let_def list_all_iff takeWhile_append dropWhile_append parse_uint_show)
qed

end
