(* ===== verification/Process.thy ===== *)
theory Process
  imports Values
begin

text \<open>
  The process rules of \<open>muster-domain/src/process\<close> and the run outcomes of \<open>muster-domain/src/pty\<close>:
  lifecycle states, exit intents, restart policies, readiness and its probes, and the decision
  \<open>muster-application/src/process_lifecycle.rs\<close> takes when a run ends.
\<close>

section \<open>Outcomes of a run\<close>

definition SignalName_try_new :: "(ustring \<Rightarrow> ustring) \<Rightarrow> ustring \<Rightarrow> nutype_error + ustring" where
  "SignalName_try_new lowercase raw =
     (let s = lowercase (trim raw) in if s = [] then Inl NotEmptyViolated else Inr s)"

datatype exit_cause = Status nat | Signal ustring | UnknownCause

datatype exit_outcome = Succeeded | Failed exit_cause

definition FAILED_UNKNOWN :: exit_outcome where
  "FAILED_UNKNOWN = Failed UnknownCause"

definition is_failure :: "exit_outcome \<Rightarrow> bool" where
  "is_failure self \<longleftrightarrow> (case self of Failed _ \<Rightarrow> True | Succeeded \<Rightarrow> False)"

text \<open>A signal is shown in upper case, by the argument \<open>uppercase\<close>.\<close>

definition exit_summary :: "(ustring \<Rightarrow> ustring) \<Rightarrow> exit_outcome \<Rightarrow> ustring option" where
  "exit_summary uppercase self =
     (case self of
        Succeeded \<Rightarrow> Some (utf ''status '' @ show_nat 0)
      | Failed (Status status) \<Rightarrow> Some (utf ''status '' @ show_nat status)
      | Failed (Signal signal) \<Rightarrow> Some (utf ''signal '' @ uppercase signal)
      | Failed UnknownCause \<Rightarrow> None)"

definition exit_cause_to_string :: "(ustring \<Rightarrow> ustring) \<Rightarrow> exit_cause \<Rightarrow> ustring" where
  "exit_cause_to_string uppercase self =
     (case self of
        Status status \<Rightarrow> utf ''exited with status '' @ show_nat status
      | Signal signal \<Rightarrow> utf ''ended by signal: '' @ uppercase signal
      | UnknownCause \<Rightarrow> utf ''ended without a status'')"

definition exit_outcome_to_string :: "(ustring \<Rightarrow> ustring) \<Rightarrow> exit_outcome \<Rightarrow> ustring" where
  "exit_outcome_to_string uppercase self =
     (case self of
        Succeeded \<Rightarrow> utf ''exited with status 0''
      | Failed cause \<Rightarrow> exit_cause_to_string uppercase cause)"

record spawn_history =
  history_restarts :: u32
  history_last_exit :: "exit_outcome option"

section \<open>Lifecycle states\<close>

datatype process_state =
  Pending | Starting | Running | Paused | Stopping | Exited | Crashed | Restarting
  | Unsupervised | Blocked

definition is_active :: "process_state \<Rightarrow> bool" where
  "is_active self \<longleftrightarrow>
     (case self of Starting \<Rightarrow> True | Running \<Rightarrow> True | Paused \<Rightarrow> True | Stopping \<Rightarrow> True
      | Restarting \<Rightarrow> True | _ \<Rightarrow> False)"

definition may_be_running :: "process_state \<Rightarrow> bool" where
  "may_be_running self \<longleftrightarrow> is_active self \<or> self = Unsupervised"

section \<open>Exit intents\<close>

datatype exit_intent =
  FollowPolicy | StopRetryable | StopInFlight | RestartRetryable | RestartInFlight

definition is_stop :: "exit_intent \<Rightarrow> bool" where
  "is_stop self \<longleftrightarrow> (case self of StopRetryable \<Rightarrow> True | StopInFlight \<Rightarrow> True | _ \<Rightarrow> False)"

definition is_restart :: "exit_intent \<Rightarrow> bool" where
  "is_restart self \<longleftrightarrow> (case self of RestartRetryable \<Rightarrow> True | RestartInFlight \<Rightarrow> True | _ \<Rightarrow> False)"

definition request_stop :: "exit_intent \<Rightarrow> exit_intent" where
  "request_stop self = StopRetryable"

definition stop_delivered :: "exit_intent \<Rightarrow> exit_intent" where
  "stop_delivered self = (if is_stop self then StopInFlight else self)"

definition stop_delivery_failed :: "exit_intent \<Rightarrow> exit_intent" where
  "stop_delivery_failed self = (if is_stop self then StopRetryable else self)"

definition request_restart :: "exit_intent \<Rightarrow> exit_intent" where
  "request_restart self = RestartRetryable"

definition restart_delivered :: "exit_intent \<Rightarrow> exit_intent" where
  "restart_delivered self = (if is_restart self then RestartInFlight else self)"

definition restart_delivery_failed :: "exit_intent \<Rightarrow> exit_intent" where
  "restart_delivery_failed self = (if is_restart self then RestartRetryable else self)"

definition accepts_stop_request :: "exit_intent \<Rightarrow> bool" where
  "accepts_stop_request self \<longleftrightarrow> self \<noteq> StopInFlight"

definition accepts_restart_request :: "exit_intent \<Rightarrow> bool" where
  "accepts_restart_request self \<longleftrightarrow> self \<noteq> RestartInFlight"

fun force_stop_delivery_failed :: "exit_intent \<Rightarrow> exit_intent" where
  "force_stop_delivery_failed StopInFlight = StopRetryable"
| "force_stop_delivery_failed RestartInFlight = RestartRetryable"
| "force_stop_delivery_failed self = self"

definition awaits_force_stop :: "exit_intent \<Rightarrow> bool" where
  "awaits_force_stop self \<longleftrightarrow> (case self of StopInFlight \<Rightarrow> True | RestartInFlight \<Rightarrow> True | _ \<Rightarrow> False)"

lemmas intent_defs =
  is_stop_def is_restart_def request_stop_def stop_delivered_def stop_delivery_failed_def
  request_restart_def restart_delivered_def restart_delivery_failed_def accepts_stop_request_def
  accepts_restart_request_def awaits_force_stop_def

section \<open>Restart policies and the decision at an exit\<close>

datatype restart_policy = Policy_Never | OnFailure | Always

fun restart_policy_to_string :: "restart_policy \<Rightarrow> ustring" where
  "restart_policy_to_string Policy_Never = utf ''never''"
| "restart_policy_to_string OnFailure = utf ''on-failure''"
| "restart_policy_to_string Always = utf ''always''"

definition should_restart :: "restart_policy \<Rightarrow> exit_outcome \<Rightarrow> bool" where
  "should_restart self outcome \<longleftrightarrow>
     (case self of Policy_Never \<Rightarrow> False | OnFailure \<Rightarrow> is_failure outcome | Always \<Rightarrow> True)"

datatype stop_signal = Terminate | Interrupt

fun stop_signal_to_string :: "stop_signal \<Rightarrow> ustring" where
  "stop_signal_to_string Terminate = utf ''terminate''"
| "stop_signal_to_string Interrupt = utf ''interrupt''"

record stop_policy =
  signal :: stop_signal
  grace_period :: duration

datatype exit_decision = Retire | Stop | RestartNow | RestartLater | Settle process_state

definition exit_state :: "exit_outcome \<Rightarrow> process_state" where
  "exit_state outcome = (case outcome of Succeeded \<Rightarrow> Exited | Failed _ \<Rightarrow> Crashed)"

definition after_exit :: "exit_intent \<Rightarrow> bool \<Rightarrow> bool \<Rightarrow> exit_outcome \<Rightarrow> exit_decision" where
  "after_exit intent retired_from_stack restart outcome =
     (if retired_from_stack then Retire
      else (case intent of
              StopRetryable \<Rightarrow> Stop
            | StopInFlight \<Rightarrow> Stop
            | RestartRetryable \<Rightarrow> RestartNow
            | RestartInFlight \<Rightarrow> RestartNow
            | FollowPolicy \<Rightarrow> if restart then RestartLater else Settle (exit_state outcome)))"

section \<open>Readiness\<close>

definition PATTERN_MAX_CHARS :: nat where
  "PATTERN_MAX_CHARS = 512"

definition PATTERN_FORM :: ustring where
  "PATTERN_FORM = utf ''a pattern of 1 to 512 characters''"

definition PatternText_try_new :: "ustring \<Rightarrow> nutype_error + ustring" where
  "PatternText_try_new = trimmed_text (Some PATTERN_MAX_CHARS) (\<lambda>_. True)"

interpretation pattern_text: validated_text trim "text_ok (Some PATTERN_MAX_CHARS) (\<lambda>_. True)"
    PatternText_try_new
  unfolding PatternText_try_new_def by (rule validated_trimmed_text)

datatype pattern_kind = Substring | Regex

fun pattern_kind_to_string :: "pattern_kind \<Rightarrow> ustring" where
  "pattern_kind_to_string Substring = utf ''substring''"
| "pattern_kind_to_string Regex = utf ''regex''"

definition of_regex :: "bool \<Rightarrow> pattern_kind" where
  "of_regex regex = (if regex then Regex else Substring)"

record log_pattern =
  pattern_text :: ustring
  pattern_kind :: pattern_kind

definition log_pattern_to_string :: "log_pattern \<Rightarrow> ustring" where
  "log_pattern_to_string self =
     (case pattern_kind self of
        Substring \<Rightarrow> pattern_text self
      | Regex \<Rightarrow> pattern_text self @ utf '' ('' @ pattern_kind_to_string (pattern_kind self) @ utf '')'')"

datatype ready_kind = Kind_Log | Kind_Regex | Kind_Port | Kind_Http

fun ready_kind_to_string :: "ready_kind \<Rightarrow> ustring" where
  "ready_kind_to_string Kind_Log = utf ''log''"
| "ready_kind_to_string Kind_Regex = utf ''regex''"
| "ready_kind_to_string Kind_Port = utf ''port''"
| "ready_kind_to_string Kind_Http = utf ''http''"

definition ready_kinds :: "ready_kind list" where
  "ready_kinds = [Kind_Log, Kind_Regex, Kind_Port, Kind_Http]"

datatype ready_probe = Probe_Log log_pattern | Probe_Port local_port | Probe_Http ustring

definition pattern_probe :: "ustring \<Rightarrow> pattern_kind \<Rightarrow> value_parse_error + ready_probe" where
  "pattern_probe target kind =
     (case PatternText_try_new target of
        Inl _ \<Rightarrow> Inl \<lparr>expected = PATTERN_FORM, found = target\<rparr>
      | Inr t \<Rightarrow> Inr (Probe_Log \<lparr>pattern_text = t, pattern_kind = kind\<rparr>))"

definition from_stored :: "ustring \<Rightarrow> ustring \<Rightarrow> value_parse_error + ready_probe" where
  "from_stored kind target =
     and_then (parse_choice ready_kinds ready_kind_to_string kind)
       (\<lambda>k. case k of
              Kind_Log \<Rightarrow> pattern_probe target Substring
            | Kind_Regex \<Rightarrow> pattern_probe target Regex
            | Kind_Port \<Rightarrow> and_then (local_port_from_str target) (\<lambda>p. Inr (Probe_Port p))
            | Kind_Http \<Rightarrow> and_then (local_url_from_str target) (\<lambda>u. Inr (Probe_Http u)))"

definition probe_port :: "ready_probe \<Rightarrow> local_port option" where
  "probe_port self =
     (case self of
        Probe_Log _ \<Rightarrow> None
      | Probe_Port port \<Rightarrow> Some port
      | Probe_Http url \<Rightarrow> local_url_port url)"

definition stored :: "ready_probe \<Rightarrow> ready_kind \<times> ustring" where
  "stored self =
     (case self of
        Probe_Log pattern \<Rightarrow>
          ((case pattern_kind pattern of Substring \<Rightarrow> Kind_Log | Regex \<Rightarrow> Kind_Regex),
           pattern_text pattern)
      | Probe_Port port \<Rightarrow> (Kind_Port, show_nat port)
      | Probe_Http url \<Rightarrow> (Kind_Http, url))"

record ready_check =
  probe :: ready_probe
  timeout :: duration

datatype readiness = NoCheck | Waiting | Ready | TimedOut

definition on_spawn :: "ready_check option \<Rightarrow> readiness" where
  "on_spawn check = (case check of Some _ \<Rightarrow> Waiting | None \<Rightarrow> NoCheck)"

definition on_passed :: "readiness \<Rightarrow> readiness" where
  "on_passed self = (case self of Waiting \<Rightarrow> Ready | _ \<Rightarrow> self)"

definition on_deadline :: "readiness \<Rightarrow> readiness" where
  "on_deadline self = (case self of Waiting \<Rightarrow> TimedOut | _ \<Rightarrow> self)"

definition on_exit :: "readiness \<Rightarrow> readiness" where
  "on_exit self = NoCheck"

definition is_waiting :: "readiness \<Rightarrow> bool" where
  "is_waiting self \<longleftrightarrow> self = Waiting"

subsection \<open>The printed names are choices\<close>

interpretation restart_choice: choice "[Policy_Never, OnFailure, Always]" restart_policy_to_string
proof
  show "x \<in> set [Policy_Never, OnFailure, Always]" for x by (cases x) auto
  show "inj restart_policy_to_string"
    by (rule injI, case_tac x; case_tac y) (simp_all add: utf_def)
  show "trim (restart_policy_to_string x) = restart_policy_to_string x" for x
    by (cases x) (simp_all add: text_simps)
qed

interpretation stop_signal_choice: choice "[Terminate, Interrupt]" stop_signal_to_string
proof
  show "x \<in> set [Terminate, Interrupt]" for x by (cases x) auto
  show "inj stop_signal_to_string"
    by (rule injI, case_tac x; case_tac y) (simp_all add: utf_def)
  show "trim (stop_signal_to_string x) = stop_signal_to_string x" for x
    by (cases x) (simp_all add: text_simps)
qed

interpretation ready_kind_choice: choice ready_kinds ready_kind_to_string
proof
  show "x \<in> set ready_kinds" for x by (cases x) (auto simp: ready_kinds_def)
  show "inj ready_kind_to_string"
    by (rule injI, case_tac x; case_tac y) (simp_all add: utf_def)
  show "trim (ready_kind_to_string x) = ready_kind_to_string x" for x
    by (cases x) (simp_all add: text_simps)
qed

subsection \<open>Stored probes\<close>

text \<open>A probe whose parts are values of their types: an accepted pattern, a port, an accepted URL.\<close>

definition probe_ok :: "ready_probe \<Rightarrow> bool" where
  "probe_ok p =
     (case p of
        Probe_Log pattern \<Rightarrow> PatternText_try_new (pattern_text pattern) = Inr (pattern_text pattern)
      | Probe_Port port \<Rightarrow> 0 < port \<and> port < 2 ^ 16
      | Probe_Http url \<Rightarrow> LocalUrl_try_new url = Inr url)"

lemma from_stored_printed:
  "from_stored (ready_kind_to_string k) target =
     (case k of
        Kind_Log \<Rightarrow> pattern_probe target Substring
      | Kind_Regex \<Rightarrow> pattern_probe target Regex
      | Kind_Port \<Rightarrow> and_then (local_port_from_str target) (\<lambda>p. Inr (Probe_Port p))
      | Kind_Http \<Rightarrow> and_then (local_url_from_str target) (\<lambda>u. Inr (Probe_Http u)))"
  by (simp add: from_stored_def ready_kind_choice.parse_choice_printed)

lemma stored_from_stored:
  assumes "probe_ok p" and "stored p = (k, target)"
  shows "from_stored (ready_kind_to_string k) target = Inr p"
proof (cases p)
  case (Probe_Log pattern)
  with assms show ?thesis
    unfolding from_stored_printed
    by (cases "pattern_kind pattern")
      (auto simp: stored_def probe_ok_def pattern_probe_def)
next
  case (Probe_Port port)
  with assms show ?thesis
    unfolding from_stored_printed
    by (auto simp: stored_def probe_ok_def local_port_round_trip)
next
  case (Probe_Http url)
  with assms show ?thesis
    unfolding from_stored_printed
    by (auto simp: stored_def probe_ok_def local_url_from_str_def)
qed

lemma from_stored_probe_ok:
  assumes "from_stored kind target = Inr p"
  shows "probe_ok p"
proof -
  from assms obtain k where "parse_choice ready_kinds ready_kind_to_string kind = Inr k"
    by (auto simp: from_stored_def and_then_Inr_iff)
  with assms show ?thesis
    using local_port_range[of target]
    by (cases k)
      (auto simp: from_stored_def probe_ok_def pattern_probe_def and_then_Inr_iff
        local_url_from_str_def split: sum.splits
        dest: pattern_text.accepted_again local_url.accepted_again)
qed

section \<open>Properties\<close>

text \<open>C39. A readiness probe survives the database: every probe \<^const>\<open>from_stored\<close> can produce is
  written by \<^const>\<open>stored\<close> as a kind and a target from which \<^const>\<open>from_stored\<close> reads the same probe.\<close>

theorem probe_survives_storage:
  assumes "from_stored kind target = Inr p" and "stored p = (k, text')"
  shows "from_stored (ready_kind_to_string k) text' = Inr p"
  using stored_from_stored[OF from_stored_probe_ok[OF assms(1)] assms(2)] .

theorem probe_survives_storage_witness:
  "from_stored (utf '' port'') (utf ''8080 '') = Inr (Probe_Port 8080) \<and>
   from_stored (ready_kind_to_string Kind_Port) (show_nat 8080) = Inr (Probe_Port 8080)"
proof -
  have "from_stored (utf '' port'') (utf ''8080 '') = Inr (Probe_Port 8080)"
    by (simp add: from_stored_def parse_choice_def enum_from_str_def ready_kinds_def utf_def text_simps
        is_whitespace_def local_port_from_str_def parse_as_def parse_uint_def is_ascii_digit_def LocalPort_try_new_def)
  then show ?thesis
    using probe_survives_storage[of "utf '' port''" "utf ''8080 ''" "Probe_Port 8080" Kind_Port "show_nat 8080"]
    by (simp add: stored_def)
qed

section \<open>Requests before an exit\<close>

text \<open>
  What happens to the intent of a running process: a stop or a restart is asked for, its signal is
  delivered or not, and a forced kill fails.
\<close>

datatype intent_event = Asked_Stop | Stop_Signalled bool | Asked_Restart | Restart_Signalled bool | Kill_Failed

fun intent_after :: "intent_event \<Rightarrow> exit_intent \<Rightarrow> exit_intent" where
  "intent_after Asked_Stop = request_stop"
| "intent_after (Stop_Signalled ok) = (if ok then stop_delivered else stop_delivery_failed)"
| "intent_after Asked_Restart = request_restart"
| "intent_after (Restart_Signalled ok) = (if ok then restart_delivered else restart_delivery_failed)"
| "intent_after Kill_Failed = force_stop_delivery_failed"

text \<open>
  The last thing that was asked for, and whether its signal is out: it was delivered after that, no
  later signal of it failed, and neither did a forced kill.
\<close>

definition last_asked :: "intent_event list \<Rightarrow> intent_event option" where
  "last_asked events = find (\<lambda>e. e = Asked_Stop \<or> e = Asked_Restart) (rev events)"

definition signal_out :: "(bool \<Rightarrow> intent_event) \<Rightarrow> intent_event \<Rightarrow> intent_event list \<Rightarrow> bool" where
  "signal_out signalled ask events \<longleftrightarrow>
     (\<exists>earlier later. events = earlier @ signalled True # later \<and> last_asked earlier = Some ask \<and>
        last_asked later = None \<and> signalled False \<notin> set later \<and> Kill_Failed \<notin> set later)"

definition intent_of :: "intent_event list \<Rightarrow> exit_intent" where
  "intent_of events = fold intent_after events FollowPolicy"

lemma history_Nil: "intent_of [] = FollowPolicy" "last_asked [] = None" "\<not> signal_out signalled ask []"
  by (simp_all add: intent_of_def last_asked_def signal_out_def)

lemma intent_of_snoc: "intent_of (events @ [e]) = intent_after e (intent_of events)"
  by (simp add: intent_of_def)

lemma last_asked_snoc: "last_asked (events @ [e]) = (if e = Asked_Stop \<or> e = Asked_Restart then Some e else last_asked events)"
  by (simp add: last_asked_def)

lemma signal_out_snoc:
  "signal_out signalled ask (events @ [e]) \<longleftrightarrow>
     e = signalled True \<and> last_asked events = Some ask \<or>
     signal_out signalled ask events \<and> e \<notin> {Asked_Stop, Asked_Restart, Kill_Failed, signalled False}"
  (is "?l \<longleftrightarrow> ?now \<or> ?still")
proof
  assume ?l
  then show "?now \<or> ?still"
    unfolding signal_out_def snoc_split by (fastforce simp: last_asked_snoc split: if_splits)
next
  assume "?now \<or> ?still"
  then show ?l
  proof
    assume ?now
    then show ?l unfolding signal_out_def by (intro exI[of _ events] exI[of _ "[]"]) (simp add: history_Nil)
  next
    assume ?still
    then obtain earlier later where "events = earlier @ signalled True # later" "last_asked earlier = Some ask"
      "last_asked later = None" "signalled False \<notin> set later" "Kill_Failed \<notin> set later"
      "e \<notin> {Asked_Stop, Asked_Restart, Kill_Failed, signalled False}"
      unfolding signal_out_def by blast
    then show ?l unfolding signal_out_def by (intro exI[of _ earlier] exI[of _ "later @ [e]"]) (auto simp: last_asked_snoc)
  qed
qed

lemma intent_history:
  "intent_of events =
     (if last_asked events = Some Asked_Stop then
        (if signal_out Stop_Signalled Asked_Stop events then StopInFlight else StopRetryable)
      else if last_asked events = Some Asked_Restart then
        (if signal_out Restart_Signalled Asked_Restart events then RestartInFlight else RestartRetryable)
      else FollowPolicy)"
proof (induction events rule: rev_induct)
  case (snoc e events)
  then show ?case by (cases e) (auto simp: intent_of_snoc last_asked_snoc signal_out_snoc intent_defs)
qed (simp add: history_Nil)

text \<open>C40. What happens at an exit is decided by the last thing that was asked for while the process ran, whatever
  became of its signals. Let any requests to stop and to restart come, in any order, each signal be
  delivered or not, and any forced kill fail. A process withdrawn from its stack is retired; otherwise
  it stays stopped if the last request was a stop, and is started at once if it was a restart; only if
  nothing was asked does its policy decide, which restarts it later or settles it as exited or crashed
  by the outcome. Another stop is accepted unless the last request was a stop whose signal is out, and
  another restart unless it was a restart whose signal is out; so a failed signal can be asked for
  again.\<close>

theorem exit_follows_last_request:
  "after_exit (intent_of events) retired (should_restart policy outcome) outcome =
     (if retired then Retire
      else if last_asked events = Some Asked_Stop then Stop
      else if last_asked events = Some Asked_Restart then RestartNow
      else if policy = Always \<or> policy = OnFailure \<and> outcome \<noteq> Succeeded then RestartLater
      else Settle (if outcome = Succeeded then Exited else Crashed)) \<and>
   (accepts_stop_request (intent_of events) \<longleftrightarrow> \<not> (last_asked events = Some Asked_Stop \<and> signal_out Stop_Signalled Asked_Stop events)) \<and>
   (accepts_restart_request (intent_of events) \<longleftrightarrow>
      \<not> (last_asked events = Some Asked_Restart \<and> signal_out Restart_Signalled Asked_Restart events))"
  unfolding intent_history
  by (cases policy; cases outcome) (auto simp: after_exit_def should_restart_def exit_state_def is_failure_def intent_defs)

end
