(* ===== verification/Paths.thy ===== *)
theory Paths
  imports RustText
begin

text \<open>
  Paths and project roots: \<open>value/project_root.rs\<close> and \<open>config/relative_dir.rs\<close>. A path is the list
  of components that \<open>Path::components\<close> yields on Unix, which is also what the equality, the order
  and the prefix test of \<open>Path\<close> compare: a root directory or a leading \<open>.\<close> stand first only, and
  repeated separators and inner \<open>.\<close> are gone. The empty list is the empty path.
\<close>

datatype component = RootDir | CurDir | ParentDir | Normal ustring

text \<open>The derived order of \<open>std::path::Component\<close>: by variant, then by name.\<close>

fun component_rank :: "component \<Rightarrow> nat" where
  "component_rank RootDir = 0"
| "component_rank CurDir = 1"
| "component_rank ParentDir = 2"
| "component_rank (Normal _) = 3"

fun component_name :: "component \<Rightarrow> ustring" where
  "component_name (Normal n) = n"
| "component_name _ = []"

lemma component_eqI: "component_rank a = component_rank b \<Longrightarrow> component_name a = component_name b \<Longrightarrow> a = b"
  by (cases a; cases b) auto

instantiation component :: linorder
begin

definition less_eq_component :: "component \<Rightarrow> component \<Rightarrow> bool" where
  "less_eq_component a b \<longleftrightarrow> component_rank a < component_rank b \<or>
     (component_rank a = component_rank b \<and> component_name a \<le> component_name b)"

definition less_component :: "component \<Rightarrow> component \<Rightarrow> bool" where
  "less_component a b \<longleftrightarrow> component_rank a < component_rank b \<or>
     (component_rank a = component_rank b \<and> component_name a < component_name b)"

instance
proof
  fix a b c :: component
  show "(a < b) = (a \<le> b \<and> \<not> b \<le> a)"
    by (auto simp: less_eq_component_def less_component_def)
  show "a \<le> a" by (simp add: less_eq_component_def)
  show "a \<le> b \<Longrightarrow> b \<le> c \<Longrightarrow> a \<le> c" by (auto simp: less_eq_component_def)
  show "a \<le> b \<Longrightarrow> b \<le> a \<Longrightarrow> a = b" by (auto simp: less_eq_component_def intro: component_eqI)
  show "a \<le> b \<or> b \<le> a" by (auto simp: less_eq_component_def)
qed

end

type_synonym path = "component list"

definition is_absolute :: "path \<Rightarrow> bool" where
  "is_absolute p \<longleftrightarrow> (case p of RootDir # _ \<Rightarrow> True | _ \<Rightarrow> False)"

text \<open>\<open>Path::join\<close>: an absolute path replaces, a relative one is appended, its leading \<open>.\<close> dropped.\<close>

definition path_join :: "path \<Rightarrow> path \<Rightarrow> path" where
  "path_join p q =
     (if is_absolute q then q else if p = [] then q else p @ filter (\<lambda>c. c \<noteq> CurDir) q)"

section \<open>Project roots\<close>

type_synonym project_root = path

definition ProjectRoot_try_new :: "path \<Rightarrow> project_root option" where
  "ProjectRoot_try_new root = (if is_absolute root then Some root else None)"

definition contains :: "project_root \<Rightarrow> path \<Rightarrow> bool" where
  "contains self dir \<longleftrightarrow> prefix self dir"

definition relative :: "project_root \<Rightarrow> path \<Rightarrow> path option" where
  "relative self dir = (if prefix self dir then Some (drop (length self) dir) else None)"

lemma contains_refl [simp]: "contains r r"
  by (simp add: contains_def)

lemma contains_trans: "contains a b \<Longrightarrow> contains b c \<Longrightarrow> contains a c"
  unfolding contains_def by (rule prefix_order.trans)

lemma contains_antisym: "contains a b \<Longrightarrow> contains b a \<Longrightarrow> a = b"
  unfolding contains_def by (rule prefix_order.antisym)

text \<open>Two folders that both hold a third one are nested in each other.\<close>

lemma contains_comparable: "contains a c \<Longrightarrow> contains b c \<Longrightarrow> contains a b \<or> contains b a"
  unfolding contains_def by (metis prefix_same_cases)

lemma relative_join:
  assumes "relative root dir = Some rel" "root \<noteq> []" "CurDir \<notin> set (tl dir)" "RootDir \<notin> set (tl dir)"
  shows "path_join root rel = dir"
proof -
  from assms(1) have d: "dir = root @ rel"
    by (auto simp: relative_def prefix_def split: if_splits)
  with assms(2-) have "CurDir \<notin> set rel" "RootDir \<notin> set rel"
    by (auto simp: neq_Nil_conv)
  moreover from this have "\<not> is_absolute rel"
    by (auto simp: is_absolute_def split: list.splits component.splits)
  ultimately show ?thesis
    using d assms(2) by (auto simp: path_join_def filter_id_conv)
qed

section \<open>A directory that stays under the root\<close>

fun stays_from :: "nat \<Rightarrow> path \<Rightarrow> bool" where
  "stays_from depth [] = True"
| "stays_from depth (Normal _ # cs) = stays_from (depth + 1) cs"
| "stays_from depth (CurDir # cs) = stays_from depth cs"
| "stays_from depth (ParentDir # cs) =
     (case depth of 0 \<Rightarrow> False | Suc depth' \<Rightarrow> stays_from depth' cs)"
| "stays_from depth (RootDir # cs) = False"

definition stays_under_root :: "path \<Rightarrow> bool" where
  "stays_under_root dir = stays_from 0 dir"

text \<open>
  What the check is for. Reading the components one by one from a folder, a name enters a
  subfolder, \<open>..\<close> goes up and a root directory starts over: the folder reached is
  \<open>walk from dir\<close>.
\<close>

fun walk :: "path \<Rightarrow> path \<Rightarrow> path" where
  "walk at [] = at"
| "walk at (Normal n # cs) = walk (at @ [Normal n]) cs"
| "walk at (CurDir # cs) = walk at cs"
| "walk at (ParentDir # cs) = walk (butlast at) cs"
| "walk at (RootDir # cs) = walk [RootDir] cs"

definition never_leaves :: "path \<Rightarrow> path \<Rightarrow> path \<Rightarrow> bool" where
  "never_leaves root at dir \<longleftrightarrow> (\<forall>pre. prefix pre dir \<longrightarrow> prefix root (walk at pre))"

lemma never_leaves_Nil [simp]: "never_leaves root at [] \<longleftrightarrow> prefix root at"
  by (simp add: never_leaves_def)

lemma never_leaves_start: "never_leaves root at dir \<Longrightarrow> prefix root at"
  by (auto simp: never_leaves_def dest: spec[of _ "[]"])

lemma never_leaves_Cons:
  "never_leaves root at (c # cs) \<longleftrightarrow> prefix root at \<and> never_leaves root (walk at [c]) cs"
proof -
  define at' where "at' = walk at [c]"
  have "walk at (c # pre) = walk at' pre" for pre
    by (cases c) (simp_all add: at'_def)
  then have "never_leaves root at (c # cs) \<longleftrightarrow> prefix root at \<and> never_leaves root at' cs"
    by (auto simp: never_leaves_def prefix_Cons)
  then show ?thesis by (simp only: at'_def)
qed

lemma butlast_not_prefix: "root \<noteq> [] \<Longrightarrow> \<not> prefix root (butlast root)"
  using prefix_length_le[of root "butlast root"] by (cases root) auto

lemma stays_from_iff:
  assumes "1 < length root"
  shows "stays_from (length ds) dir \<longleftrightarrow> never_leaves root (root @ ds) dir"
proof (induction "length ds" dir arbitrary: ds rule: stays_from.induct)
  case (2 n cs)
  have "stays_from (length (ds @ [Normal n])) cs \<longleftrightarrow> never_leaves root (root @ ds @ [Normal n]) cs"
    by (rule 2) simp
  then show ?case by (simp add: never_leaves_Cons)
next
  case (3 cs)
  then show ?case by (simp add: never_leaves_Cons)
next
  case (4 cs)
  show ?case
  proof (cases "ds = []")
    case True
    have "\<not> never_leaves root (butlast root) cs"
      using butlast_not_prefix[of root] assms never_leaves_start by fastforce
    with True show ?thesis by (simp add: never_leaves_Cons)
  next
    case False
    then have len: "length ds = Suc (length (butlast ds))" by simp
    have "stays_from (length (butlast ds)) cs \<longleftrightarrow> never_leaves root (root @ butlast ds) cs"
      by (rule 4[OF len])
    with False show ?thesis by (auto simp: never_leaves_Cons butlast_append split: nat.split)
  qed
next
  case (5 cs)
  have "\<not> prefix root [RootDir]"
    using assms by (auto dest!: prefix_length_le)
  then have "\<not> never_leaves root [RootDir] cs"
    by (blast dest: never_leaves_start)
  then show ?case by (simp add: never_leaves_Cons)
qed simp

section \<open>Properties\<close>

text \<open>C35. The directory check is exact: a declared directory passes \<^const>\<open>stays_under_root\<close> exactly
  when following it from the root, component by component, never leaves the root's folder, not
  even on the way to a folder that is back inside. The root has a name
  (the file system root itself has no parent to escape to).\<close>

theorem stays_under_root_exact:
  assumes "1 < length root"
  shows "stays_under_root dir \<longleftrightarrow> never_leaves root root dir"
  using stays_from_iff[OF assms, of "[]"] by (simp add: stays_under_root_def)

theorem stays_under_root_exact_witness:
  "never_leaves [RootDir, Normal (utf ''app'')] [RootDir, Normal (utf ''app'')]
     [Normal (utf ''web''), ParentDir, Normal (utf ''api'')] \<and>
   \<not> never_leaves [RootDir, Normal (utf ''app'')] [RootDir, Normal (utf ''app'')]
       [ParentDir, Normal (utf ''app'')]"
proof -
  have "1 < length [RootDir, Normal (utf ''app'')]"
    by simp
  note exact = stays_under_root_exact[OF this]
  have "stays_under_root [Normal (utf ''web''), ParentDir, Normal (utf ''api'')]"
    "\<not> stays_under_root [ParentDir, Normal (utf ''app'')]"
    by (simp_all add: stays_under_root_def)
  then show ?thesis
    by (simp add: exact)
qed

end
