(* ===== verification/Config.thy ===== *)
theory Config
  imports Process Paths
begin

text \<open>
  The configuration of a project, \<open>muster-domain/src/config\<close> with \<open>project.rs\<close> and
  \<open>process/entity.rs\<close>: declared ports, environments, process definitions with their drafts, changes
  and caps, the stack of a project and the plan of an import. The argument \<open>nfc\<close> is Unicode
  normalisation form C, which makes a process name its key.
\<close>

section \<open>Errors\<close>

datatype over_cap =
    Cap_Name nat
  | Cap_VarName ustring nat
  | Cap_VarValue ustring nat
  | Cap_Vars nat
  | Cap_Ports nat

datatype setting_key =
    DesktopNotifications | DefaultSize | Key_DetachKey | Key_LogMaxSize | Scrollback
  | Key_ColorScheme | DefaultAutostart | DefaultRestart | DefaultStopSignal | DefaultStopGrace
  | Key_McpStackEdits | Key_IdleStop

datatype config_error =
    CoordinationId ustring
  | Storage ustring
  | Busy ustring
  | CorruptRow ustring ustring
  | TooLarge ustring
  | UnsupportedSchema nat nat
  | UnknownProject path
  | UnknownProcess ustring "ustring list"
  | OverCap ustring over_cap
  | TooManyPorts nat
  | RepeatedPort local_port
  | TooManyProcesses nat
  | TooManyLocks
  | DuplicateProcessName ustring
  | ImportConflict "ustring list"
  | InvalidSetting setting_key ustring
  | InvalidDefaultSize size_error
  | RootNotADirectory path
  | RootNotUtf8 path
  | HoldsProject path ustring

definition is_busy :: "config_error \<Rightarrow> bool" where
  "is_busy self \<longleftrightarrow> (case self of Busy _ \<Rightarrow> True | _ \<Rightarrow> False)"

section \<open>Declared ports\<close>

definition DECLARED_PORTS_MAX :: nat where
  "DECLARED_PORTS_MAX = 16"

type_synonym declared_ports = "local_port list"

definition DeclaredPorts_of :: "local_port list \<Rightarrow> nat + declared_ports" where
  "DeclaredPorts_of ports =
     (let ports = bset_extend [] ports in
      if DECLARED_PORTS_MAX < length ports then Inl (length ports) else Inr ports)"

fun listed_from :: "local_port list \<Rightarrow> local_port list \<Rightarrow> config_error + declared_ports" where
  "listed_from seen [] = map_err TooManyPorts (DeclaredPorts_of seen)"
| "listed_from seen (port # ports) =
     (if port \<in> set seen then Inl (RepeatedPort port) else listed_from (insort_insert port seen) ports)"

definition DeclaredPorts_listed :: "local_port list \<Rightarrow> config_error + declared_ports" where
  "DeclaredPorts_listed ports = listed_from [] ports"

lemma listed_from_Inr_iff:
  assumes "btree_set seen"
  shows "listed_from seen ports = Inr d \<longleftrightarrow>
     distinct ports \<and> set ports \<inter> set seen = {} \<and> d = bset_extend seen ports \<and>
     length d \<le> DECLARED_PORTS_MAX"
  using assms
proof (induction seen ports rule: listed_from.induct)
  case (1 seen)
  then have "bset_extend [] seen = seen"
    by (intro btree_set_eqI) (simp_all add: btree_set_extend)
  then show ?case by (auto simp: DeclaredPorts_of_def Let_def)
next
  case (2 seen port ports)
  then show ?case by (auto simp: btree_set_insert set_insort_insert)
qed

section \<open>Environments\<close>

definition ENV_VARS_MAX :: nat where
  "ENV_VARS_MAX = 64"

type_synonym environment = "(ustring, ustring) bmap"

definition env_empty :: environment where
  "env_empty = []"

definition env_of :: "(ustring \<times> ustring) list \<Rightarrow> environment" where
  "env_of vars = bmap_extend [] vars"

definition with_var :: "environment \<Rightarrow> ustring \<Rightarrow> ustring \<Rightarrow> environment" where
  "with_var self name v = bmap_insert name v self"

definition env_changed :: "environment \<Rightarrow> (ustring \<times> ustring) list \<Rightarrow> ustring list \<Rightarrow> environment" where
  "env_changed self sets unsets = bmap_remove_all (bmap_extend self sets) unsets"

definition of_name :: "ustring \<Rightarrow> over_cap option" where
  "of_name name =
     (let found = char_count name in
      if PROCESS_NAME_MAX_CHARS < found then Some (Cap_Name found) else None)"

definition of_var :: "ustring \<Rightarrow> ustring \<Rightarrow> over_cap option" where
  "of_var name v =
     (if ENV_NAME_MAX_CHARS < length name then Some (Cap_VarName name (length name))
      else if ENV_VALUE_MAX_CHARS < length v then Some (Cap_VarValue name (length v))
      else None)"

definition of_var_count :: "nat \<Rightarrow> over_cap option" where
  "of_var_count count = (if ENV_VARS_MAX < count then Some (Cap_Vars count) else None)"

definition of_ports :: "declared_ports \<Rightarrow> over_cap option" where
  "of_ports ports =
     (if DECLARED_PORTS_MAX < length ports then Some (Cap_Ports (length ports)) else None)"

definition env_over_cap :: "environment \<Rightarrow> over_cap option" where
  "env_over_cap self =
     or_else (find_map (\<lambda>(name, v). of_var name v) self) (of_var_count (length self))"

lemma env_over_cap_None_iff:
  "env_over_cap env = None \<longleftrightarrow> (\<forall>(name, v) \<in> set env. of_var name v = None) \<and> length env \<le> ENV_VARS_MAX"
  by (auto simp: env_over_cap_def find_map_None_iff of_var_count_def)

lemma btree_map_env_changed: "btree_map env \<Longrightarrow> btree_map (env_changed env s u)"
  by (simp add: env_changed_def btree_map_extend btree_map_remove_all)

lemma map_of_env_changed:
  "btree_map env \<Longrightarrow>
   map_of (env_changed env s u) name =
     (if name \<in> set u then None
      else (case map_of (rev s) name of Some v \<Rightarrow> Some v | None \<Rightarrow> map_of env name))"
  by (simp add: env_changed_def map_of_bmap_remove_all map_of_bmap_extend map_add_def)

lemma set_env_changed: "set (env_changed env s u) \<subseteq> set env \<union> set s"
  using set_bmap_extend[of env s] by (auto simp: env_changed_def set_bmap_remove_all)

section \<open>Process definitions\<close>

datatype process_field =
    Field_Command | Field_WorkingDir | Field_Description | Field_Environment | Field_Autostart
  | Field_Restart | Field_StopSignal | Field_StopGrace | Field_Ready | Field_Ports

definition process_fields :: "process_field list" where
  "process_fields =
     [Field_Command, Field_WorkingDir, Field_Description, Field_Environment, Field_Autostart,
      Field_Restart, Field_StopSignal, Field_StopGrace, Field_Ready, Field_Ports]"

record process_spec =
  spec_name :: ustring
  spec_command :: ustring
  spec_working_dir :: "path option"
  spec_description :: "ustring option"
  spec_environment :: environment
  spec_autostart :: bool
  spec_restart :: restart_policy
  spec_stop :: stop_policy
  spec_ready :: "ready_check option"
  spec_ports :: declared_ports

definition launch_ports :: "declared_ports \<Rightarrow> ready_check option \<Rightarrow> local_port list" where
  "launch_ports declared ready =
     (case Option.bind ready (\<lambda>check. probe_port (probe check)) of
        None \<Rightarrow> declared
      | Some port \<Rightarrow> insort_insert port declared)"

datatype 'a field_edit = Keep | Set 'a | Clear

definition apply_edit :: "'a field_edit \<Rightarrow> 'a option \<Rightarrow> 'a option" where
  "apply_edit self current = (case self of Keep \<Rightarrow> current | Set v \<Rightarrow> Some v | Clear \<Rightarrow> None)"

definition is_keep :: "'a field_edit \<Rightarrow> bool" where
  "is_keep self \<longleftrightarrow> (case self of Keep \<Rightarrow> True | _ \<Rightarrow> False)"

record process_change =
  change_command :: "ustring option"
  change_working_dir :: "path field_edit"
  change_description :: "ustring field_edit"
  change_set_env :: "(ustring \<times> ustring) list"
  change_unset_env :: "ustring list"
  change_autostart :: "bool option"
  change_restart :: "restart_policy option"
  change_stop_signal :: "stop_signal option"
  change_stop_grace :: "duration option"
  change_ready :: "ready_check field_edit"
  change_ports :: "declared_ports option"

definition change_fields :: "process_change \<Rightarrow> process_field list" where
  "change_fields self =
     map snd (filter fst
       [(change_command self \<noteq> None, Field_Command),
        (\<not> is_keep (change_working_dir self), Field_WorkingDir),
        (\<not> is_keep (change_description self), Field_Description),
        (change_set_env self \<noteq> [] \<or> change_unset_env self \<noteq> [], Field_Environment),
        (change_autostart self \<noteq> None, Field_Autostart),
        (change_restart self \<noteq> None, Field_Restart),
        (change_stop_signal self \<noteq> None, Field_StopSignal),
        (change_stop_grace self \<noteq> None, Field_StopGrace),
        (\<not> is_keep (change_ready self), Field_Ready),
        (change_ports self \<noteq> None, Field_Ports)])"

definition change_is_empty :: "process_change \<Rightarrow> bool" where
  "change_is_empty self \<longleftrightarrow> change_fields self = []"

definition needs_restart :: "process_change \<Rightarrow> bool" where
  "needs_restart self \<longleftrightarrow>
     change_command self \<noteq> None \<or> \<not> is_keep (change_working_dir self) \<or> change_set_env self \<noteq> [] \<or>
     change_unset_env self \<noteq> [] \<or> change_stop_signal self \<noteq> None \<or> change_stop_grace self \<noteq> None \<or>
     \<not> is_keep (change_ready self)"

definition with_change :: "process_spec \<Rightarrow> process_change \<Rightarrow> config_error + process_spec" where
  "with_change self change =
     (case find_map (\<lambda>(name, v). of_var name v) (change_set_env change) of
        Some refused \<Rightarrow> Inl (OverCap (spec_name self) refused)
      | None \<Rightarrow>
          (let before = length (spec_environment self);
               environment = env_changed (spec_environment self) (change_set_env change)
                               (change_unset_env change);
               after = length environment
           in case (if before < after then of_var_count after else None) of
                Some refused \<Rightarrow> Inl (OverCap (spec_name self) refused)
              | None \<Rightarrow>
                  Inr \<lparr>spec_name = spec_name self,
                       spec_command = unwrap_or (change_command change) (spec_command self),
                       spec_working_dir = apply_edit (change_working_dir change) (spec_working_dir self),
                       spec_description = apply_edit (change_description change) (spec_description self),
                       spec_environment = environment,
                       spec_autostart = unwrap_or (change_autostart change) (spec_autostart self),
                       spec_restart = unwrap_or (change_restart change) (spec_restart self),
                       spec_stop = \<lparr>signal = unwrap_or (change_stop_signal change) (signal (spec_stop self)),
                                    grace_period = unwrap_or (change_stop_grace change)
                                                     (grace_period (spec_stop self))\<rparr>,
                       spec_ready = apply_edit (change_ready change) (spec_ready self),
                       spec_ports = unwrap_or (change_ports change) (spec_ports self)\<rparr>))"

fun field_differs :: "process_spec \<Rightarrow> process_spec \<Rightarrow> process_field \<Rightarrow> bool" where
  "field_differs self after Field_Command = (spec_command self \<noteq> spec_command after)"
| "field_differs self after Field_WorkingDir = (spec_working_dir self \<noteq> spec_working_dir after)"
| "field_differs self after Field_Description = (spec_description self \<noteq> spec_description after)"
| "field_differs self after Field_Environment = (spec_environment self \<noteq> spec_environment after)"
| "field_differs self after Field_Autostart = (spec_autostart self \<noteq> spec_autostart after)"
| "field_differs self after Field_Restart = (spec_restart self \<noteq> spec_restart after)"
| "field_differs self after Field_StopSignal = (signal (spec_stop self) \<noteq> signal (spec_stop after))"
| "field_differs self after Field_StopGrace =
     (grace_period (spec_stop self) \<noteq> grace_period (spec_stop after))"
| "field_differs self after Field_Ready = (spec_ready self \<noteq> spec_ready after)"
| "field_differs self after Field_Ports = (spec_ports self \<noteq> spec_ports after)"

definition differing_fields :: "process_spec \<Rightarrow> process_spec \<Rightarrow> process_field list" where
  "differing_fields self after = filter (field_differs self after) process_fields"

record unconfined_dir =
  unconfined_name :: ustring
  unconfined_path :: path

definition unconfined_dir_of :: "process_spec \<Rightarrow> unconfined_dir option" where
  "unconfined_dir_of self =
     (case spec_working_dir self of
        None \<Rightarrow> None
      | Some dir \<Rightarrow>
          (let confined = dir \<noteq> [] \<and> (is_absolute dir \<or> stays_under_root dir)
           in if \<not> confined then Some \<lparr>unconfined_name = spec_name self, unconfined_path = dir\<rparr>
              else None))"

definition launch_dir :: "process_spec \<Rightarrow> project_root \<Rightarrow> unconfined_dir + path" where
  "launch_dir self root =
     (case unconfined_dir_of self of
        Some unconfined \<Rightarrow> Inl unconfined
      | None \<Rightarrow>
          Inr (case spec_working_dir self of Some dir \<Rightarrow> path_join root dir | None \<Rightarrow> root))"

definition spec_over_cap :: "process_spec \<Rightarrow> over_cap option" where
  "spec_over_cap self =
     or_else (of_name (spec_name self))
       (or_else (env_over_cap (spec_environment self)) (of_ports (spec_ports self)))"

definition check_caps :: "process_spec \<Rightarrow> config_error + unit" where
  "check_caps self =
     (case spec_over_cap self of Some over \<Rightarrow> Inl (OverCap (spec_name self) over) | None \<Rightarrow> Inr ())"

datatype stored_problem = Problem_UnconfinedDir unconfined_dir | Problem_OverCap ustring over_cap

definition spec_stored_problem :: "process_spec \<Rightarrow> stored_problem option" where
  "spec_stored_problem self =
     or_else (map_option Problem_UnconfinedDir (unconfined_dir_of self))
       (map_option (Problem_OverCap (spec_name self)) (spec_over_cap self))"

section \<open>Processes and drafts\<close>

type_synonym pane_id = nat

record process =
  proc_id :: pane_id
  proc_name :: ustring
  proc_command :: ustring
  proc_working_dir :: "path option"
  proc_description :: "ustring option"
  proc_environment :: environment
  proc_state :: process_state
  proc_restart :: restart_policy
  proc_stop :: stop_policy
  proc_autostart :: bool
  proc_ready :: "ready_check option"
  proc_ports :: declared_ports

definition to_process :: "process_spec \<Rightarrow> pane_id \<Rightarrow> process" where
  "to_process self pane =
     \<lparr>proc_id = pane, proc_name = spec_name self, proc_command = spec_command self,
      proc_working_dir = spec_working_dir self, proc_description = spec_description self,
      proc_environment = spec_environment self, proc_state = Pending,
      proc_restart = spec_restart self, proc_stop = spec_stop self,
      proc_autostart = spec_autostart self, proc_ready = spec_ready self,
      proc_ports = spec_ports self\<rparr>"

definition set_state :: "process \<Rightarrow> process_state \<Rightarrow> process" where
  "set_state self state = self\<lparr>proc_state := state\<rparr>"

definition set_spec :: "process \<Rightarrow> process_spec \<Rightarrow> process" where
  "set_spec self spec =
     self\<lparr>proc_name := spec_name spec, proc_command := spec_command spec,
          proc_working_dir := spec_working_dir spec, proc_description := spec_description spec,
          proc_environment := spec_environment spec, proc_restart := spec_restart spec,
          proc_stop := spec_stop spec, proc_autostart := spec_autostart spec,
          proc_ready := spec_ready spec, proc_ports := spec_ports spec\<rparr>"

definition process_launch_ports :: "process \<Rightarrow> local_port list" where
  "process_launch_ports self = launch_ports (proc_ports self) (proc_ready self)"

definition proc_spec :: "process \<Rightarrow> process_spec" where
  "proc_spec self =
     \<lparr>spec_name = proc_name self, spec_command = proc_command self,
      spec_working_dir = proc_working_dir self, spec_description = proc_description self,
      spec_environment = proc_environment self, spec_autostart = proc_autostart self,
      spec_restart = proc_restart self, spec_stop = proc_stop self, spec_ready = proc_ready self,
      spec_ports = proc_ports self\<rparr>"

record process_defaults =
  default_autostart :: bool
  default_restart :: restart_policy
  default_stop :: stop_policy

record process_draft =
  draft_name :: ustring
  draft_command :: ustring
  draft_working_dir :: "path option"
  draft_description :: "ustring option"
  draft_environment :: environment
  draft_autostart :: "bool option"
  draft_restart :: "restart_policy option"
  draft_stop_signal :: "stop_signal option"
  draft_stop_grace :: "duration option"
  draft_ready :: "ready_check option"
  draft_ports :: declared_ports

definition complete :: "process_draft \<Rightarrow> process_defaults \<Rightarrow> process_spec" where
  "complete self defaults =
     \<lparr>spec_name = draft_name self, spec_command = draft_command self,
      spec_working_dir = draft_working_dir self, spec_description = draft_description self,
      spec_environment = draft_environment self,
      spec_autostart = unwrap_or (draft_autostart self) (default_autostart defaults),
      spec_restart = unwrap_or (draft_restart self) (default_restart defaults),
      spec_stop = \<lparr>signal = unwrap_or (draft_stop_signal self) (signal (default_stop defaults)),
                   grace_period = unwrap_or (draft_stop_grace self)
                                    (grace_period (default_stop defaults))\<rparr>,
      spec_ready = draft_ready self, spec_ports = draft_ports self\<rparr>"

section \<open>Stacks\<close>

record project =
  project_root :: project_root
  project_name :: ustring
  project_idle_stop :: "idle_stop option"

definition idle_stop_or :: "project \<Rightarrow> idle_stop \<Rightarrow> idle_stop" where
  "idle_stop_or self setting = unwrap_or (project_idle_stop self) setting"

definition PROCESSES_MAX :: nat where
  "PROCESSES_MAX = 100"

record stack =
  stack_project :: project
  stack_processes :: "process_spec list"

definition spec_key :: "(ustring \<Rightarrow> ustring) \<Rightarrow> process_spec \<Rightarrow> ustring" where
  "spec_key nfc spec = name_key nfc (spec_name spec)"

definition stack_process :: "(ustring \<Rightarrow> ustring) \<Rightarrow> stack \<Rightarrow> ustring \<Rightarrow> process_spec option" where
  "stack_process nfc self name =
     (let key = name_key nfc name in find (\<lambda>spec. spec_key nfc spec = key) (stack_processes self))"

definition stack_names :: "stack \<Rightarrow> ustring list" where
  "stack_names self = map spec_name (stack_processes self)"

definition require :: "(ustring \<Rightarrow> ustring) \<Rightarrow> stack \<Rightarrow> ustring \<Rightarrow> config_error + process_spec" where
  "require nfc self name = ok_or (stack_process nfc self name) (UnknownProcess name (stack_names self))"

definition autostarts_any :: "stack \<Rightarrow> bool" where
  "autostarts_any self \<longleftrightarrow> list_ex spec_autostart (stack_processes self)"

fun first_duplicate :: "(ustring \<Rightarrow> ustring) \<Rightarrow> ustring set \<Rightarrow> process_spec list \<Rightarrow> process_spec option" where
  "first_duplicate nfc seen [] = None"
| "first_duplicate nfc seen (spec # specs) =
     (if spec_key nfc spec \<in> seen then Some spec
      else first_duplicate nfc (insert (spec_key nfc spec) seen) specs)"

definition check_unique :: "(ustring \<Rightarrow> ustring) \<Rightarrow> process_spec list \<Rightarrow> config_error + unit" where
  "check_unique nfc processes =
     (case first_duplicate nfc {} processes of
        Some duplicate \<Rightarrow> Inl (DuplicateProcessName (spec_name duplicate))
      | None \<Rightarrow> Inr ())"

definition check_count :: "nat \<Rightarrow> config_error + unit" where
  "check_count count = (if PROCESSES_MAX < count then Inl (TooManyProcesses count) else Inr ())"

datatype import_mode = Strict | Merge | Replace

record import_plan =
  added :: "ustring list"
  updated :: "ustring list"
  removed :: "ustring list"

definition names_of :: "process_spec list \<Rightarrow> ustring list" where
  "names_of specs = map spec_name specs"

fun check_all_caps :: "process_spec list \<Rightarrow> config_error + unit" where
  "check_all_caps [] = Inr ()"
| "check_all_caps (spec # specs) = and_then (check_caps spec) (\<lambda>_. check_all_caps specs)"

definition plan_import ::
    "(ustring \<Rightarrow> ustring) \<Rightarrow> stack \<Rightarrow> process_spec list \<Rightarrow> import_mode \<Rightarrow> config_error + import_plan" where
  "plan_import nfc self incoming mode =
     and_then (check_unique nfc incoming) (\<lambda>_.
     (let (existing, adding) = partition (\<lambda>spec. stack_process nfc self (spec_name spec) \<noteq> None) incoming
      in if mode = Strict \<and> existing \<noteq> [] then Inl (ImportConflict (names_of existing))
         else
           (let updating = filter (\<lambda>spec. stack_process nfc self (spec_name spec) \<noteq> Some spec) existing;
                removing =
                  (case mode of
                     Replace \<Rightarrow>
                       (let kept = set (map (spec_key nfc) incoming)
                        in map spec_name (filter (\<lambda>spec. spec_key nfc spec \<notin> kept) (stack_processes self)))
                   | Strict \<Rightarrow> []
                   | Merge \<Rightarrow> [])
            in and_then (check_count (length (stack_processes self) + length adding - length removing)) (\<lambda>_.
               and_then (check_all_caps (adding @ updating)) (\<lambda>_.
               Inr \<lparr>added = names_of adding, updated = names_of updating, removed = removing\<rparr>)))))"

subsection \<open>Lookups and uniqueness\<close>

definition unique_keys :: "(ustring \<Rightarrow> ustring) \<Rightarrow> process_spec list \<Rightarrow> bool" where
  "unique_keys nfc specs \<longleftrightarrow> distinct (map (spec_key nfc) specs)"

lemma first_duplicate_None_iff:
  "first_duplicate nfc seen specs = None \<longleftrightarrow>
     unique_keys nfc specs \<and> spec_key nfc ` set specs \<inter> seen = {}"
  by (induction nfc seen specs rule: first_duplicate.induct) (auto simp: unique_keys_def)

lemma check_unique_Inr_iff: "check_unique nfc specs = Inr u \<longleftrightarrow> unique_keys nfc specs"
  using first_duplicate_None_iff[of nfc "{}" specs] by (auto simp: check_unique_def split: option.splits)

lemma first_duplicate_Some:
  "first_duplicate nfc seen specs = Some d \<Longrightarrow>
     \<exists>before rest. specs = before @ d # rest \<and> unique_keys nfc before \<and>
       spec_key nfc d \<in> seen \<union> spec_key nfc ` set before \<and> spec_key nfc ` set before \<inter> seen = {}"
proof (induction nfc seen specs rule: first_duplicate.induct)
  case (2 nfc seen spec specs)
  show ?case
  proof (cases "spec_key nfc spec \<in> seen")
    case True
    with 2(2) show ?thesis by (intro exI[of _ "[]"] exI[of _ specs]) (simp add: unique_keys_def)
  next
    case False
    with 2 obtain before rest where
      "specs = before @ d # rest" "unique_keys nfc before"
      "spec_key nfc d \<in> insert (spec_key nfc spec) seen \<union> spec_key nfc ` set before"
      "spec_key nfc ` set before \<inter> insert (spec_key nfc spec) seen = {}"
      by auto
    with False show ?thesis
      by (intro exI[of _ "spec # before"] exI[of _ rest]) (auto simp: unique_keys_def)
  qed
qed simp

lemma stack_process_None_iff:
  "stack_process nfc st name = None \<longleftrightarrow> nfc name \<notin> spec_key nfc ` set (stack_processes st)"
  by (force simp: stack_process_def name_key_def find_None_iff_all)

lemma stack_process_SomeD:
  "stack_process nfc st name = Some spec \<Longrightarrow> spec \<in> set (stack_processes st) \<and> spec_key nfc spec = nfc name"
  by (auto simp: stack_process_def name_key_def dest: find_SomeD)

lemma find_unique_key:
  "unique_keys nfc specs \<Longrightarrow> spec \<in> set specs \<Longrightarrow>
   find (\<lambda>s. spec_key nfc s = spec_key nfc spec) specs = Some spec"
  by (induction specs) (auto simp: unique_keys_def)

lemma stack_process_unique:
  assumes "unique_keys nfc (stack_processes st)" "spec \<in> set (stack_processes st)"
  shows "stack_process nfc st (spec_name spec) = Some spec"
  using find_unique_key[OF assms] by (simp add: stack_process_def spec_key_def)

lemma check_all_caps_Inr_iff: "check_all_caps specs = Inr u \<longleftrightarrow> (\<forall>spec \<in> set specs. spec_over_cap spec = None)"
  by (induction specs) (auto simp: and_then_Inr_iff check_caps_def split: option.splits)

lemma check_count_Inr_iff: "check_count n = Inr u \<longleftrightarrow> n \<le> PROCESSES_MAX"
  by (auto simp: check_count_def)

subsection \<open>Changes\<close>

lemma spec_over_cap_None_iff:
  "spec_over_cap spec = None \<longleftrightarrow>
     length (spec_name spec) \<le> PROCESS_NAME_MAX_CHARS \<and> env_over_cap (spec_environment spec) = None \<and>
     length (spec_ports spec) \<le> DECLARED_PORTS_MAX"
  by (auto simp: spec_over_cap_def of_name_def of_ports_def char_count_def Let_def)

lemma with_change_Inr_iff:
  "with_change self change = Inr spec \<longleftrightarrow>
     (\<forall>(name, v) \<in> set (change_set_env change). of_var name v = None) \<and>
     (let env = env_changed (spec_environment self) (change_set_env change) (change_unset_env change)
      in (length (spec_environment self) < length env \<longrightarrow> length env \<le> ENV_VARS_MAX) \<and>
         spec = \<lparr>spec_name = spec_name self,
                 spec_command = unwrap_or (change_command change) (spec_command self),
                 spec_working_dir = apply_edit (change_working_dir change) (spec_working_dir self),
                 spec_description = apply_edit (change_description change) (spec_description self),
                 spec_environment = env,
                 spec_autostart = unwrap_or (change_autostart change) (spec_autostart self),
                 spec_restart = unwrap_or (change_restart change) (spec_restart self),
                 spec_stop = \<lparr>signal = unwrap_or (change_stop_signal change) (signal (spec_stop self)),
                              grace_period = unwrap_or (change_stop_grace change)
                                               (grace_period (spec_stop self))\<rparr>,
                 spec_ready = apply_edit (change_ready change) (spec_ready self),
                 spec_ports = unwrap_or (change_ports change) (spec_ports self)\<rparr>)"
proof (cases "find_map (\<lambda>(name, v). of_var name v) (change_set_env change)")
  case None
  then have "\<forall>(name, v) \<in> set (change_set_env change). of_var name v = None"
    by (auto simp: find_map_None_iff)
  then show ?thesis
    by (auto simp: with_change_def None Let_def of_var_count_def split: option.splits if_splits)
next
  case (Some refused)
  then have "\<not> (\<forall>(name, v) \<in> set (change_set_env change). of_var name v = None)"
    by (force dest!: find_map_SomeD)
  then show ?thesis by (simp add: with_change_def Some)
qed

lemma env_changed_empty: "env_changed env [] [] = env"
  by (simp add: env_changed_def)

lemma apply_edit_keep: "is_keep e \<Longrightarrow> apply_edit e x = x"
  by (cases e) (simp_all add: is_keep_def apply_edit_def)

lemma in_change_fields:
  "Field_Command \<in> set (change_fields c) \<longleftrightarrow> change_command c \<noteq> None"
  "Field_WorkingDir \<in> set (change_fields c) \<longleftrightarrow> \<not> is_keep (change_working_dir c)"
  "Field_Description \<in> set (change_fields c) \<longleftrightarrow> \<not> is_keep (change_description c)"
  "Field_Environment \<in> set (change_fields c) \<longleftrightarrow> change_set_env c \<noteq> [] \<or> change_unset_env c \<noteq> []"
  "Field_Autostart \<in> set (change_fields c) \<longleftrightarrow> change_autostart c \<noteq> None"
  "Field_Restart \<in> set (change_fields c) \<longleftrightarrow> change_restart c \<noteq> None"
  "Field_StopSignal \<in> set (change_fields c) \<longleftrightarrow> change_stop_signal c \<noteq> None"
  "Field_StopGrace \<in> set (change_fields c) \<longleftrightarrow> change_stop_grace c \<noteq> None"
  "Field_Ready \<in> set (change_fields c) \<longleftrightarrow> \<not> is_keep (change_ready c)"
  "Field_Ports \<in> set (change_fields c) \<longleftrightarrow> change_ports c \<noteq> None"
  by (auto simp: change_fields_def)

lemma in_process_fields [simp]: "f \<in> set process_fields"
  by (cases f) (simp_all add: process_fields_def)

lemma unchanged_field:
  assumes "with_change self change = Inr spec" and "f \<notin> set (change_fields change)"
  shows "\<not> field_differs self spec f"
  using assms
  by (cases f)
    (auto simp: with_change_Inr_iff Let_def in_change_fields apply_edit_keep env_changed_empty)

lemma no_field_differs_eq:
  assumes "\<forall>f. \<not> field_differs self spec f" and "spec_name spec = spec_name self"
  shows "spec = self"
proof -
  have stop: "spec_stop self = spec_stop spec"
    using assms(1)[rule_format, of Field_StopSignal] assms(1)[rule_format, of Field_StopGrace]
    by (simp add: stop_policy.equality)
  show ?thesis
    using assms(2) stop assms(1)[rule_format, of Field_Command]
      assms(1)[rule_format, of Field_WorkingDir] assms(1)[rule_format, of Field_Description]
      assms(1)[rule_format, of Field_Environment] assms(1)[rule_format, of Field_Autostart]
      assms(1)[rule_format, of Field_Restart] assms(1)[rule_format, of Field_Ready]
      assms(1)[rule_format, of Field_Ports]
    by (simp add: process_spec.equality)
qed

section \<open>Properties\<close>

definition web_spec :: process_spec where
  "web_spec =
     \<lparr>spec_name = utf ''web'', spec_command = utf ''npm start'', spec_working_dir = None,
      spec_description = None, spec_environment = [(utf ''HOST'', utf ''localhost'')],
      spec_autostart = True, spec_restart = OnFailure,
      spec_stop = \<lparr>signal = Terminate, grace_period = from_secs 5\<rparr>,
      spec_ready = Some \<lparr>probe = Probe_Port 8080, timeout = from_secs 30\<rparr>, spec_ports = [3000, 9000]\<rparr>"

definition no_change :: process_change where
  "no_change =
     \<lparr>change_command = None, change_working_dir = Keep, change_description = Keep, change_set_env = [],
      change_unset_env = [], change_autostart = None, change_restart = None,
      change_stop_signal = None, change_stop_grace = None, change_ready = Keep, change_ports = None\<rparr>"

lemma change_is_empty_fields: "change_is_empty change \<Longrightarrow> f \<notin> set (change_fields change)"
  by (simp add: change_is_empty_def)

lemma in_differing_fields [simp]: "f \<in> set (differing_fields self spec) \<longleftrightarrow> field_differs self spec f"
  by (simp add: differing_fields_def)

lemma with_change_name: "with_change self change = Inr spec \<Longrightarrow> spec_name spec = spec_name self"
  by (auto simp: with_change_Inr_iff Let_def)

text \<open>C30. A change edits nothing it does not name: when \<^const>\<open>with_change\<close> accepts a change, the
  process keeps its name, every field on which the result differs is one of
  the change's fields, and a change with no field at all leaves the spec as it was.\<close>

theorem with_change_edits_only_its_fields:
  assumes "with_change self change = Inr spec"
  shows "spec_name spec = spec_name self \<and>
    set (differing_fields self spec) \<subseteq> set (change_fields change) \<and>
    (change_is_empty change \<longrightarrow> spec = self)"
proof (intro conjI impI)
  show "spec_name spec = spec_name self"
    using assms by (rule with_change_name)
  show "set (differing_fields self spec) \<subseteq> set (change_fields change)"
    using unchanged_field[OF assms] by (meson in_differing_fields subsetI)
  show "spec = self" if "change_is_empty change"
    using no_field_differs_eq[OF _ with_change_name[OF assms]]
      unchanged_field[OF assms change_is_empty_fields[OF that]] by blast
qed

theorem with_change_edits_only_its_fields_witness:
  "with_change web_spec (no_change\<lparr>change_autostart := Some False\<rparr>) = Inr (web_spec\<lparr>spec_autostart := False\<rparr>) \<and>
   differing_fields web_spec (web_spec\<lparr>spec_autostart := False\<rparr>) = [Field_Autostart] \<and>
   set (differing_fields web_spec (web_spec\<lparr>spec_autostart := False\<rparr>)) \<subseteq>
     set (change_fields (no_change\<lparr>change_autostart := Some False\<rparr>))"
proof -
  have accepted: "with_change web_spec (no_change\<lparr>change_autostart := Some False\<rparr>) =
      Inr (web_spec\<lparr>spec_autostart := False\<rparr>)"
    by (simp add: with_change_Inr_iff web_spec_def no_change_def env_changed_empty apply_edit_def Let_def)
  moreover have "differing_fields web_spec (web_spec\<lparr>spec_autostart := False\<rparr>) = [Field_Autostart]"
    by (simp add: differing_fields_def process_fields_def web_spec_def)
  ultimately show ?thesis
    using with_change_edits_only_its_fields[OF accepted] by simp
qed

text \<open>C31. Environment edits: after an accepted change, a variable the change unsets is gone (even
  one it also sets), a variable it sets has the last value the change gives
  it, and every other variable keeps its value.\<close>

theorem with_change_environment:
  assumes "btree_map (spec_environment self)" and "with_change self change = Inr spec"
  shows "btree_map (spec_environment spec) \<and>
    map_of (spec_environment spec) name =
      (if name \<in> set (change_unset_env change) then None
       else (case map_of (rev (change_set_env change)) name of
               Some v \<Rightarrow> Some v
             | None \<Rightarrow> map_of (spec_environment self) name))"
proof -
  have "spec_environment spec =
      env_changed (spec_environment self) (change_set_env change) (change_unset_env change)"
    using assms(2) by (auto simp: with_change_Inr_iff Let_def)
  then show ?thesis
    using assms(1) by (simp add: btree_map_env_changed map_of_env_changed)
qed

definition env_change :: process_change where
  "env_change = no_change\<lparr>change_set_env := [(utf ''PORT'', utf ''80''), (utf ''PORT'', utf ''81'')],
                          change_unset_env := [utf ''HOST'']\<rparr>"

theorem with_change_environment_witness:
  "\<exists>spec. with_change web_spec env_change = Inr spec \<and>
     map_of (spec_environment spec) (utf ''PORT'') = Some (utf ''81'') \<and>
     map_of (spec_environment spec) (utf ''HOST'') = None"
proof -
  have sorted: "btree_map (spec_environment web_spec)"
    by (simp add: web_spec_def btree_map_def)
  obtain spec where accepted: "with_change web_spec env_change = Inr spec"
    by (simp add: with_change_def env_change_def no_change_def web_spec_def env_changed_def of_var_def
        of_var_count_def ENV_NAME_MAX_CHARS_def ENV_VALUE_MAX_CHARS_def ENV_VARS_MAX_def
        bmap_remove_def utf_def Let_def)
  show ?thesis
    using with_change_environment[OF sorted accepted, of "utf ''PORT''"]
      with_change_environment[OF sorted accepted, of "utf ''HOST''"] accepted
    by (simp add: env_change_def no_change_def utf_def)
qed

text \<open>C32. Caps: an accepted change of a spec within its caps gives a spec within its caps, provided
  the change's own ports are (\<^const>\<open>DeclaredPorts_of\<close> refuses longer lists), and a
  change that sets no variable is never refused, however far over its caps the stored spec already is.\<close>

theorem with_change_caps:
  assumes "\<forall>ports. change_ports change = Some ports \<longrightarrow> length ports \<le> DECLARED_PORTS_MAX"
  shows "(spec_over_cap self = None \<longrightarrow> with_change self change = Inr spec \<longrightarrow> spec_over_cap spec = None) \<and>
    (change_set_env change = [] \<longrightarrow> (\<exists>spec'. with_change self change = Inr spec'))"
proof (intro conjI impI)
  assume within: "spec_over_cap self = None" and accepted: "with_change self change = Inr spec"
  have vars: "\<forall>(name, v) \<in> set (spec_environment self). of_var name v = None"
    and count: "length (spec_environment self) \<le> ENV_VARS_MAX"
    and own: "length (spec_name self) \<le> PROCESS_NAME_MAX_CHARS" "length (spec_ports self) \<le> DECLARED_PORTS_MAX"
    using within by (auto simp: spec_over_cap_None_iff env_over_cap_None_iff)
  let ?env = "env_changed (spec_environment self) (change_set_env change) (change_unset_env change)"
  have spec: "spec_environment spec = ?env" "spec_name spec = spec_name self"
      "spec_ports spec = unwrap_or (change_ports change) (spec_ports self)"
    and sets: "\<forall>(name, v) \<in> set (change_set_env change). of_var name v = None"
    and grows: "length (spec_environment self) < length ?env \<longrightarrow> length ?env \<le> ENV_VARS_MAX"
    using accepted by (auto simp: with_change_Inr_iff Let_def)
  have "\<forall>(name, v) \<in> set ?env. of_var name v = None"
    using set_env_changed[of "spec_environment self" "change_set_env change" "change_unset_env change"]
      vars sets by blast
  moreover have "length ?env \<le> ENV_VARS_MAX"
    using grows count by linarith
  moreover have "length (spec_ports spec) \<le> DECLARED_PORTS_MAX"
    using spec(3) own assms by (cases "change_ports change") auto
  ultimately show "spec_over_cap spec = None"
    using spec own by (simp add: spec_over_cap_None_iff env_over_cap_None_iff)
next
  assume none_set: "change_set_env change = []"
  have "length (env_changed (spec_environment self) [] (change_unset_env change)) \<le> length (spec_environment self)"
    by (simp add: env_changed_def length_bmap_remove_all)
  then show "\<exists>spec'. with_change self change = Inr spec'"
    by (auto simp: with_change_Inr_iff none_set Let_def)
qed

lemma web_spec_within: "spec_over_cap web_spec = None"
  by (simp add: spec_over_cap_None_iff env_over_cap_None_iff web_spec_def of_var_def utf_def
      PROCESS_NAME_MAX_CHARS_def DECLARED_PORTS_MAX_def ENV_VARS_MAX_def ENV_NAME_MAX_CHARS_def
      ENV_VALUE_MAX_CHARS_def)

theorem with_change_caps_witness:
  "spec_over_cap web_spec = None \<and>
   (\<exists>spec. with_change web_spec (no_change\<lparr>change_ports := Some [81]\<rparr>) = Inr spec \<and> spec_over_cap spec = None)"
proof -
  let ?change = "no_change\<lparr>change_ports := Some [81]\<rparr>"
  have ports: "\<forall>ports. change_ports ?change = Some ports \<longrightarrow> length ports \<le> DECLARED_PORTS_MAX"
    by (simp add: DECLARED_PORTS_MAX_def)
  obtain spec where "with_change web_spec ?change = Inr spec"
    using with_change_caps[OF ports, of web_spec] by (auto simp: no_change_def)
  then show ?thesis
    using with_change_caps[OF ports, of web_spec spec] web_spec_within by auto
qed

end
