(* ===== verification/Application.thy ===== *)
theory Application
  imports Config
begin

text \<open>
  The running panes of a project, \<open>muster-application/src/workspace.rs\<close>, and how a stored stack is
  applied to them, \<open>muster-application/src/stack_sync.rs\<close>. A workspace is the list of its processes;
  the state of the running ones is kept, so a stack edit never touches a process that still runs.
\<close>

section \<open>Workspaces\<close>

type_synonym workspace = "process list"

definition workspace_is_empty :: "workspace \<Rightarrow> bool" where
  "workspace_is_empty self \<longleftrightarrow> self = []"

definition workspace_push :: "workspace \<Rightarrow> process \<Rightarrow> workspace" where
  "workspace_push self process = self @ [process]"

definition position_of :: "workspace \<Rightarrow> pane_id \<Rightarrow> nat option" where
  "position_of self pane = position (\<lambda>process. proc_id process = pane) self"

definition workspace_remove :: "workspace \<Rightarrow> pane_id \<Rightarrow> workspace" where
  "workspace_remove self pane =
     (case position_of self pane of
        Some index \<Rightarrow> take index self @ drop (Suc index) self
      | None \<Rightarrow> self)"

definition workspace_process :: "workspace \<Rightarrow> pane_id \<Rightarrow> process option" where
  "workspace_process self pane = map_option (nth self) (position_of self pane)"

definition workspace_set_state :: "workspace \<Rightarrow> pane_id \<Rightarrow> process_state \<Rightarrow> workspace" where
  "workspace_set_state self pane state =
     (case position_of self pane of
        Some index \<Rightarrow> self[index := set_state (self ! index) state]
      | None \<Rightarrow> self)"

definition workspace_should_restart :: "workspace \<Rightarrow> pane_id \<Rightarrow> exit_outcome \<Rightarrow> bool" where
  "workspace_should_restart self pane outcome =
     unwrap_or (map_option (\<lambda>process. should_restart (proc_restart process) outcome)
                  (workspace_process self pane)) False"

lemma workspace_process_find: "workspace_process ws pane = find (\<lambda>p. proc_id p = pane) ws"
  by (simp add: workspace_process_def position_of_def position_find)

lemma workspace_process_Some_iff:
  assumes "distinct (map proc_id ws)"
  shows "workspace_process ws pane = Some p \<longleftrightarrow> p \<in> set ws \<and> proc_id p = pane"
  using assms by (induction ws) (auto simp: workspace_process_find)

lemma ids_set_state [simp]: "map proc_id (workspace_set_state ws pane state) = map proc_id ws"
proof (cases "position_of ws pane")
  case (Some i)
  then have "i < length ws" by (auto simp: position_of_def dest: position_SomeD)
  then show ?thesis
    by (simp add: workspace_set_state_def Some set_state_def map_update list_update_same_conv)
qed (simp add: workspace_set_state_def)

lemma workspace_process_set_state:
  "workspace_process (workspace_set_state ws pane state) q =
     (if q = pane then map_option (\<lambda>p. set_state p state) (workspace_process ws pane)
      else workspace_process ws q)"
proof (induction ws)
  case Nil
  then show ?case by (simp add: workspace_process_find workspace_set_state_def position_of_def)
next
  case (Cons p ws)
  show ?case
  proof (cases "proc_id p = pane")
    case True
    then show ?thesis
      by (simp add: workspace_process_find workspace_set_state_def position_of_def set_state_def)
  next
    case False
    then have "workspace_set_state (p # ws) pane state = p # workspace_set_state ws pane state"
      by (simp add: workspace_set_state_def position_of_def split: option.splits)
    with Cons False show ?thesis by (cases "proc_id p = q") (simp_all add: workspace_process_find)
  qed
qed

lemma workspace_remove_filter:
  assumes "distinct (map proc_id ws)"
  shows "workspace_remove ws pane = filter (\<lambda>p. proc_id p \<noteq> pane) ws"
  using assms
proof (induction ws)
  case Nil
  then show ?case by (simp add: workspace_remove_def position_of_def)
next
  case (Cons p ws)
  show ?case
  proof (cases "proc_id p = pane")
    case True
    with Cons.prems have "filter (\<lambda>p. proc_id p \<noteq> pane) ws = ws"
      by (auto simp: filter_id_conv image_iff)
    with True show ?thesis by (simp add: workspace_remove_def position_of_def)
  next
    case False
    then have "workspace_remove (p # ws) pane = p # workspace_remove ws pane"
      by (simp add: workspace_remove_def position_of_def split: option.splits)
    with Cons False show ?thesis by simp
  qed
qed

section \<open>Applying a stored stack\<close>

record stack_sync =
  sync_workspace :: workspace
  sync_added :: "pane_id list"
  sync_retiring :: "pane_id list"
  sync_removed :: "pane_id list"

definition process_key :: "(ustring \<Rightarrow> ustring) \<Rightarrow> process \<Rightarrow> ustring" where
  "process_key nfc process = name_key nfc (proc_name process)"

text \<open>The first process of a key wins, as \<open>entry().or_insert()\<close> keeps an existing entry.\<close>

definition index_by_key :: "(ustring \<Rightarrow> ustring) \<Rightarrow> workspace \<Rightarrow> ustring \<rightharpoonup> process" where
  "index_by_key nfc processes = map_of (map (\<lambda>p. (process_key nfc p, p)) processes)"

definition next_pane_id :: "workspace \<Rightarrow> pane_id" where
  "next_pane_id processes = fold (\<lambda>p n. max (proc_id p + 1) n) processes 0"

text \<open>
  The loop over the stored definitions: the processes in their order, the ids that were matched
  and the ids that were added.
\<close>

fun match_specs ::
    "(ustring \<Rightarrow> ustring) \<Rightarrow> (ustring \<rightharpoonup> process) \<Rightarrow> pane_id \<Rightarrow> process_spec list \<Rightarrow>
     workspace \<times> pane_id list \<times> pane_id list" where
  "match_specs nfc by_key next_id [] = ([], [], [])"
| "match_specs nfc by_key next_id (spec # specs) =
     (case by_key (spec_key nfc spec) of
        Some existing \<Rightarrow>
          (let process = set_spec existing spec;
               (synced, matched, new) =
                 match_specs nfc (by_key(spec_key nfc spec := None)) next_id specs
           in (process # synced, proc_id process # matched, new))
      | None \<Rightarrow>
          (let (synced, matched, new) = match_specs nfc by_key (next_id + 1) specs
           in (to_process spec next_id # synced, matched, next_id # new)))"

definition StackSync_apply ::
    "(ustring \<Rightarrow> ustring) \<Rightarrow> workspace \<Rightarrow> process_spec list \<Rightarrow> (pane_id \<Rightarrow> bool) \<Rightarrow> stack_sync" where
  "StackSync_apply nfc ws processes is_live =
     (let (synced, matched, new) =
            match_specs nfc (index_by_key nfc ws) (next_pane_id ws) processes;
          others = filter (\<lambda>p. proc_id p \<notin> set matched) ws;
          kept = filter (\<lambda>p. is_live (proc_id p)) others
      in \<lparr>sync_workspace = synced @ kept, sync_added = new,
          sync_retiring = map proc_id kept,
          sync_removed = map proc_id (filter (\<lambda>p. \<not> is_live (proc_id p)) others)\<rparr>)"

subsection \<open>What a sync keeps\<close>

text \<open>A process goes on when it is the first of its key and a stored definition has that key.\<close>

definition goes_on :: "(ustring \<Rightarrow> ustring) \<Rightarrow> workspace \<Rightarrow> process_spec list \<Rightarrow> process \<Rightarrow> bool" where
  "goes_on nfc ws specs p \<longleftrightarrow>
     find (\<lambda>q. process_key nfc q = process_key nfc p) ws = Some p \<and>
     process_key nfc p \<in> spec_key nfc ` set specs"

lemma proc_spec_set_spec [simp]: "proc_spec (set_spec p spec) = spec"
  by (simp add: proc_spec_def set_spec_def)

lemma proc_spec_to_process [simp]: "proc_spec (to_process spec pane) = spec"
  by (simp add: proc_spec_def to_process_def)

lemma set_spec_keeps [simp]:
  "proc_id (set_spec p spec) = proc_id p" "proc_state (set_spec p spec) = proc_state p"
  by (simp_all add: set_spec_def)

lemma process_key_set_spec [simp]: "process_key nfc (set_spec p spec) = spec_key nfc spec"
  by (simp add: process_key_def spec_key_def set_spec_def)

lemma to_process_fresh [simp]:
  "proc_id (to_process spec pane) = pane" "proc_state (to_process spec pane) = Pending"
  by (simp_all add: to_process_def)

lemma index_by_key_find: "index_by_key nfc ws k = find (\<lambda>p. process_key nfc p = k) ws"
  by (induction ws) (auto simp: index_by_key_def)

lemma next_pane_id_above: "p \<in> set ws \<Longrightarrow> proc_id p < next_pane_id ws"
proof -
  have mono: "n \<le> fold (\<lambda>p n. max (proc_id p + 1) n) ws n" for ws and n :: nat
  proof (induction ws arbitrary: n)
    case (Cons q ws)
    from Cons[of "max (proc_id q + 1) n"] show ?case by simp
  qed simp
  have "p \<in> set ws \<Longrightarrow> proc_id p < fold (\<lambda>p n. max (proc_id p + 1) n) ws n" for n
  proof (induction ws arbitrary: n)
    case (Cons q ws)
    show ?case
    proof (cases "p = q")
      case True
      with mono[of "max (proc_id q + 1) n" ws] show ?thesis by simp
    next
      case False
      with Cons show ?thesis by simp
    qed
  qed simp
  then show "p \<in> set ws \<Longrightarrow> proc_id p < next_pane_id ws" by (simp add: next_pane_id_def)
qed

text \<open>
  The invariant of the loop: what is left of the index maps each key to a process of that key, no
  two entries share an id, and the next id is above them all.
\<close>

definition index_ok :: "(ustring \<Rightarrow> ustring) \<Rightarrow> (ustring \<rightharpoonup> process) \<Rightarrow> pane_id \<Rightarrow> bool" where
  "index_ok nfc by_key next_id \<longleftrightarrow>
     (\<forall>k p. by_key k = Some p \<longrightarrow> process_key nfc p = k \<and> proc_id p < next_id) \<and>
     inj_on proc_id (ran by_key)"

lemma index_ok_remove: "index_ok nfc m n \<Longrightarrow> index_ok nfc (m(k := None)) n"
  unfolding index_ok_def by (fastforce simp: inj_on_def ran_def split: if_splits)

lemma index_ok_Suc: "index_ok nfc m n \<Longrightarrow> index_ok nfc m (n + 1)"
  by (force simp: index_ok_def)

lemma index_ok_start:
  assumes "distinct (map proc_id ws)"
  shows "index_ok nfc (index_by_key nfc ws) (next_pane_id ws)"
  using assms
  by (auto simp: index_ok_def index_by_key_find ran_def inj_on_def distinct_map
      intro: next_pane_id_above dest!: find_SomeD)

lemma match_specs_specs:
  "match_specs nfc m n specs = (synced, matched, new) \<Longrightarrow> map proc_spec synced = specs"
  by (induction nfc m n specs arbitrary: synced matched new rule: match_specs.induct)
     (auto simp: Let_def split: option.splits prod.splits)

lemma match_specs_new:
  "match_specs nfc m n specs = (synced, matched, new) \<Longrightarrow> (\<forall>i \<in> set new. n \<le> i) \<and> distinct new"
  by (induction nfc m n specs arbitrary: synced matched new rule: match_specs.induct)
     (fastforce simp: Let_def split: option.splits prod.splits)+

lemma match_specs_matched:
  "match_specs nfc m n specs = (synced, matched, new) \<Longrightarrow>
   set matched = proc_id ` {p. \<exists>k \<in> spec_key nfc ` set specs. m k = Some p}"
proof (induction nfc m n specs arbitrary: synced matched new rule: match_specs.induct)
  case (2 nfc m n spec specs)
  show ?case
  proof (cases "m (spec_key nfc spec)")
    case None
    with 2(3) obtain s a where rest: "match_specs nfc m (n + 1) specs = (s, matched, a)"
      by (auto simp: Let_def split: prod.splits)
    from 2(1)[OF None rest] None show ?thesis by (auto simp: image_iff)
  next
    case (Some p)
    let ?m = "m(spec_key nfc spec := None)"
    from Some 2(3) obtain s t a where rest: "match_specs nfc ?m n specs = (s, t, a)"
      and matched: "matched = proc_id p # t"
      by (auto simp: Let_def split: prod.splits)
    from 2(2)[OF Some _ rest] have "set t = proc_id ` {p. \<exists>k \<in> spec_key nfc ` set specs. ?m k = Some p}"
      by simp
    moreover have "{q. \<exists>k \<in> spec_key nfc ` set (spec # specs). m k = Some q} =
        insert p {q. \<exists>k \<in> spec_key nfc ` set specs. ?m k = Some q}"
      using Some by force
    ultimately show ?thesis using matched by simp
  qed
qed simp

lemma match_specs_ids:
  "match_specs nfc m n specs = (synced, matched, new) \<Longrightarrow> index_ok nfc m n \<Longrightarrow>
   distinct (map proc_id synced) \<and> set (map proc_id synced) = set matched \<union> set new"
proof (induction nfc m n specs arbitrary: synced matched new rule: match_specs.induct)
  case (2 nfc m n spec specs)
  show ?case
  proof (cases "m (spec_key nfc spec)")
    case None
    with 2(3) obtain s a where rest: "match_specs nfc m (n + 1) specs = (s, matched, a)"
      and new: "new = n # a" and synced: "synced = to_process spec n # s"
      by (auto simp: Let_def split: prod.splits)
    have "n \<notin> set matched"
      using match_specs_matched[OF rest] \<open>index_ok nfc m n\<close> by (force simp: index_ok_def)
    moreover have "n \<notin> set a" using match_specs_new[OF rest] by force
    ultimately show ?thesis
      using 2(1)[OF None rest] index_ok_Suc[OF \<open>index_ok nfc m n\<close>] new synced by auto
  next
    case (Some p)
    let ?m = "m(spec_key nfc spec := None)"
    from Some 2(3) obtain s t where rest: "match_specs nfc ?m n specs = (s, t, new)"
      and matched: "matched = proc_id p # t" and synced: "synced = set_spec p spec # s"
      by (auto simp: Let_def split: prod.splits)
    from \<open>index_ok nfc m n\<close> Some have below: "proc_id p < n" by (auto simp: index_ok_def)
    have other: "?m k = Some q \<Longrightarrow> proc_id q \<noteq> proc_id p" for k q
      using \<open>index_ok nfc m n\<close> Some unfolding index_ok_def
      by (metis fun_upd_apply inj_on_def option.distinct(1) ranI)
    then have "proc_id p \<notin> set t" using match_specs_matched[OF rest] by force
    moreover have "proc_id p \<notin> set new" using match_specs_new[OF rest] below by force
    ultimately show ?thesis
      using 2(2)[OF Some _ rest index_ok_remove[OF \<open>index_ok nfc m n\<close>]] matched synced by auto
  qed
qed simp

lemma match_specs_origin:
  "match_specs nfc m n specs = (synced, matched, new) \<Longrightarrow> q \<in> set synced \<Longrightarrow>
   (\<exists>k p. m k = Some p \<and> k = spec_key nfc (proc_spec q) \<and> q = set_spec p (proc_spec q)) \<or>
   proc_id q \<in> set new \<and> q = to_process (proc_spec q) (proc_id q)"
  by (induction nfc m n specs arbitrary: synced matched new rule: match_specs.induct)
     (fastforce simp: Let_def split: option.splits prod.splits if_splits)+

lemma match_specs_kept:
  assumes "match_specs nfc m n specs = (synced, matched, new)" "index_ok nfc m n"
    and "m k = Some p" "k \<in> spec_key nfc ` set specs"
  shows "\<exists>spec. set_spec p spec \<in> set synced \<and> spec_key nfc spec = k"
proof -
  have "proc_id p \<in> proc_id ` set synced"
    using match_specs_ids[OF assms(1,2)] match_specs_matched[OF assms(1)] assms(3,4) by auto
  then obtain q where q: "q \<in> set synced" "proc_id q = proc_id p" by auto
  have "proc_id p < n" using assms(2,3) by (auto simp: index_ok_def)
  with match_specs_new[OF assms(1)] q(2) have "proc_id q \<notin> set new" by auto
  with match_specs_origin[OF assms(1) q(1)] obtain k' p'
    where p': "m k' = Some p'" "k' = spec_key nfc (proc_spec q)" "q = set_spec p' (proc_spec q)"
    by auto
  from p'(3) q(2) have "proc_id p' = proc_id p" by (metis set_spec_keeps(1))
  with assms(2,3) p'(1) have "p' = p" unfolding index_ok_def by (meson inj_onD ranI)
  with p' assms(2,3) have "k' = k" unfolding index_ok_def by metis
  with p' \<open>p' = p\<close> q(1) show ?thesis by metis
qed

lemma index_by_key_SomeD:
  "index_by_key nfc ws k = Some p \<Longrightarrow> p \<in> set ws \<and> process_key nfc p = k"
  by (auto simp: index_by_key_find dest: find_SomeD)

lemma goes_on_iff:
  "goes_on nfc ws specs p \<longleftrightarrow>
     (\<exists>k \<in> spec_key nfc ` set specs. index_by_key nfc ws k = Some p)"
proof -
  have "goes_on nfc ws specs p \<longleftrightarrow>
      index_by_key nfc ws (process_key nfc p) = Some p \<and> process_key nfc p \<in> spec_key nfc ` set specs"
    by (simp add: goes_on_def index_by_key_find)
  then show ?thesis by (metis index_by_key_SomeD)
qed

lemma matched_iff_goes_on:
  assumes "distinct (map proc_id ws)" "p \<in> set ws"
    and "match_specs nfc (index_by_key nfc ws) n specs = (synced, matched, new)"
  shows "proc_id p \<in> set matched \<longleftrightarrow> goes_on nfc ws specs p"
proof -
  have "{q. \<exists>k \<in> spec_key nfc ` set specs. index_by_key nfc ws k = Some q} \<subseteq> set ws"
    by (auto simp: index_by_key_find dest: find_SomeD)
  moreover have "inj_on proc_id (set ws)" using assms(1) by (simp add: distinct_map)
  ultimately show ?thesis
    using assms(2) inj_on_image_mem_iff[of proc_id "set ws" p]
    by (simp add: match_specs_matched[OF assms(3)] goes_on_iff)
qed

lemma StackSync_apply_fields:
  assumes "distinct (map proc_id ws)" "StackSync_apply nfc ws specs is_live = sync"
  obtains synced matched where
    "match_specs nfc (index_by_key nfc ws) (next_pane_id ws) specs = (synced, matched, sync_added sync)"
    "sync_workspace sync =
       synced @ filter (\<lambda>p. \<not> goes_on nfc ws specs p \<and> is_live (proc_id p)) ws"
    "sync_retiring sync = map proc_id (filter (\<lambda>p. \<not> goes_on nfc ws specs p \<and> is_live (proc_id p)) ws)"
    "sync_removed sync = map proc_id (filter (\<lambda>p. \<not> goes_on nfc ws specs p \<and> \<not> is_live (proc_id p)) ws)"
proof -
  obtain synced matched new where
    loop: "match_specs nfc (index_by_key nfc ws) (next_pane_id ws) specs = (synced, matched, new)"
    by (metis prod_cases3)
  have others: "filter (\<lambda>p. proc_id p \<notin> set matched \<and> Q p) ws =
      filter (\<lambda>p. \<not> goes_on nfc ws specs p \<and> Q p) ws" for Q
    using matched_iff_goes_on[OF assms(1) _ loop] by (auto intro: filter_cong)
  from assms(2) loop have "sync = \<lparr>sync_workspace =
        synced @ filter (\<lambda>p. \<not> goes_on nfc ws specs p \<and> is_live (proc_id p)) ws,
      sync_added = new,
      sync_retiring = map proc_id (filter (\<lambda>p. \<not> goes_on nfc ws specs p \<and> is_live (proc_id p)) ws),
      sync_removed = map proc_id (filter (\<lambda>p. \<not> goes_on nfc ws specs p \<and> \<not> is_live (proc_id p)) ws)\<rparr>"
    by (auto simp: StackSync_apply_def Let_def others)
  with loop that show thesis by simp
qed

lemma added_ids_fresh:
  assumes "match_specs nfc m (next_pane_id ws) specs = (synced, matched, new)"
  shows "set new \<inter> proc_id ` set ws = {}"
  using match_specs_new[OF assms] next_pane_id_above[of _ ws] by force

lemma match_specs_added:
  "match_specs nfc m n specs = (synced, matched, new) \<Longrightarrow> (\<forall>k p. m k = Some p \<longrightarrow> \<not> P (proc_id p)) \<Longrightarrow> (\<forall>i \<ge> n. P i) \<Longrightarrow>
   filter P (map proc_id synced) = new"
  by (induction nfc m n specs arbitrary: synced matched new rule: match_specs.induct)
     (fastforce simp: Let_def split: option.splits prod.splits if_splits)+

lemma added_ids_exact:
  assumes "match_specs nfc (index_by_key nfc ws) (next_pane_id ws) specs = (synced, matched, new)"
  shows "filter (\<lambda>i. i \<notin> proc_id ` set ws) (map proc_id synced) = new"
proof (rule match_specs_added[OF assms])
  show "\<forall>k p. index_by_key nfc ws k = Some p \<longrightarrow> \<not> proc_id p \<notin> proc_id ` set ws"
    by (auto simp: index_by_key_find dest: find_SomeD)
  show "\<forall>i \<ge> next_pane_id ws. i \<notin> proc_id ` set ws" using next_pane_id_above[of _ ws] by force
qed

lemma sync_ids_distinct:
  assumes "distinct (map proc_id ws)"
    and loop: "match_specs nfc (index_by_key nfc ws) (next_pane_id ws) specs = (synced, matched, new)"
  shows "distinct (map proc_id (synced @ filter (\<lambda>p. \<not> goes_on nfc ws specs p \<and> is_live (proc_id p)) ws))"
  using match_specs_ids[OF loop index_ok_start[OF assms(1)]] matched_iff_goes_on[OF assms(1) _ loop]
    added_ids_fresh[OF loop] assms(1)
  by (auto simp: distinct_map_filter)

lemma sync_id_origin:
  assumes "distinct (map proc_id ws)"
    and loop: "match_specs nfc (index_by_key nfc ws) (next_pane_id ws) specs = (synced, matched, new)"
    and "q \<in> set synced"
  shows "if proc_id q \<in> set new then proc_state q = Pending else proc_id q \<in> proc_id ` set ws"
proof -
  from match_specs_origin[OF loop assms(3)] consider
      k p where "index_by_key nfc ws k = Some p" "q = set_spec p (proc_spec q)"
    | "proc_id q \<in> set new" "q = to_process (proc_spec q) (proc_id q)" by blast
  then show ?thesis
  proof cases
    case 1
    then have "p \<in> set ws" by (auto simp: index_by_key_find dest: find_SomeD)
    moreover from 1 have "proc_id q = proc_id p" by (metis set_spec_keeps(1))
    ultimately show ?thesis using added_ids_fresh[OF loop] by auto
  next
    case 2
    then show ?thesis by (metis to_process_fresh(2))
  qed
qed

lemma goes_on_synced:
  assumes "distinct (map proc_id ws)"
    and loop: "match_specs nfc (index_by_key nfc ws) (next_pane_id ws) specs = (synced, matched, new)"
    and "goes_on nfc ws specs p"
  shows "\<exists>q \<in> set synced. proc_id q = proc_id p \<and> proc_state q = proc_state p \<and>
      process_key nfc q = process_key nfc p"
proof -
  from assms(3) obtain k where k: "k \<in> spec_key nfc ` set specs" "index_by_key nfc ws k = Some p"
    by (auto simp: goes_on_iff)
  from match_specs_kept[OF loop index_ok_start[OF assms(1)] k(2,1)] obtain spec
    where "set_spec p spec \<in> set synced" "spec_key nfc spec = k" by blast
  with index_by_key_SomeD[OF k(2)] show ?thesis
    by (intro bexI[of _ "set_spec p spec"]) simp_all
qed

text \<open>C29. Applying a stored stack to the running panes. The panes keep distinct ids; the first of them
  are exactly the stored definitions in their order; a process whose key is still stored keeps its
  id and its state; a definition that was new gets an id no pane had and waits in the pending
  state; of the others, the ones that still run stay untouched at the end. The sync reports as added
  exactly the ids that are new, as retiring exactly the processes that are no longer stored and still
  run, and as removed exactly those that are no longer stored and do not run, each in order.
\<close>

theorem stack_sync_keeps_running:
  assumes "distinct (map proc_id ws)" "StackSync_apply nfc ws specs is_live = sync"
  shows "distinct (map proc_id (sync_workspace sync)) \<and>
     map proc_spec (take (length specs) (sync_workspace sync)) = specs \<and>
     drop (length specs) (sync_workspace sync) =
       filter (\<lambda>p. \<not> goes_on nfc ws specs p \<and> is_live (proc_id p)) ws \<and>
     sync_added sync = filter (\<lambda>i. i \<notin> proc_id ` set ws) (map proc_id (sync_workspace sync)) \<and>
     sync_retiring sync = map proc_id (filter (\<lambda>p. \<not> goes_on nfc ws specs p \<and> is_live (proc_id p)) ws) \<and>
     sync_removed sync = map proc_id (filter (\<lambda>p. \<not> goes_on nfc ws specs p \<and> \<not> is_live (proc_id p)) ws) \<and>
     (\<forall>p \<in> set ws.
        if goes_on nfc ws specs p
        then (\<exists>q \<in> set (take (length specs) (sync_workspace sync)).
                proc_id q = proc_id p \<and> proc_state q = proc_state p \<and> process_key nfc q = process_key nfc p)
        else is_live (proc_id p) \<or> proc_id p \<notin> proc_id ` set (sync_workspace sync)) \<and>
     (\<forall>q \<in> set (sync_workspace sync).
        if proc_id q \<in> set (sync_added sync)
        then proc_state q = Pending \<and> proc_id q \<notin> proc_id ` set ws
        else proc_id q \<in> proc_id ` set ws)"
proof -
  let ?on = "goes_on nfc ws specs"
  from StackSync_apply_fields[OF assms] obtain synced matched where
    loop: "match_specs nfc (index_by_key nfc ws) (next_pane_id ws) specs = (synced, matched, sync_added sync)"
    and ws': "sync_workspace sync = synced @ filter (\<lambda>p. \<not> ?on p \<and> is_live (proc_id p)) ws"
    and ret: "sync_retiring sync = map proc_id (filter (\<lambda>p. \<not> ?on p \<and> is_live (proc_id p)) ws)"
    and rem: "sync_removed sync = map proc_id (filter (\<lambda>p. \<not> ?on p \<and> \<not> is_live (proc_id p)) ws)"
    by blast
  note ids = match_specs_ids[OF loop index_ok_start[OF assms(1)]]
  note matched = matched_iff_goes_on[OF assms(1) _ loop]
  have specs: "map proc_spec synced = specs" by (rule match_specs_specs[OF loop])
  then have len: "length specs = length synced" by auto
  note fresh = added_ids_fresh[OF loop]
  have on: "\<exists>q \<in> set synced. proc_id q = proc_id p \<and> proc_state q = proc_state p \<and>
      process_key nfc q = process_key nfc p" if "?on p" for p
    by (rule goes_on_synced[OF assms(1) loop that])
  have gone: "proc_id p \<notin> proc_id ` set (sync_workspace sync)"
    if "p \<in> set ws" "\<not> ?on p" "\<not> is_live (proc_id p)" for p
    using that fresh ids matched[OF that(1)] by (auto simp: ws')
  have origin: "if proc_id q \<in> set (sync_added sync) then proc_state q = Pending \<and> proc_id q \<notin> proc_id ` set ws
      else proc_id q \<in> proc_id ` set ws" if "q \<in> set (sync_workspace sync)" for q
    using that fresh sync_id_origin[OF assms(1) loop, of q] by (auto simp: ws')
  have "filter (\<lambda>i. i \<notin> proc_id ` set ws) (map proc_id (sync_workspace sync)) = sync_added sync"
    using added_ids_exact[OF loop] by (auto simp: ws' filter_empty_conv)
  then show ?thesis
    using sync_ids_distinct[OF assms(1) loop, of is_live] specs on gone origin ret rem by (auto simp: ws' len)
qed

definition worker_spec :: process_spec where
  "worker_spec = web_spec\<lparr>spec_name := utf ''worker''\<rparr>"

theorem stack_sync_keeps_running_witness:
  "\<exists>sync. StackSync_apply id
       [set_state (to_process web_spec 3) Running, to_process worker_spec 4, to_process (worker_spec\<lparr>spec_name := utf ''old''\<rparr>) 1]
       [web_spec\<lparr>spec_name := utf ''api''\<rparr>, worker_spec] (\<lambda>pane. pane = 3) = sync \<and>
     map proc_id (sync_workspace sync) = [5, 4, 3] \<and> sync_added sync = [5] \<and>
     sync_retiring sync = [3] \<and> sync_removed sync = [1] \<and> distinct (map proc_id (sync_workspace sync))"
proof -
  define ws where "ws = [set_state (to_process web_spec 3) Running, to_process worker_spec 4,
    to_process (worker_spec\<lparr>spec_name := utf ''old''\<rparr>) 1]"
  define specs where "specs = [web_spec\<lparr>spec_name := utf ''api''\<rparr>, worker_spec]"
  have "distinct (map proc_id ws)" by (simp add: ws_def set_state_def)
  from stack_sync_keeps_running[OF this refl, of id specs "\<lambda>pane. pane = 3", THEN conjunct1]
  have "distinct (map proc_id (sync_workspace (StackSync_apply id ws specs (\<lambda>pane. pane = 3))))" .
  moreover have "map proc_id (sync_workspace (StackSync_apply id ws specs (\<lambda>pane. pane = 3))) = [5, 4, 3] \<and>
      sync_added (StackSync_apply id ws specs (\<lambda>pane. pane = 3)) = [5] \<and>
      sync_retiring (StackSync_apply id ws specs (\<lambda>pane. pane = 3)) = [3] \<and>
      sync_removed (StackSync_apply id ws specs (\<lambda>pane. pane = 3)) = [1]"
    by (simp add: ws_def specs_def StackSync_apply_def index_by_key_def next_pane_id_def process_key_def
        spec_key_def name_key_def to_process_def set_state_def set_spec_def worker_spec_def web_spec_def
        utf_def Let_def)
  ultimately show ?thesis
    unfolding ws_def[symmetric] specs_def[symmetric]
    by (intro exI[of _ "StackSync_apply id ws specs (\<lambda>pane. pane = 3)"]) simp
qed

end
