(* ===== verification/Settings.thy ===== *)
theory Settings
  imports Config
begin

text \<open>
  The machine-wide settings, \<open>muster-domain/src/settings.rs\<close>, the changes a command may make to them,
  \<open>config/setting_change.rs\<close> and \<open>config/setting_key.rs\<close>, and the text a setting is shown as. The
  arguments \<open>parse_duration\<close> and \<open>format_duration\<close> are the duration syntax of another crate,
  \<open>parse_size\<close> its size syntax and \<open>lowercase\<close> Unicode lower-casing.
\<close>

section \<open>Values\<close>

datatype color_scheme = Dark | Light

fun color_scheme_to_string :: "color_scheme \<Rightarrow> ustring" where
  "color_scheme_to_string Dark = utf ''dark''"
| "color_scheme_to_string Light = utf ''light''"

datatype mcp_stack_edits = Allow | ReadOnly

fun mcp_stack_edits_to_string :: "mcp_stack_edits \<Rightarrow> ustring" where
  "mcp_stack_edits_to_string Allow = utf ''allow''"
| "mcp_stack_edits_to_string ReadOnly = utf ''read-only''"

definition allows :: "mcp_stack_edits \<Rightarrow> bool" where
  "allows self \<longleftrightarrow> (case self of Allow \<Rightarrow> True | ReadOnly \<Rightarrow> False)"

definition MAX_SCROLLBACK :: nat where
  "MAX_SCROLLBACK = 100000"

definition ScrollbackLines_try_new :: "nat \<Rightarrow> nat option" where
  "ScrollbackLines_try_new lines = (if lines \<le> MAX_SCROLLBACK then Some lines else None)"

definition scrollback_from_str :: "ustring \<Rightarrow> nat option" where
  "scrollback_from_str raw = Option.bind (parse_uint 64 raw) ScrollbackLines_try_new"

definition bool_to_string :: "bool \<Rightarrow> ustring" where
  "bool_to_string b = (if b then utf ''true'' else utf ''false'')"

definition bool_from_str :: "ustring \<Rightarrow> bool option" where
  "bool_from_str raw =
     (if raw = utf ''true'' then Some True else if raw = utf ''false'' then Some False else None)"

definition detach_key_from_str :: "(ustring \<Rightarrow> ustring) \<Rightarrow> ustring \<Rightarrow> ustring option" where
  "detach_key_from_str lowercase raw =
     (case DetachKey_try_new lowercase raw of Inl _ \<Rightarrow> None | Inr key \<Rightarrow> Some key)"

interpretation color_scheme_choice: choice "[Dark, Light]" color_scheme_to_string
proof
  show "inj color_scheme_to_string"
  proof (rule injI)
    fix x y show "color_scheme_to_string x = color_scheme_to_string y \<Longrightarrow> x = y"
      by (cases x; cases y) (simp_all add: utf_def)
  qed
  fix x show "x \<in> set [Dark, Light]" by (cases x) simp_all
  show "trim (color_scheme_to_string x) = color_scheme_to_string x"
    by (cases x) (simp_all add: utf_def trim_id is_whitespace_def)
qed

interpretation mcp_edits_choice: choice "[Allow, ReadOnly]" mcp_stack_edits_to_string
proof
  show "inj mcp_stack_edits_to_string"
  proof (rule injI)
    fix x y show "mcp_stack_edits_to_string x = mcp_stack_edits_to_string y \<Longrightarrow> x = y"
      by (cases x; cases y) (simp_all add: utf_def)
  qed
  fix x show "x \<in> set [Allow, ReadOnly]" by (cases x) simp_all
  show "trim (mcp_stack_edits_to_string x) = mcp_stack_edits_to_string x"
    by (cases x) (simp_all add: utf_def trim_id is_whitespace_def)
qed

section \<open>Settings and their changes\<close>

definition agent_may_set :: "setting_key \<Rightarrow> bool" where
  "agent_may_set self \<longleftrightarrow>
     (case self of
        DefaultSize \<Rightarrow> True | DefaultAutostart \<Rightarrow> True | DefaultRestart \<Rightarrow> True
      | DefaultStopSignal \<Rightarrow> True | DefaultStopGrace \<Rightarrow> True
      | DesktopNotifications \<Rightarrow> False | Key_DetachKey \<Rightarrow> False | Key_LogMaxSize \<Rightarrow> False
      | Scrollback \<Rightarrow> False | Key_ColorScheme \<Rightarrow> False | Key_McpStackEdits \<Rightarrow> False
      | Key_IdleStop \<Rightarrow> False)"

record settings =
  set_desktop_notifications :: bool
  set_default_size :: pty_size
  set_detach_key :: ustring
  set_log_max_size :: nat
  set_scrollback :: nat
  set_color_scheme :: color_scheme
  set_default_autostart :: bool
  set_default_restart :: restart_policy
  set_default_stop_signal :: stop_signal
  set_default_stop_grace :: duration
  set_mcp_stack_edits :: mcp_stack_edits
  set_idle_stop :: idle_stop

datatype setting_change =
    Change_DesktopNotifications bool
  | Change_DefaultSize pty_size
  | Change_DetachKey ustring
  | Change_LogMaxSize nat
  | Change_Scrollback nat
  | Change_ColorScheme color_scheme
  | Change_DefaultAutostart bool
  | Change_DefaultRestart restart_policy
  | Change_DefaultStopSignal stop_signal
  | Change_DefaultStopGrace duration
  | Change_McpStackEdits mcp_stack_edits
  | Change_IdleStop idle_stop

fun setting_change_key :: "setting_change \<Rightarrow> setting_key" where
  "setting_change_key (Change_DesktopNotifications _) = DesktopNotifications"
| "setting_change_key (Change_DefaultSize _) = DefaultSize"
| "setting_change_key (Change_DetachKey _) = Key_DetachKey"
| "setting_change_key (Change_LogMaxSize _) = Key_LogMaxSize"
| "setting_change_key (Change_Scrollback _) = Scrollback"
| "setting_change_key (Change_ColorScheme _) = Key_ColorScheme"
| "setting_change_key (Change_DefaultAutostart _) = DefaultAutostart"
| "setting_change_key (Change_DefaultRestart _) = DefaultRestart"
| "setting_change_key (Change_DefaultStopSignal _) = DefaultStopSignal"
| "setting_change_key (Change_DefaultStopGrace _) = DefaultStopGrace"
| "setting_change_key (Change_McpStackEdits _) = Key_McpStackEdits"
| "setting_change_key (Change_IdleStop _) = Key_IdleStop"

fun settings_with_change :: "settings \<Rightarrow> setting_change \<Rightarrow> settings" where
  "settings_with_change self (Change_DesktopNotifications v) = self\<lparr>set_desktop_notifications := v\<rparr>"
| "settings_with_change self (Change_DefaultSize v) = self\<lparr>set_default_size := v\<rparr>"
| "settings_with_change self (Change_DetachKey v) = self\<lparr>set_detach_key := v\<rparr>"
| "settings_with_change self (Change_LogMaxSize v) = self\<lparr>set_log_max_size := v\<rparr>"
| "settings_with_change self (Change_Scrollback v) = self\<lparr>set_scrollback := v\<rparr>"
| "settings_with_change self (Change_ColorScheme v) = self\<lparr>set_color_scheme := v\<rparr>"
| "settings_with_change self (Change_DefaultAutostart v) = self\<lparr>set_default_autostart := v\<rparr>"
| "settings_with_change self (Change_DefaultRestart v) = self\<lparr>set_default_restart := v\<rparr>"
| "settings_with_change self (Change_DefaultStopSignal v) = self\<lparr>set_default_stop_signal := v\<rparr>"
| "settings_with_change self (Change_DefaultStopGrace v) = self\<lparr>set_default_stop_grace := v\<rparr>"
| "settings_with_change self (Change_McpStackEdits v) = self\<lparr>set_mcp_stack_edits := v\<rparr>"
| "settings_with_change self (Change_IdleStop v) = self\<lparr>set_idle_stop := v\<rparr>"

text \<open>The text a setting is shown as; \<open>format_duration\<close> prints a duration.\<close>

fun value_text :: "(duration \<Rightarrow> ustring) \<Rightarrow> settings \<Rightarrow> setting_key \<Rightarrow> ustring" where
  "value_text format_duration self DesktopNotifications = bool_to_string (set_desktop_notifications self)"
| "value_text format_duration self DefaultSize = pty_size_to_string (set_default_size self)"
| "value_text format_duration self Key_DetachKey = set_detach_key self"
| "value_text format_duration self Key_LogMaxSize = byte_size_to_string (set_log_max_size self)"
| "value_text format_duration self Scrollback = show_nat (set_scrollback self)"
| "value_text format_duration self Key_ColorScheme = color_scheme_to_string (set_color_scheme self)"
| "value_text format_duration self DefaultAutostart = bool_to_string (set_default_autostart self)"
| "value_text format_duration self DefaultRestart = restart_policy_to_string (set_default_restart self)"
| "value_text format_duration self DefaultStopSignal = stop_signal_to_string (set_default_stop_signal self)"
| "value_text format_duration self DefaultStopGrace =
     stop_grace_to_string format_duration (set_default_stop_grace self)"
| "value_text format_duration self Key_McpStackEdits = mcp_stack_edits_to_string (set_mcp_stack_edits self)"
| "value_text format_duration self Key_IdleStop = idle_stop_to_string format_duration (set_idle_stop self)"

definition settings_process_defaults :: "settings \<Rightarrow> process_defaults" where
  "settings_process_defaults self =
     \<lparr>default_autostart = set_default_autostart self, default_restart = set_default_restart self,
      default_stop = \<lparr>signal = set_default_stop_signal self, grace_period = set_default_stop_grace self\<rparr>\<rparr>"

section \<open>Reading a change\<close>

definition BOOLEAN_FORM :: ustring where
  "BOOLEAN_FORM = utf ''true or false''"

definition LINE_COUNT_FORM :: ustring where
  "LINE_COUNT_FORM = utf ''a whole number of lines from 0 to 100000, such as 1000''"

definition DETACH_KEY_FORM :: ustring where
  "DETACH_KEY_FORM = utf ''a Control chord such as ctrl-'' @ [92] @ utf '' or ctrl-a''"

definition invalid :: "setting_key \<Rightarrow> value_parse_error \<Rightarrow> config_error" where
  "invalid key err = InvalidSetting key (parse_error_to_string err)"

definition parse_default_size :: "ustring \<Rightarrow> config_error + setting_change" where
  "parse_default_size raw =
     and_then (map_err (invalid DefaultSize) (dimensions raw)) (\<lambda>(rs, cs).
     and_then (map_err InvalidDefaultSize (PtySize_try_new rs cs)) (\<lambda>s. Inr (Change_DefaultSize s)))"

definition map_ok :: "('a \<Rightarrow> 'b) \<Rightarrow> 'e + 'a \<Rightarrow> 'e + 'b" where
  "map_ok f r = and_then r (\<lambda>x. Inr (f x))"

text \<open>The terminal size alone leaves the common path, with an error of its own.\<close>

definition SettingChange_parse ::
    "(ustring \<Rightarrow> ustring) \<Rightarrow> (ustring \<Rightarrow> nat option) \<Rightarrow> (ustring \<Rightarrow> duration option) \<Rightarrow>
     setting_key \<Rightarrow> ustring \<Rightarrow> config_error + setting_change" where
  "SettingChange_parse lowercase parse_size parse_duration key raw =
     (let raw = trim raw; checked = map_err (invalid key)
      in case key of
           DesktopNotifications \<Rightarrow>
             checked (map_ok Change_DesktopNotifications (parse_as bool_from_str raw BOOLEAN_FORM))
         | DefaultSize \<Rightarrow> parse_default_size raw
         | Key_DetachKey \<Rightarrow>
             checked (map_ok Change_DetachKey (parse_as (detach_key_from_str lowercase) raw DETACH_KEY_FORM))
         | Key_LogMaxSize \<Rightarrow> checked (map_ok Change_LogMaxSize (log_max_size_from_str parse_size raw))
         | Scrollback \<Rightarrow>
             checked (map_ok Change_Scrollback (parse_as scrollback_from_str raw LINE_COUNT_FORM))
         | Key_ColorScheme \<Rightarrow>
             checked (map_ok Change_ColorScheme (parse_choice [Dark, Light] color_scheme_to_string raw))
         | DefaultAutostart \<Rightarrow>
             checked (map_ok Change_DefaultAutostart (parse_as bool_from_str raw BOOLEAN_FORM))
         | DefaultRestart \<Rightarrow>
             checked (map_ok Change_DefaultRestart
               (parse_choice [Policy_Never, OnFailure, Always] restart_policy_to_string raw))
         | DefaultStopSignal \<Rightarrow>
             checked (map_ok Change_DefaultStopSignal
               (parse_choice [Terminate, Interrupt] stop_signal_to_string raw))
         | DefaultStopGrace \<Rightarrow>
             checked (map_ok Change_DefaultStopGrace (stop_grace_from_str parse_duration raw))
         | Key_McpStackEdits \<Rightarrow>
             checked (map_ok Change_McpStackEdits
               (parse_choice [Allow, ReadOnly] mcp_stack_edits_to_string raw))
         | Key_IdleStop \<Rightarrow> checked (map_ok Change_IdleStop (idle_stop_from_str parse_duration raw)))"

section \<open>Well-formed settings\<close>

text \<open>Every field holds a value its type accepts.\<close>

definition settings_ok :: "settings \<Rightarrow> bool" where
  "settings_ok s \<longleftrightarrow>
     PtySize_try_new (rows (set_default_size s)) (cols (set_default_size s)) = Inr (set_default_size s) \<and>
     is_detach_chord (set_detach_key s) \<and>
     LogMaxSize_try_new (set_log_max_size s) = Some (set_log_max_size s) \<and>
     set_scrollback s \<le> MAX_SCROLLBACK \<and>
     is_grace (set_default_stop_grace s) \<and>
     (case set_idle_stop s of Never \<Rightarrow> True | After d \<Rightarrow> is_positive d)"

lemma map_ok_Inr_iff [simp]: "map_ok f r = Inr y \<longleftrightarrow> (\<exists>x. r = Inr x \<and> y = f x)"
  by (auto simp: map_ok_def and_then_Inr_iff)

lemma PtySize_try_new_same: "PtySize_try_new rs cs = Inr s \<Longrightarrow> PtySize_try_new (rows s) (cols s) = Inr s"
  by (auto simp: PtySize_try_new_def Rows_try_new_def Cols_try_new_def split: option.splits if_splits)

lemma parse_as_Inr_iff: "parse_as f raw form = Inr x \<longleftrightarrow> f (trim raw) = Some x"
  by (simp add: parse_as_def)

text \<open>What each field's parser gives back is a value its type accepts.\<close>

lemma parsed_key: "SettingChange_parse lc ps pd key raw = Inr c \<Longrightarrow> setting_change_key c = key"
  by (cases key) (auto simp: SettingChange_parse_def parse_default_size_def Let_def and_then_Inr_iff)

lemma parsed_ok:
  assumes "SettingChange_parse lc ps pd key raw = Inr c" "settings_ok s"
  shows "settings_ok (settings_with_change s c)"
proof (cases key)
  case DefaultSize
  with assms show ?thesis
    by (auto simp: SettingChange_parse_def parse_default_size_def Let_def and_then_Inr_iff settings_ok_def
        dest: PtySize_try_new_same)
next
  case Key_DetachKey
  with assms show ?thesis
    by (auto simp: SettingChange_parse_def parse_as_Inr_iff Let_def settings_ok_def detach_key_from_str_def
        DetachKey_try_new_def split: sum.splits if_splits)
next
  case Key_LogMaxSize
  with assms show ?thesis
    by (auto simp: SettingChange_parse_def Let_def settings_ok_def log_max_size_from_str_def
        LogMaxSize_try_new_def split: sum.splits if_splits)
next
  case Scrollback
  with assms show ?thesis
    by (auto simp: SettingChange_parse_def parse_as_Inr_iff Let_def settings_ok_def scrollback_from_str_def
        ScrollbackLines_try_new_def bind_eq_Some_conv split: if_splits)
next
  case DefaultStopGrace
  with assms show ?thesis
    by (auto simp: SettingChange_parse_def Let_def settings_ok_def stop_grace_from_str_def
        StopGrace_try_new_def bind_eq_Some_conv split: if_splits)
next
  case Key_IdleStop
  with assms show ?thesis
    by (auto simp: SettingChange_parse_def Let_def settings_ok_def idle_stop_from_str_def
        positive_duration_from_str_def PositiveDuration_try_new_def bind_eq_Some_conv
        split: sum.splits if_splits)
qed (use assms in \<open>auto simp: SettingChange_parse_def Let_def settings_ok_def\<close>)

lemma other_text_kept:
  "key \<noteq> setting_change_key c \<Longrightarrow> value_text fd (settings_with_change s c) key = value_text fd s key"
  by (cases c; cases key) auto

text \<open>C33. A setting change is safe to store: when a text is read as a change of a setting, the change
  is of that very setting, the changed settings hold only values their types accept, and every
  other setting is shown as before.\<close>

theorem setting_change_is_safe:
  assumes "SettingChange_parse lowercase parse_size parse_duration key raw = Inr change" "settings_ok s"
  shows "setting_change_key change = key \<and> settings_ok (settings_with_change s change) \<and>
     (\<forall>other. other \<noteq> key \<longrightarrow>
        value_text format_duration (settings_with_change s change) other = value_text format_duration s other)"
  using parsed_key[OF assms(1)] parsed_ok[OF assms] other_text_kept by blast

definition default_settings :: settings where
  "default_settings =
     \<lparr>set_desktop_notifications = True, set_default_size = \<lparr>rows = 24, cols = 80\<rparr>,
      set_detach_key = utf ''ctrl-'' @ [92], set_log_max_size = 10 * 2 ^ 20, set_scrollback = 1000,
      set_color_scheme = Dark, set_default_autostart = False, set_default_restart = Policy_Never,
      set_default_stop_signal = Terminate, set_default_stop_grace = 5 * NANOS_PER_SEC,
      set_mcp_stack_edits = Allow, set_idle_stop = After (1800 * NANOS_PER_SEC)\<rparr>"

lemma default_settings_ok: "settings_ok default_settings"
  by (simp add: settings_ok_def default_settings_def PtySize_try_new_def Rows_try_new_def Cols_try_new_def
      is_detach_chord_def chord_key_def CTRL_PREFIX_def utf_def strip_prefix_def DETACH_PUNCTUATION_def
      LogMaxSize_try_new_def MIN_LOG_MAX_BYTES_def MAX_LOG_MAX_BYTES_def MAX_SCROLLBACK_def is_grace_def
      is_positive_def is_whole_millis_def MAX_STOP_GRACE_def NANOS_PER_SEC_def)

theorem setting_change_is_safe_witness:
  "\<exists>change. SettingChange_parse id (\<lambda>_. None) (\<lambda>_. None) DefaultSize (utf '' 40x120'') = Inr change \<and>
     change = Change_DefaultSize \<lparr>rows = 40, cols = 120\<rparr> \<and>
     settings_ok (settings_with_change default_settings change)"
proof -
  have "SettingChange_parse id (\<lambda>_. None) (\<lambda>_. None) DefaultSize (utf '' 40x120'') =
      Inr (Change_DefaultSize \<lparr>rows = 40, cols = 120\<rparr>)"
    by (simp add: SettingChange_parse_def parse_default_size_def dimensions_def split_once_def SIZE_SEPARATOR_def
        utf_def trim_def trim_with_def trim_start_with_def trim_end_with_def is_whitespace_def parse_uint_def
        is_ascii_digit_def PtySize_try_new_def Rows_try_new_def Cols_try_new_def)
  from setting_change_is_safe[OF this default_settings_ok] this show ?thesis by blast
qed

subsection \<open>A shown setting can be typed back\<close>

lemma bool_printed: "bool_from_str (bool_to_string b) = Some b" "trim (bool_to_string b) = bool_to_string b"
  by (simp_all add: bool_from_str_def bool_to_string_def utf_def trim_id is_whitespace_def)

lemma detach_chord_chars:
  assumes "is_detach_chord key"
  shows "\<forall>c \<in> set key. c < 128 \<and> \<not> is_ascii_uppercase c \<and> \<not> is_whitespace c"
  using assms
  by (auto simp: is_detach_chord_def chord_key_def CTRL_PREFIX_def strip_prefix_Some_iff utf_def DETACH_PUNCTUATION_def
      char_classes Let_def split: option.splits list.splits if_splits)

lemma detach_key_printed:
  assumes "is_detach_chord key" "lowercase key = key"
  shows "parse_as (detach_key_from_str lowercase) key form = Inr key"
proof -
  have "trim key = key" using detach_chord_chars[OF assms(1)] by (intro trim_id) (simp add: list_all_iff)
  with assms show ?thesis by (simp add: parse_as_Inr_iff detach_key_from_str_def DetachKey_try_new_def)
qed

lemma trim_byte_size: "trim (byte_size_to_string n) = byte_size_to_string n"
proof (rule trim_id)
  obtain unit per where u: "byte_size_unit n = (unit, per)" by fastforce
  have "list_all (\<lambda>c. \<not> is_whitespace c) unit"
    using byte_size_unit_listed[of n] by (auto simp: u UNITS_def BYTES_UNIT_def utf_def is_whitespace_def)
  moreover have "list_all (\<lambda>c. \<not> is_whitespace c) (show_nat m)" for m
    by (meson digit_not_whitespace list_all_iff show_nat_set)
  ultimately show "list_all (\<lambda>c. \<not> is_whitespace c) (byte_size_to_string n)"
    by (simp add: byte_size_to_string_def u)
qed

text \<open>
  What the round trip asks of the other crates: lower-casing leaves a chord alone, a size is read
  as printed, and a printed duration has no surrounding space, is not the word \<open>never\<close> and is read
  back as the same duration.
\<close>

definition texts_agree ::
    "(ustring \<Rightarrow> ustring) \<Rightarrow> (ustring \<Rightarrow> nat option) \<Rightarrow> (ustring \<Rightarrow> duration option) \<Rightarrow> (duration \<Rightarrow> ustring) \<Rightarrow> bool" where
  "texts_agree lowercase parse_size parse_duration format_duration \<longleftrightarrow>
     (\<forall>s. (\<forall>c \<in> set s. c < 128 \<and> \<not> is_ascii_uppercase c) \<longrightarrow> lowercase s = s) \<and>
     (\<forall>(unit, per) \<in> set (UNITS @ [(BYTES_UNIT, 1)]). \<forall>n. n * per \<le> 2 ^ 30 \<longrightarrow>
        parse_size (show_nat n @ unit) = Some (n * per)) \<and>
     (\<forall>d. is_positive d \<longrightarrow> trim (format_duration d) = format_duration d \<and>
        format_duration d \<noteq> NEVER_WORD \<and> parse_duration (format_duration d) = Some d)"

text \<open>The change that sets what is set already.\<close>

fun unchanged :: "settings \<Rightarrow> setting_key \<Rightarrow> setting_change" where
  "unchanged s DesktopNotifications = Change_DesktopNotifications (set_desktop_notifications s)"
| "unchanged s DefaultSize = Change_DefaultSize (set_default_size s)"
| "unchanged s Key_DetachKey = Change_DetachKey (set_detach_key s)"
| "unchanged s Key_LogMaxSize = Change_LogMaxSize (set_log_max_size s)"
| "unchanged s Scrollback = Change_Scrollback (set_scrollback s)"
| "unchanged s Key_ColorScheme = Change_ColorScheme (set_color_scheme s)"
| "unchanged s DefaultAutostart = Change_DefaultAutostart (set_default_autostart s)"
| "unchanged s DefaultRestart = Change_DefaultRestart (set_default_restart s)"
| "unchanged s DefaultStopSignal = Change_DefaultStopSignal (set_default_stop_signal s)"
| "unchanged s DefaultStopGrace = Change_DefaultStopGrace (set_default_stop_grace s)"
| "unchanged s Key_McpStackEdits = Change_McpStackEdits (set_mcp_stack_edits s)"
| "unchanged s Key_IdleStop = Change_IdleStop (set_idle_stop s)"

lemma unchanged_simps: "setting_change_key (unchanged s key) = key" "settings_with_change s (unchanged s key) = s"
  by (cases key; simp)+

lemma size_printed:
  assumes "PtySize_try_new (rows size') (cols size') = Inr size'"
  shows "parse_default_size (trim (pty_size_to_string size')) = Inr (Change_DefaultSize size')"
proof -
  from assms have "rows size' < 2 ^ 16" "cols size' < 2 ^ 16"
    by (auto simp: PtySize_try_new_def Rows_try_new_def Cols_try_new_def split: option.splits if_splits)
  with assms show ?thesis
    by (simp add: trim_pty_size parse_default_size_def dimensions_printed)
qed

lemma duration_printed:
  assumes "texts_agree lc ps pd fd" "is_positive d"
  shows "positive_duration_from_str pd (fd d) = Inr d" "trim (fd d) = fd d" "fd d \<noteq> NEVER_WORD"
    and "pd (fd d) = Some d"
  using assms by (auto simp: texts_agree_def positive_duration_from_str_def PositiveDuration_try_new_def)

lemma idle_stop_printed:
  assumes "texts_agree lc ps pd fd" "case i of Never \<Rightarrow> True | After d \<Rightarrow> is_positive d"
  shows "idle_stop_from_str pd (idle_stop_to_string fd i) = Inr i"
    and "trim (idle_stop_to_string fd i) = idle_stop_to_string fd i"
  using assms duration_printed[OF assms(1)]
  by (cases i; simp add: idle_stop_from_str_def idle_stop_to_string_def positive_duration_to_string_def
      NEVER_WORD_def utf_def trim_id is_whitespace_def)+

lemma parse_unchanged:
  assumes agree: "texts_agree lc ps pd fd" and ok: "settings_ok s"
  shows "SettingChange_parse lc ps pd key (value_text fd s key) = Inr (unchanged s key)"
proof (cases key)
  case DefaultSize
  with ok show ?thesis by (simp add: SettingChange_parse_def settings_ok_def size_printed)
next
  case Key_DetachKey
  have "lc (set_detach_key s) = set_detach_key s" "trim (set_detach_key s) = set_detach_key s"
    using agree ok detach_chord_chars[of "set_detach_key s"]
    by (auto simp: texts_agree_def settings_ok_def list_all_iff intro!: trim_id)
  with ok Key_DetachKey show ?thesis
    by (simp add: SettingChange_parse_def settings_ok_def detach_key_printed)
next
  case Key_LogMaxSize
  have "log_max_size_from_str ps (byte_size_to_string (set_log_max_size s)) = Inr (set_log_max_size s)"
    using agree ok unfolding texts_agree_def settings_ok_def
    by (intro log_max_size_printed[of ps "set_log_max_size s"]) auto
  with Key_LogMaxSize show ?thesis by (simp add: SettingChange_parse_def trim_byte_size)
next
  case Scrollback
  have "set_scrollback s < 2 ^ 64" using ok by (simp add: settings_ok_def MAX_SCROLLBACK_def)
  with ok Scrollback show ?thesis
    by (simp add: SettingChange_parse_def parse_as_Inr_iff settings_ok_def scrollback_from_str_def
        parse_uint_show ScrollbackLines_try_new_def)
next
  case DefaultStopGrace
  have "is_positive (set_default_stop_grace s)"
    using ok by (simp add: settings_ok_def is_grace_def is_positive_def)
  with ok DefaultStopGrace duration_printed[OF agree this] show ?thesis
    by (simp add: SettingChange_parse_def settings_ok_def stop_grace_from_str_def stop_grace_to_string_def
        StopGrace_try_new_def)
next
  case Key_IdleStop
  with ok idle_stop_printed[OF agree, of "set_idle_stop s"] show ?thesis
    by (simp add: SettingChange_parse_def settings_ok_def)
next
  case DesktopNotifications
  then show ?thesis by (simp add: SettingChange_parse_def parse_as_Inr_iff bool_printed)
next
  case DefaultAutostart
  then show ?thesis by (simp add: SettingChange_parse_def parse_as_Inr_iff bool_printed)
qed (simp_all add: SettingChange_parse_def color_scheme_choice.parse_choice_Inr_iff
    color_scheme_choice.names_trimmed mcp_edits_choice.parse_choice_Inr_iff mcp_edits_choice.names_trimmed
    restart_choice.parse_choice_Inr_iff restart_choice.names_trimmed
    stop_signal_choice.parse_choice_Inr_iff stop_signal_choice.names_trimmed)

text \<open>C34. A setting a user sees can be typed back: the text of every setting is read as a change of
  that setting which leaves the settings as they are.\<close>

theorem setting_text_round_trip:
  assumes "texts_agree lowercase parse_size parse_duration format_duration" "settings_ok s"
  shows "\<exists>change. SettingChange_parse lowercase parse_size parse_duration key (value_text format_duration s key) =
       Inr change \<and> setting_change_key change = key \<and> settings_with_change s change = s"
  using parse_unchanged[OF assms] unchanged_simps by blast

text \<open>Functions that agree: sizes as they are printed and durations in nanoseconds.\<close>

definition nanos_text :: "duration \<Rightarrow> ustring" where
  "nanos_text d = show_nat d @ utf ''ns''"

definition nanos_from_text :: "ustring \<Rightarrow> duration option" where
  "nanos_from_text s =
     (if dropWhile is_ascii_digit s = utf ''ns'' \<and> takeWhile is_ascii_digit s \<noteq> []
      then Some (digits_value 0 (takeWhile is_ascii_digit s)) else None)"

lemma nanos_text_agrees: "texts_agree id exact_size nanos_from_text nanos_text"
proof -
  have digits: "takeWhile is_ascii_digit (show_nat d @ utf ''ns'') = show_nat d"
    "dropWhile is_ascii_digit (show_nat d @ utf ''ns'') = utf ''ns''" for d
    using show_nat_digits[of d] by (auto simp: takeWhile_append dropWhile_append list_all_iff utf_def is_ascii_digit_def)
  have "trim (nanos_text d) = nanos_text d" for d
  proof (rule trim_id)
    show "list_all (\<lambda>c. \<not> is_whitespace c) (nanos_text d)"
      using show_nat_set[of _ d] digit_not_whitespace
      by (auto simp: nanos_text_def list_all_iff utf_def is_whitespace_def)
  qed
  moreover have "nanos_text d \<noteq> NEVER_WORD" for d
  proof
    assume "nanos_text d = NEVER_WORD"
    then have "takeWhile is_ascii_digit (nanos_text d) = []"
      by (simp add: NEVER_WORD_def utf_def is_ascii_digit_def)
    then show False by (simp add: nanos_text_def digits)
  qed
  ultimately show ?thesis
    using exact_size_printed
    by (auto simp: texts_agree_def nanos_from_text_def nanos_text_def digits simp del: set_append)
qed

theorem setting_text_round_trip_witness:
  "\<exists>change. SettingChange_parse id exact_size nanos_from_text Key_IdleStop
       (value_text nanos_text default_settings Key_IdleStop) = Inr change \<and>
     settings_with_change default_settings change = default_settings"
  using setting_text_round_trip[OF nanos_text_agrees default_settings_ok, of Key_IdleStop] by blast

end
