(* ===== verification/Coordination.thy ===== *)
theory Coordination
  imports Values
begin

text \<open>
  What agents share: \<open>muster-domain/src/coordination/\<close>. Authors and agent identities, the texts of
  notes, keys, titles and lock names, leases (the claim on a todo and a lock both expire the same way), todos
  with their claims and dependencies, and pages of entries.

  Times are \<open>u64\<close> seconds. The random session name of an agent without a name
  is an argument of \<open>AgentId_resolve\<close>.
\<close>

section \<open>Authors and agents\<close>

definition HUMAN_LABEL :: ustring where
  "HUMAN_LABEL = utf ''human''"

definition DEFAULT_AGENT_LABEL :: ustring where
  "DEFAULT_AGENT_LABEL = utf ''agent''"

datatype author = Human | Agent ustring

definition author_agent :: "ustring \<Rightarrow> author" where
  "author_agent name =
     (let trimmed = trim name in
      if trimmed = [] \<or> eq_ignore_ascii_case trimmed HUMAN_LABEL then Agent DEFAULT_AGENT_LABEL
      else Agent trimmed)"

definition is_human :: "author \<Rightarrow> bool" where
  "is_human self \<longleftrightarrow> self = Human"

datatype blank_author = BlankAuthor

definition from_label :: "ustring \<Rightarrow> blank_author + author" where
  "from_label lab =
     (let trimmed = trim lab in
      if trimmed = [] then Inl BlankAuthor
      else if eq_ignore_ascii_case trimmed HUMAN_LABEL then Inr Human
      else Inr (author_agent trimmed))"

fun label :: "author \<Rightarrow> ustring" where
  "label Human = HUMAN_LABEL"
| "label (Agent name) = name"

definition MUSTER_AGENT_ENV :: ustring where
  "MUSTER_AGENT_ENV = utf ''MUSTER_AGENT''"

definition HERDR_PANE_ENV :: ustring where
  "HERDR_PANE_ENV = utf ''HERDR_PANE_ID''"

definition HERDR_PANE_PREFIX :: ustring where
  "HERDR_PANE_PREFIX = utf ''herdr-pane-''"

definition SESSION_PREFIX :: ustring where
  "SESSION_PREFIX = utf ''session-''"

definition PART_MAX_CHARS :: nat where
  "PART_MAX_CHARS = 64"

definition SLUG_FILL :: uchar where
  "SLUG_FILL = chr (CHR ''-'')"

definition is_part_char :: "uchar \<Rightarrow> bool" where
  "is_part_char c \<longleftrightarrow> is_ascii_alphanumeric c \<or> c \<in> set (utf ''._-:'')"

definition slug :: "ustring \<Rightarrow> ustring option" where
  "slug raw =
     (let filled = map (\<lambda>c. if is_part_char c then c else SLUG_FILL) (take PART_MAX_CHARS (trim raw));
          part = trim_matches SLUG_FILL filled
      in if part \<noteq> [] \<and> \<not> eq_ignore_ascii_case part HUMAN_LABEL then Some part else None)"

text \<open>\<open>hex\<close> is the text of the fresh UUID of which the session name takes six digits.\<close>

definition session_name :: "ustring \<Rightarrow> ustring" where
  "session_name hex = SESSION_PREFIX @ take 6 hex"

definition AgentId_resolve ::
    "ustring \<Rightarrow> ustring option \<Rightarrow> (ustring \<Rightarrow> ustring option) \<Rightarrow> ustring option \<Rightarrow> ustring" where
  "AgentId_resolve hex flag env client =
     (let herdr = map_option (\<lambda>pane. HERDR_PANE_PREFIX @ pane) (Option.bind (env HERDR_PANE_ENV) slug);
          agent = unwrap_or
                    (or_else (or_else (Option.bind flag slug) (Option.bind (env MUSTER_AGENT_ENV) slug)) herdr)
                    (session_name hex)
      in case Option.bind client slug of
           Some c \<Rightarrow> c @ utf ''@'' @ agent
         | None \<Rightarrow> agent)"

definition agent_author :: "ustring \<Rightarrow> author" where
  "agent_author self = author_agent self"

section \<open>Texts\<close>

definition LOCK_NAME_MAX_CHARS :: nat where
  "LOCK_NAME_MAX_CHARS = 64"

definition is_lock_name :: "ustring \<Rightarrow> bool" where
  "is_lock_name name \<longleftrightarrow>
     list_all (\<lambda>c. is_ascii_lowercase c \<or> is_ascii_digit c \<or> c \<in> set (utf ''._-'')) name"

definition LockName_try_new :: "ustring \<Rightarrow> nutype_error + ustring" where
  "LockName_try_new = trimmed_text (Some LOCK_NAME_MAX_CHARS) is_lock_name"

definition LOCK_NOTE_MAX_CHARS :: nat where
  "LOCK_NOTE_MAX_CHARS = 200"

definition is_one_line :: "ustring \<Rightarrow> bool" where
  "is_one_line note \<longleftrightarrow> \<not> list_ex is_control note"

definition LockNote_try_new :: "ustring \<Rightarrow> nutype_error + ustring" where
  "LockNote_try_new = trimmed_text (Some LOCK_NOTE_MAX_CHARS) is_one_line"

definition KvKey_try_new :: "ustring \<Rightarrow> nutype_error + ustring" where
  "KvKey_try_new = trimmed_text (Some 128) (\<lambda>_. True)"

definition ScratchpadKey_try_new :: "ustring \<Rightarrow> nutype_error + ustring" where
  "ScratchpadKey_try_new = trimmed_text (Some 128) (\<lambda>_. True)"

definition TodoId_try_new :: "ustring \<Rightarrow> nutype_error + ustring" where
  "TodoId_try_new = trimmed_text (Some 64) (\<lambda>_. True)"

definition TodoTitle_try_new :: "ustring \<Rightarrow> nutype_error + ustring" where
  "TodoTitle_try_new = trimmed_text None (\<lambda>_. True)"

text \<open>Values and note bodies are kept as they are typed, up to a length.\<close>

definition bounded_text :: "nat \<Rightarrow> ustring \<Rightarrow> nutype_error + ustring" where
  "bounded_text cap raw = (if length raw \<le> cap then Inr raw else Inl LenCharMaxViolated)"

definition KvValue_try_new :: "ustring \<Rightarrow> nutype_error + ustring" where
  "KvValue_try_new = bounded_text 4096"

definition NoteBody_try_new :: "ustring \<Rightarrow> nutype_error + ustring" where
  "NoteBody_try_new = bounded_text 65536"

datatype new_todo_title_error = Title_Blank | Title_TooLong

definition TODO_TITLE_MAX_CHARS :: nat where
  "TODO_TITLE_MAX_CHARS = 500"

definition NewTodoTitle_try_new :: "ustring \<Rightarrow> new_todo_title_error + ustring" where
  "NewTodoTitle_try_new raw =
     and_then (map_err (\<lambda>_. Title_Blank) (TodoTitle_try_new raw)) (\<lambda>title.
       if TODO_TITLE_MAX_CHARS < length title then Inl Title_TooLong else Inr title)"

definition TODO_DEPS_MAX :: nat where
  "TODO_DEPS_MAX = 32"

definition TodoDeps_try_new :: "ustring list \<Rightarrow> nutype_error + ustring list" where
  "TodoDeps_try_new deps = (if length deps \<le> TODO_DEPS_MAX then Inr deps else Inl PredicateViolated)"

interpretation lock_name: validated_text trim "text_ok (Some LOCK_NAME_MAX_CHARS) is_lock_name" LockName_try_new
  unfolding LockName_try_new_def by (rule validated_trimmed_text)

interpretation lock_note: validated_text trim "text_ok (Some LOCK_NOTE_MAX_CHARS) is_one_line" LockNote_try_new
  unfolding LockNote_try_new_def by (rule validated_trimmed_text)

interpretation todo_id: validated_text trim "text_ok (Some 64) (\<lambda>_. True)" TodoId_try_new
  unfolding TodoId_try_new_def by (rule validated_trimmed_text)

interpretation todo_title: validated_text trim "text_ok None (\<lambda>_. True)" TodoTitle_try_new
  unfolding TodoTitle_try_new_def by (rule validated_trimmed_text)

section \<open>Leases\<close>

text \<open>
  The claim on a todo and a lock are both leases: held while the clock has not
  passed a last second, with the time left counted from the clock.
\<close>

locale lease =
  fixes last_second :: "'a \<Rightarrow> epoch_seconds"
    and live :: "'a \<Rightarrow> epoch_seconds \<Rightarrow> bool"
    and left_of :: "'a \<Rightarrow> epoch_seconds \<Rightarrow> duration"
  assumes live_iff: "live x now \<longleftrightarrow> now \<le> last_second x"
    and left_of: "left_of x now = secs_until now (last_second x)"
begin

lemma lapsed_stays_lapsed: "\<not> live x now \<Longrightarrow> now \<le> later \<Longrightarrow> \<not> live x later"
  by (auto simp: live_iff)

lemma left_of_seconds: "as_secs (left_of x now) = unat (last_second x) - unat now"
  by (simp add: left_of secs_until_def unat_saturating_sub)

lemma live_until_left: "live x now \<Longrightarrow> unat now + as_secs (left_of x now) = unat (last_second x)"
  by (simp add: live_iff left_of_seconds word_le_nat_alt)

lemma lapsed_has_nothing_left: "\<not> live x now \<Longrightarrow> as_secs (left_of x now) = 0"
  by (simp add: live_iff left_of_seconds word_le_nat_alt)

end

definition LOCK_TTL_MAX :: duration where
  "LOCK_TTL_MAX = from_secs (60 * 60)"

definition LockTtl_try_new :: "duration \<Rightarrow> duration option" where
  "LockTtl_try_new ttl = (if 1 \<le> as_secs ttl \<and> as_secs ttl \<le> as_secs LOCK_TTL_MAX then Some ttl else None)"

definition TODO_LEASE_DEFAULT :: duration where
  "TODO_LEASE_DEFAULT = from_secs (30 * 60)"

definition TODO_LEASE_MAX :: duration where
  "TODO_LEASE_MAX = from_secs (8 * 60 * 60)"

definition TodoLease_try_new :: "duration \<Rightarrow> duration option" where
  "TodoLease_try_new l = (if 1 \<le> as_secs l \<and> as_secs l \<le> as_secs TODO_LEASE_MAX then Some l else None)"

record lock =
  lock_name :: ustring
  lock_owner :: author
  lock_note :: "ustring option"
  lock_expires_at :: epoch_seconds

definition lock_is_live :: "lock \<Rightarrow> epoch_seconds \<Rightarrow> bool" where
  "lock_is_live self now \<longleftrightarrow> now \<le> lock_expires_at self"

definition lock_expires_in :: "lock \<Rightarrow> epoch_seconds \<Rightarrow> duration" where
  "lock_expires_in self now = secs_until now (lock_expires_at self)"

record todo_claim =
  claim_owner :: author
  claimed_until :: epoch_seconds

definition claim_fresh :: "author \<Rightarrow> duration \<Rightarrow> epoch_seconds \<Rightarrow> todo_claim" where
  "claim_fresh owner l now = \<lparr>claim_owner = owner, claimed_until = secs_after now l\<rparr>"

definition claim_is_live :: "todo_claim \<Rightarrow> epoch_seconds \<Rightarrow> bool" where
  "claim_is_live self now \<longleftrightarrow> now \<le> claimed_until self"

definition claim_expires_in :: "todo_claim \<Rightarrow> epoch_seconds \<Rightarrow> duration" where
  "claim_expires_in self now = secs_until now (claimed_until self)"

interpretation lock_lease: lease lock_expires_at lock_is_live lock_expires_in
  by unfold_locales (simp_all add: lock_is_live_def lock_expires_in_def)

interpretation claim_lease: lease claimed_until claim_is_live claim_expires_in
  by unfold_locales (simp_all add: claim_is_live_def claim_expires_in_def)

datatype lock_attempt =
    Acquired duration
  | Attempt_HeldBy author "ustring option" duration
  | SessionEnded

datatype lock_release = Released | Release_HeldBy author | NotHeld

record lock_holder =
  holder_author :: author
  holder_session :: ustring

definition LOCKS_PER_SESSION_MAX :: nat where
  "LOCKS_PER_SESSION_MAX = 32"

section \<open>Todos\<close>

datatype todo_status = TodoPending | InProgress | Done

fun todo_status_to_string :: "todo_status \<Rightarrow> ustring" where
  "todo_status_to_string TodoPending = utf ''pending''"
| "todo_status_to_string InProgress = utf ''in-progress''"
| "todo_status_to_string Done = utf ''done''"

definition todo_statuses :: "todo_status list" where
  "todo_statuses = [TodoPending, InProgress, Done]"

interpretation todo_status_choice: choice todo_statuses todo_status_to_string
proof
  show "x \<in> set todo_statuses" for x by (cases x) (auto simp: todo_statuses_def)
  show "inj todo_status_to_string"
    by (rule injI, case_tac x; case_tac y) (simp_all add: utf_def)
  show "trim (todo_status_to_string x) = todo_status_to_string x" for x
    by (rule trim_id, cases x) (simp_all add: utf_def is_whitespace_def)
qed

datatype todo_claim_state = Unclaimed | Held author duration | Stale author

record todo =
  todo_id :: ustring
  todo_title :: ustring
  todo_status :: todo_status
  todo_deps :: "ustring list"
  todo_claim :: "todo_claim option"
  todo_author :: author
  todo_updated_at :: epoch_seconds

definition claim_state :: "todo \<Rightarrow> epoch_seconds \<Rightarrow> todo_claim_state" where
  "claim_state self now =
     (case todo_claim self of
        None \<Rightarrow> Unclaimed
      | Some claim \<Rightarrow>
          if claim_is_live claim now then Held (claim_owner claim) (claim_expires_in claim now)
          else Stale (claim_owner claim))"

definition effective_status :: "todo \<Rightarrow> epoch_seconds \<Rightarrow> todo_status" where
  "effective_status self now =
     (case claim_state self now of
        Stale _ \<Rightarrow> TodoPending
      | Unclaimed \<Rightarrow> todo_status self
      | Held _ _ \<Rightarrow> todo_status self)"

definition is_claimable :: "todo \<Rightarrow> epoch_seconds \<Rightarrow> (ustring \<Rightarrow> bool option) \<Rightarrow> bool" where
  "is_claimable self now is_done \<longleftrightarrow>
     effective_status self now = TodoPending \<and> list_all (\<lambda>dep. unwrap_or (is_done dep) True) (todo_deps self)"

record todo_change =
  tc_title :: "ustring option"
  tc_status :: "todo_status option"
  tc_force :: bool

datatype todo_update = Updated todo | Update_HeldBy author duration | Update_Missing

definition changed_todo :: "todo \<Rightarrow> author \<Rightarrow> todo_change \<Rightarrow> epoch_seconds \<Rightarrow> bool \<Rightarrow> todo" where
  "changed_todo self me change now taken_over =
     (let status = unwrap_or (tc_status change) (todo_status self);
          mine = (case todo_claim self of
                    None \<Rightarrow> None
                  | Some claim \<Rightarrow> if claim_owner claim = me \<and> claim_is_live claim now then Some claim else None);
          claim = (case status of
                     InProgress \<Rightarrow>
                       if mine \<noteq> None then mine
                       else if taken_over \<or> tc_status change = Some InProgress
                       then Some (claim_fresh me TODO_LEASE_DEFAULT now)
                       else todo_claim self
                   | TodoPending \<Rightarrow> None
                   | Done \<Rightarrow> None)
      in \<lparr>todo_id = todo_id self, todo_title = unwrap_or (tc_title change) (todo_title self),
          todo_status = status, todo_deps = todo_deps self, todo_claim = claim, todo_author = me,
          todo_updated_at = now\<rparr>)"

definition changed :: "todo \<Rightarrow> author \<Rightarrow> todo_change \<Rightarrow> epoch_seconds \<Rightarrow> todo_update" where
  "changed self me change now =
     (case claim_state self now of
        Held owner expires_in \<Rightarrow>
          if owner \<noteq> me then
            (if \<not> tc_force change then Update_HeldBy owner expires_in
             else Updated (changed_todo self me change now True))
          else Updated (changed_todo self me change now False)
      | Unclaimed \<Rightarrow> Updated (changed_todo self me change now False)
      | Stale _ \<Rightarrow> Updated (changed_todo self me change now False))"

definition claimable :: "todo list \<Rightarrow> epoch_seconds \<Rightarrow> todo list" where
  "claimable todos now =
     (let is_done = map_of (rev (map (\<lambda>todo. (todo_id todo, todo_status todo = Done)) todos))
      in filter (\<lambda>todo. is_claimable todo now is_done) todos)"

datatype claim = Claimed todo | Claim_HeldBy author duration | Unavailable todo | NothingClaimable | Claim_Missing

section \<open>Pages\<close>

record 'a entry_page =
  page_entries :: "'a list"
  page_next :: "int option"

definition page_of :: "(int \<times> 'a) list \<Rightarrow> nat \<Rightarrow> 'a entry_page" where
  "page_of fetched limit =
     (let more = limit < length fetched;
          kept = take limit fetched;
          next = (if more \<and> kept \<noteq> [] then Some (fst (last kept)) else None)
      in \<lparr>page_entries = map snd kept, page_next = next\<rparr>)"

section \<open>Properties\<close>

lemma trim_matches_edges: "trimmed_with (\<lambda>d. d = c) (trim_matches c s)"
  by (simp add: trim_matches_def trimmed_trim_with)

lemma slug_Some:
  assumes "slug raw = Some part"
  shows "part \<noteq> [] \<and> list_all is_part_char part \<and> \<not> eq_ignore_ascii_case part HUMAN_LABEL \<and>
    length part \<le> PART_MAX_CHARS"
proof -
  define filled where
    "filled = map (\<lambda>c. if is_part_char c then c else SLUG_FILL) (take PART_MAX_CHARS (trim raw))"
  have part: "part = trim_matches SLUG_FILL filled" "part \<noteq> []" "\<not> eq_ignore_ascii_case part HUMAN_LABEL"
    using assms unfolding slug_def filled_def[symmetric] Let_def by (auto split: if_splits)
  have "is_part_char SLUG_FILL"
    by (simp add: is_part_char_def SLUG_FILL_def utf_def chr_def)
  then have "\<forall>c \<in> set filled. is_part_char c" "length filled \<le> PART_MAX_CHARS"
    by (auto simp: filled_def)
  moreover have "set part \<subseteq> set filled" "length part \<le> length filled"
    unfolding part(1) trim_matches_def by (rule set_trim_with, rule length_trim_with)
  ultimately show ?thesis
    using part by (auto simp: list_all_iff)
qed

lemma part_char_not_whitespace: "is_part_char c \<or> c = 64 \<Longrightarrow> \<not> is_whitespace c"
  by (auto simp: is_part_char_def char_classes utf_def)

lemma human_chars: "eq_ignore_ascii_case s HUMAN_LABEL \<Longrightarrow> length s = 5 \<and> 64 \<notin> set s \<and> 45 \<notin> set s"
proof -
  assume "eq_ignore_ascii_case s HUMAN_LABEL"
  then have eq: "map to_ascii_lowercase s = [104, 117, 109, 97, 110]"
    by (simp add: eq_ignore_ascii_case_def HUMAN_LABEL_def utf_def to_ascii_lowercase_def is_ascii_uppercase_def)
  have "length s = 5"
    using arg_cong[OF eq, of length] by simp
  moreover have "to_ascii_lowercase c \<in> {104, 117, 109, 97, 110}" if "c \<in> set s" for c
    using that arg_cong[OF eq, of set] by auto
  then have "64 \<notin> set s" "45 \<notin> set s"
    by (fastforce simp: to_ascii_lowercase_def is_ascii_uppercase_def)+
  ultimately show ?thesis by blast
qed

lemma author_agent_kept:
  "s \<noteq> [] \<Longrightarrow> list_all (\<lambda>c. is_part_char c \<or> c = 64) s \<Longrightarrow> \<not> eq_ignore_ascii_case s HUMAN_LABEL \<Longrightarrow>
   author_agent s = Agent s \<and> from_label s = Inr (Agent s)"
  using trim_id[of s] by (auto simp: author_agent_def from_label_def list_all_iff part_char_not_whitespace)

text \<open>The name without its client: a slug, a herdr pane or a fresh session.\<close>

definition agent_name :: "ustring \<Rightarrow> ustring option \<Rightarrow> (ustring \<Rightarrow> ustring option) \<Rightarrow> ustring" where
  "agent_name hex flag env =
     unwrap_or (or_else (or_else (Option.bind flag slug) (Option.bind (env MUSTER_AGENT_ENV) slug))
       (map_option (\<lambda>pane. HERDR_PANE_PREFIX @ pane) (Option.bind (env HERDR_PANE_ENV) slug))) (session_name hex)"

lemma agent_name_cases:
  obtains (slugged) raw where "slug raw = Some (agent_name hex flag env)"
  | (herdr) raw pane where "slug raw = Some pane" "agent_name hex flag env = HERDR_PANE_PREFIX @ pane"
  | (session) "agent_name hex flag env = session_name hex"
proof -
  have via: "\<exists>raw. slug raw = Some p" if "Option.bind x slug = Some p" for x p
    using that by (cases x) auto
  show ?thesis
    using that via unfolding agent_name_def
    by (cases "Option.bind flag slug"; cases "Option.bind (env MUSTER_AGENT_ENV) slug";
        cases "Option.bind (env HERDR_PANE_ENV) slug") fastforce+
qed

lemma agent_name_safe:
  assumes hex: "list_all is_part_char hex"
  shows "agent_name hex flag env \<noteq> [] \<and> list_all is_part_char (agent_name hex flag env) \<and>
    \<not> eq_ignore_ascii_case (agent_name hex flag env) HUMAN_LABEL"
proof (cases hex flag env rule: agent_name_cases)
  case slugged
  then show ?thesis using slug_Some by blast
next
  case (herdr raw pane)
  then have "\<not> eq_ignore_ascii_case (agent_name hex flag env) HUMAN_LABEL"
    using human_chars[of "agent_name hex flag env"] by (auto simp: HERDR_PANE_PREFIX_def utf_def)
  then show ?thesis
    using slug_Some[OF herdr(1)] herdr(2) by (simp add: HERDR_PANE_PREFIX_def utf_def is_part_char_def char_classes)
next
  case session
  then have "\<not> eq_ignore_ascii_case (agent_name hex flag env) HUMAN_LABEL"
    using human_chars[of "agent_name hex flag env"] by (auto simp: session_name_def SESSION_PREFIX_def utf_def)
  then show ?thesis
    using session hex by (auto simp: session_name_def SESSION_PREFIX_def utf_def is_part_char_def char_classes
        list_all_iff dest: in_set_takeD)
qed

text \<open>C13. An agent never passes for the human, nor for an anonymous agent: whatever the flag, the
  environment and the client say, the resolved identity is a non-empty text of letters, digits and
  \<open>._-:@\<close>, its author is exactly that agent, and the label stored for the author reads back as the
  same agent. The hypothesis is that a UUID is printed with such characters.\<close>

theorem agent_identity_is_an_agent:
  assumes hex: "list_all is_part_char hex"
  shows "AgentId_resolve hex flag env client \<noteq> [] \<and>
    list_all (\<lambda>c. is_part_char c \<or> c = 64) (AgentId_resolve hex flag env client) \<and>
    agent_author (AgentId_resolve hex flag env client) = Agent (AgentId_resolve hex flag env client) \<and>
    from_label (label (agent_author (AgentId_resolve hex flag env client))) =
      Inr (Agent (AgentId_resolve hex flag env client))"
proof -
  have "AgentId_resolve hex flag env client =
      (case Option.bind client slug of
         Some c \<Rightarrow> c @ utf ''@'' @ agent_name hex flag env | None \<Rightarrow> agent_name hex flag env)"
    unfolding AgentId_resolve_def agent_name_def Let_def ..
  then have "AgentId_resolve hex flag env client \<noteq> [] \<and>
      list_all (\<lambda>c. is_part_char c \<or> c = 64) (AgentId_resolve hex flag env client) \<and>
      \<not> eq_ignore_ascii_case (AgentId_resolve hex flag env client) HUMAN_LABEL"
    using slug_Some human_chars agent_name_safe[OF hex, of flag env]
    by (cases client) (auto simp: utf_def list_all_iff split: option.splits, fastforce+)
  then show ?thesis
    using author_agent_kept by (simp add: agent_author_def)
qed

theorem agent_identity_is_an_agent_witness:
  "list_all is_part_char (utf ''0123456789abcdef'') \<and>
   agent_author (AgentId_resolve (utf ''0123456789abcdef'') (Some (utf '' Human '')) (\<lambda>_. None) (Some (utf ''claude code''))) =
     Agent (utf ''claude-code@session-012345'')"
proof -
  have hex: "list_all is_part_char (utf ''0123456789abcdef'')"
    by (simp add: utf_def is_part_char_def char_classes)
  moreover have "AgentId_resolve (utf ''0123456789abcdef'') (Some (utf '' Human '')) (\<lambda>_. None)
      (Some (utf ''claude code'')) = utf ''claude-code@session-012345''"
    by (simp add: AgentId_resolve_def slug_def utf_def text_simps char_classes is_part_char_def SLUG_FILL_def chr_def
        PART_MAX_CHARS_def HUMAN_LABEL_def session_name_def SESSION_PREFIX_def Let_def)
  ultimately show ?thesis
    using agent_identity_is_an_agent[OF hex, of "Some (utf '' Human '')" "\<lambda>_. None" "Some (utf ''claude code'')"]
    by simp
qed

text \<open>A todo is well formed when only a todo in progress is claimed.\<close>

definition todo_ok :: "todo \<Rightarrow> bool" where
  "todo_ok t \<longleftrightarrow> (todo_claim t \<noteq> None \<longrightarrow> todo_status t = InProgress)"

definition held_by_other :: "todo \<Rightarrow> author \<Rightarrow> epoch_seconds \<Rightarrow> bool" where
  "held_by_other t me now \<longleftrightarrow> (\<exists>c. todo_claim t = Some c \<and> claim_is_live c now \<and> claim_owner c \<noteq> me)"

lemma claim_state_Held:
  "claim_state t now = Held owner left \<longleftrightarrow>
     (\<exists>c. todo_claim t = Some c \<and> claim_is_live c now \<and> claim_owner c = owner \<and> claim_expires_in c now = left)"
  by (auto simp: claim_state_def split: option.splits)

lemma changed_Updated:
  "changed t me change now = Updated t' \<longleftrightarrow>
     t' = changed_todo t me change now (held_by_other t me now) \<and> (held_by_other t me now \<longrightarrow> tc_force change)"
  by (auto simp: changed_def held_by_other_def claim_state_def split: option.splits if_splits)

lemma changed_HeldBy:
  "changed t me change now = Update_HeldBy owner left \<longleftrightarrow>
     \<not> tc_force change \<and> owner \<noteq> me \<and> claim_state t now = Held owner left"
  by (auto simp: changed_def split: todo_claim_state.splits)

lemma changed_todo_claim:
  "todo_claim (changed_todo t me change now taken) = Some c \<Longrightarrow>
     todo_status (changed_todo t me change now taken) = InProgress \<and>
     (claim_owner c = me \<and> (claim_is_live c now \<or> c = claim_fresh me TODO_LEASE_DEFAULT now) \<or>
      todo_claim t = Some c \<and> \<not> taken \<and> tc_status change \<noteq> Some InProgress)"
  by (auto simp: changed_todo_def Let_def claim_fresh_def split: todo_status.splits option.splits if_splits)

lemma fresh_is_live: "claim_is_live (claim_fresh me l now) now"
  by (simp add: claim_is_live_def claim_fresh_def secs_after_def saturating_add_ge)

text \<open>C12. Nobody's work is taken silently: an update of a todo is refused exactly when someone else
  holds a live claim on it and the change is not forced, and the refusal names
  that holder; an update that goes through keeps the todo's id and dependencies, keeps claims on todos
  in progress only, and leaves no live claim but the caller's.\<close>

theorem todo_update_respects_claims:
  assumes "todo_ok t"
  shows "(case changed t me change now of
      Update_HeldBy owner left \<Rightarrow>
        \<not> tc_force change \<and>
        (\<exists>c. todo_claim t = Some c \<and> claim_is_live c now \<and> claim_owner c = owner \<and> owner \<noteq> me)
    | Updated t' \<Rightarrow>
        (held_by_other t me now \<longrightarrow> tc_force change) \<and> \<not> held_by_other t' me now \<and> todo_ok t' \<and>
        todo_id t' = todo_id t \<and> todo_deps t' = todo_deps t \<and> todo_author t' = me \<and>
        (tc_status change = Some InProgress \<longrightarrow>
           (\<exists>c. todo_claim t' = Some c \<and> claim_owner c = me \<and> claim_is_live c now))
    | Update_Missing \<Rightarrow> False)"
proof (cases "changed t me change now")
  case (Updated t')
  then have t': "t' = changed_todo t me change now (held_by_other t me now)"
    and forced: "held_by_other t me now \<longrightarrow> tc_force change"
    by (simp_all add: changed_Updated)
  note claims = changed_todo_claim[of t me change now "held_by_other t me now", folded t']
  have free: "\<not> held_by_other t' me now"
  proof
    assume other: "held_by_other t' me now"
    then obtain c where c: "todo_claim t' = Some c" "claim_is_live c now" "claim_owner c \<noteq> me"
      by (auto simp: held_by_other_def)
    then show False
      using claims[OF c(1)] by (auto simp: held_by_other_def claim_fresh_def)
  qed
  have claimed: "\<exists>c. todo_claim t' = Some c \<and> claim_owner c = me \<and> claim_is_live c now"
    if "tc_status change = Some InProgress"
    using that fresh_is_live by (auto simp: t' changed_todo_def Let_def claim_fresh_def split: option.splits)
  have "todo_ok t'"
    using claims by (auto simp: todo_ok_def)
  moreover have "todo_id t' = todo_id t" "todo_deps t' = todo_deps t" "todo_author t' = me"
    by (simp_all add: t' changed_todo_def Let_def)
  ultimately show ?thesis
    using free claimed forced by (simp add: Updated)
next
  case (Update_HeldBy owner left)
  then have "\<not> tc_force change \<and> owner \<noteq> me \<and> claim_state t now = Held owner left"
    using changed_HeldBy[of t me change now owner left] by blast
  then show ?thesis
    unfolding Update_HeldBy by (auto simp: claim_state_Held)
next
  case Update_Missing
  then show ?thesis
    by (simp add: changed_def split: todo_claim_state.splits if_splits)
qed

definition sample_todo :: todo where
  "sample_todo =
     \<lparr>todo_id = utf ''t1'', todo_title = utf ''ship'', todo_status = InProgress, todo_deps = [],
      todo_claim = Some \<lparr>claim_owner = Agent (utf ''a''), claimed_until = 100\<rparr>, todo_author = Human, todo_updated_at = 0\<rparr>"

theorem todo_update_respects_claims_witness:
  "\<exists>left. changed sample_todo Human \<lparr>tc_title = None, tc_status = Some Done, tc_force = False\<rparr> 50 =
     Update_HeldBy (Agent (utf ''a'')) left"
proof -
  have "todo_ok sample_todo"
    by (simp add: todo_ok_def sample_todo_def)
  moreover have "held_by_other sample_todo Human 50"
    by (simp add: held_by_other_def sample_todo_def claim_is_live_def)
  ultimately show ?thesis
    using todo_update_respects_claims[where t = sample_todo and me = Human and now = 50
        and change = "\<lparr>tc_title = None, tc_status = Some Done, tc_force = False\<rparr>"]
    by (auto simp: sample_todo_def split: todo_update.splits)
qed

end
