(* ===== verification/CoordinationStore.thy ===== *)
theory CoordinationStore
  imports Config Coordination
begin

text \<open>
  Locks and todos as the database holds them: \<open>muster-store/src/lock_rows.rs\<close> and the todo part of
  \<open>coordination_rows.rs\<close>. A table is the list of its rows in the order of their row ids; each SQL statement of
  the source is the list operation it denotes, with its conditions written out, so a unique key, an \<open>ON CONFLICT\<close> clause or a
  comparison with a null owner behaves as in SQL. Every public operation runs
  inside one transaction, which is rolled back when it fails: an operation returns the new table only
  with a result. Failures of SQLite itself (a full disk, a busy database) roll back as well and are left out.

  A seconds column is a signed 64-bit integer, kept as an \<open>int\<close> with the clamp of \<open>epoch_param\<close>
  written out. The dependencies of a todo are stored as JSON text; the column is the list it encodes.
\<close>

section \<open>Columns\<close>

definition epoch_param :: "epoch_seconds \<Rightarrow> int" where
  "epoch_param at = (if uint at < 2 ^ 63 then uint at else 2 ^ 63 - 1)"

definition corrupt :: "ustring \<Rightarrow> ustring \<Rightarrow> config_error" where
  "corrupt subject reason = CorruptRow subject reason"

definition EMPTY :: ustring where "EMPTY = utf ''it is empty''"

definition TOO_LONG :: ustring where "TOO_LONG = utf ''it is longer than muster allows''"

definition OUT_OF_RANGE :: ustring where "OUT_OF_RANGE = utf ''it is out of range''"

definition UNKNOWN_VARIANT :: ustring where "UNKNOWN_VARIANT = utf ''it is not one muster knows''"

text \<open>The reason a validated text is refused; \<open>other\<close> is the sentence for its own predicate.\<close>

definition reason :: "ustring \<Rightarrow> nutype_error \<Rightarrow> ustring" where
  "reason other e =
     (case e of NotEmptyViolated \<Rightarrow> EMPTY | LenCharMaxViolated \<Rightarrow> TOO_LONG | PredicateViolated \<Rightarrow> other)"

definition epoch_from_secs :: "ustring \<Rightarrow> int \<Rightarrow> config_error + epoch_seconds" where
  "epoch_from_secs subject secs = (if 0 \<le> secs then Inr (of_int secs) else Inl (corrupt subject OUT_OF_RANGE))"

definition author_from :: "ustring \<Rightarrow> config_error + author" where
  "author_from lab = map_err (\<lambda>_. corrupt (utf ''author'') (utf ''author label must not be empty'')) (from_label lab)"

fun collect :: "('row \<Rightarrow> config_error + 'a) \<Rightarrow> 'row list \<Rightarrow> config_error + 'a list" where
  "collect f [] = Inr []"
| "collect f (r # rs) = and_then (f r) (\<lambda>x. and_then (collect f rs) (\<lambda>xs. Inr (x # xs)))"

definition pop :: "'a list \<Rightarrow> 'a option" where
  "pop xs = (if xs = [] then None else Some (last xs))"

section \<open>Locks\<close>

record lock_row =
  lr_project :: int
  lr_name :: ustring
  lr_owner :: ustring
  lr_session :: ustring
  lr_note :: "ustring option"
  lr_expires :: int

record lock_db =
  db_locks :: "lock_row list"
  db_ended :: "(ustring \<times> int) list"

definition lock_from_row :: "lock_row \<Rightarrow> config_error + lock" where
  "lock_from_row row =
     and_then (map_err (\<lambda>e. corrupt (utf ''lock name'')
         (reason (utf ''it holds a character other than a-z, 0-9, '' @ [39] @ utf ''.'' @ [39] @ utf '', '' @ [39] @
            utf ''_'' @ [39] @ utf '' or '' @ [39] @ utf ''-'' @ [39]) e))
       (LockName_try_new (lr_name row))) (\<lambda>name.
     and_then (author_from (lr_owner row)) (\<lambda>owner.
     and_then (case lr_note row of
                 None \<Rightarrow> Inr None
               | Some note \<Rightarrow> and_then (map_err (\<lambda>e. corrupt (utf ''lock note'')
                     (reason (utf ''it holds a control or format character'') e)) (LockNote_try_new note))
                   (\<lambda>note. Inr (Some note))) (\<lambda>note.
     and_then (epoch_from_secs (utf ''lock expiry'') (lr_expires row)) (\<lambda>at.
     Inr \<lparr>lock_name = name, lock_owner = owner, lock_note = note, lock_expires_at = at\<rparr>))))"

definition is_lock :: "int \<Rightarrow> ustring \<Rightarrow> lock_row \<Rightarrow> bool" where
  "is_lock project name row \<longleftrightarrow> lr_project row = project \<and> lr_name row = name"

definition is_mine :: "lock_holder \<Rightarrow> lock_row \<Rightarrow> bool" where
  "is_mine me row \<longleftrightarrow> lr_owner row = label (holder_author me) \<and> lr_session row = holder_session me"

definition find_lock :: "lock_db \<Rightarrow> int \<Rightarrow> ustring \<Rightarrow> config_error + lock option" where
  "find_lock db project name =
     and_then (collect lock_from_row (filter (is_lock project name) (db_locks db))) (\<lambda>found. Inr (pop found))"

definition held_by_another ::
    "lock_db \<Rightarrow> int \<Rightarrow> lock_holder \<Rightarrow> ustring \<Rightarrow> epoch_seconds \<Rightarrow> config_error + lock option" where
  "held_by_another db project me name now =
     and_then (collect lock_from_row
       (filter (\<lambda>row. is_lock project name row \<and> epoch_param now \<le> lr_expires row \<and> \<not> is_mine me row) (db_locks db)))
       (\<lambda>others. Inr (pop others))"

definition held_by :: "lock \<Rightarrow> epoch_seconds \<Rightarrow> lock_attempt" where
  "held_by holder now = Attempt_HeldBy (lock_owner holder) (lock_note holder) (lock_expires_in holder now)"

definition has_ended :: "lock_db \<Rightarrow> ustring \<Rightarrow> bool" where
  "has_ended db session \<longleftrightarrow> list_ex (\<lambda>(s, _). s = session) (db_ended db)"

definition other_live_locks :: "lock_db \<Rightarrow> int \<Rightarrow> lock_holder \<Rightarrow> ustring \<Rightarrow> epoch_seconds \<Rightarrow> nat" where
  "other_live_locks db project me name now =
     length (filter (\<lambda>row. lr_session row = holder_session me \<and> epoch_param now \<le> lr_expires row \<and>
       \<not> is_lock project name row) (db_locks db))"

text \<open>The upsert \<open>ACQUIRE\<close>: the new table, and whether a row was written.\<close>

definition acquire_row :: "lock_row \<Rightarrow> int \<Rightarrow> lock_row list \<Rightarrow> lock_row list \<times> bool" where
  "acquire_row new now held =
     (if list_ex (is_lock (lr_project new) (lr_name new)) held then
        (let takes = (\<lambda>row. is_lock (lr_project new) (lr_name new) row \<and>
                 (lr_expires row < now \<or> lr_owner row = lr_owner new \<and> lr_session row = lr_session new))
         in (map (\<lambda>row. if takes row then new else row) held, list_ex takes held))
      else (held @ [new], True))"

definition acquire ::
    "lock_db \<Rightarrow> int \<Rightarrow> lock_holder \<Rightarrow> ustring \<Rightarrow> duration \<Rightarrow> ustring option \<Rightarrow> epoch_seconds \<Rightarrow>
     config_error + lock_attempt \<times> lock_db" where
  "acquire db project me name ttl note now =
     (if has_ended db (holder_session me) then Inr (SessionEnded, db)
      else and_then (held_by_another db project me name now) (\<lambda>other.
        case other of
          Some holder \<Rightarrow> Inr (held_by holder now, db)
        | None \<Rightarrow>
            if LOCKS_PER_SESSION_MAX \<le> other_live_locks db project me name now then Inl TooManyLocks
            else
              (let new = \<lparr>lr_project = project, lr_name = name, lr_owner = label (holder_author me),
                          lr_session = holder_session me, lr_note = note,
                          lr_expires = epoch_param (secs_after now ttl)\<rparr>;
                   (held, taken) = acquire_row new (epoch_param now) (db_locks db);
                   db' = db\<lparr>db_locks := held\<rparr>
               in if taken then Inr (Acquired ttl, db')
                  else and_then (find_lock db' project name) (\<lambda>found.
                       case found of
                         None \<Rightarrow> Inl (Storage (utf ''database error: lock '' @ [39] @ name @ [39] @ utf '' vanished mid-acquire''))
                       | Some holder \<Rightarrow> Inr (held_by holder now, db')))))"

definition release ::
    "lock_db \<Rightarrow> int \<Rightarrow> lock_holder \<Rightarrow> ustring \<Rightarrow> epoch_seconds \<Rightarrow> config_error + lock_release \<times> lock_db" where
  "release db project me name now =
     (let goes = (\<lambda>row. is_lock project name row \<and> is_mine me row);
          db' = db\<lparr>db_locks := filter (\<lambda>row. \<not> goes row) (db_locks db)\<rparr>
      in if list_ex goes (db_locks db) then Inr (Released, db')
         else and_then (find_lock db' project name) (\<lambda>found.
              case found of
                Some lock \<Rightarrow>
                  if lock_is_live lock now then Inr (Release_HeldBy (lock_owner lock), db') else Inr (NotHeld, db')
              | None \<Rightarrow> Inr (NotHeld, db')))"

definition break_lock :: "lock_db \<Rightarrow> int \<Rightarrow> ustring \<Rightarrow> config_error + lock option \<times> lock_db" where
  "break_lock db project name =
     and_then (collect lock_from_row (filter (is_lock project name) (db_locks db))) (\<lambda>gone.
       Inr (pop gone, db\<lparr>db_locks := filter (\<lambda>row. \<not> is_lock project name row) (db_locks db)\<rparr>))"

definition release_all_of :: "lock_db \<Rightarrow> ustring \<Rightarrow> epoch_seconds \<Rightarrow> nat \<times> lock_db" where
  "release_all_of db session now =
     (let kept = int (as_secs LOCK_TTL_MAX);
          ended = filter (\<lambda>(_, at). \<not> at < epoch_param now - kept) (db_ended db);
          ended = filter (\<lambda>(s, _). s \<noteq> session) ended @ [(session, epoch_param now)];
          goes = (\<lambda>row. lr_session row = session)
      in (length (filter goes (db_locks db)),
          \<lparr>db_locks = filter (\<lambda>row. \<not> goes row) (db_locks db), db_ended = ended\<rparr>))"

definition live :: "lock_db \<Rightarrow> int \<Rightarrow> epoch_seconds \<Rightarrow> config_error + lock list" where
  "live db project now =
     collect lock_from_row (sort_key lr_name
       (filter (\<lambda>row. lr_project row = project \<and> epoch_param now \<le> lr_expires row) (db_locks db)))"

section \<open>What the lock operations do\<close>

lemma collect_nonempty: "collect f rs = Inr xs \<Longrightarrow> xs = [] \<longleftrightarrow> rs = []"
  by (cases rs) (auto simp: and_then_Inr_iff)

lemma pop_collect_None: "and_then (collect f rs) (\<lambda>xs. Inr (pop xs)) = Inr None \<longleftrightarrow> rs = []"
  by (cases rs) (auto simp: and_then_Inr_iff pop_def split: if_splits)

text \<open>The row an acquire writes.\<close>

definition lock_taken :: "int \<Rightarrow> lock_holder \<Rightarrow> ustring \<Rightarrow> duration \<Rightarrow> ustring option \<Rightarrow> epoch_seconds \<Rightarrow> lock_row" where
  "lock_taken project me name ttl note now =
     \<lparr>lr_project = project, lr_name = name, lr_owner = label (holder_author me),
      lr_session = holder_session me, lr_note = note, lr_expires = epoch_param (secs_after now ttl)\<rparr>"

definition held_live_by_other :: "lock_db \<Rightarrow> int \<Rightarrow> lock_holder \<Rightarrow> ustring \<Rightarrow> epoch_seconds \<Rightarrow> bool" where
  "held_live_by_other db project me name now \<longleftrightarrow>
     (\<exists>row \<in> set (db_locks db). is_lock project name row \<and> epoch_param now \<le> lr_expires row \<and> \<not> is_mine me row)"

lemma held_by_another_None:
  "held_by_another db project me name now = Inr None \<longleftrightarrow> \<not> held_live_by_other db project me name now"
  by (auto simp: held_by_another_def pop_collect_None held_live_by_other_def filter_empty_conv)

lemma acquire_row_free:
  assumes "\<forall>row \<in> set held. is_lock (lr_project new) (lr_name new) row \<longrightarrow>
      lr_expires row < now \<or> lr_owner row = lr_owner new \<and> lr_session row = lr_session new"
  shows "acquire_row new now held =
    (if list_ex (is_lock (lr_project new) (lr_name new)) held
     then map (\<lambda>row. if is_lock (lr_project new) (lr_name new) row then new else row) held
     else held @ [new], True)"
  using assms by (auto simp: acquire_row_def Let_def list_ex_iff intro!: map_cong)

lemma acquire_cases:
  "acquire db project me name ttl note now =
     (if has_ended db (holder_session me) then Inr (SessionEnded, db)
      else if held_live_by_other db project me name now
      then and_then (held_by_another db project me name now) (\<lambda>other.
             Inr (held_by (the other) now, db))
      else if LOCKS_PER_SESSION_MAX \<le> other_live_locks db project me name now then Inl TooManyLocks
      else Inr (Acquired ttl, db\<lparr>db_locks :=
             (if list_ex (is_lock project name) (db_locks db)
              then map (\<lambda>row. if is_lock project name row then lock_taken project me name ttl note now else row) (db_locks db)
              else db_locks db @ [lock_taken project me name ttl note now])\<rparr>))"
proof (cases "held_live_by_other db project me name now")
  case True
  then have "held_by_another db project me name now \<noteq> Inr None"
    by (simp add: held_by_another_None)
  then show ?thesis
    using True by (cases "held_by_another db project me name now")
      (auto simp: acquire_def split: option.splits)
next
  case False
  then have none: "held_by_another db project me name now = Inr None"
    by (simp add: held_by_another_None)
  let ?new = "lock_taken project me name ttl note now"
  have "\<forall>row \<in> set (db_locks db). is_lock (lr_project ?new) (lr_name ?new) row \<longrightarrow>
      lr_expires row < epoch_param now \<or> lr_owner row = lr_owner ?new \<and> lr_session row = lr_session ?new"
    using False by (auto simp: held_live_by_other_def lock_taken_def is_mine_def)
  note taken = acquire_row_free[OF this]
  show ?thesis
    using False taken by (simp add: acquire_def none lock_taken_def[symmetric] Let_def) (simp add: lock_taken_def)
qed

section \<open>Histories of lock operations\<close>

datatype lock_op =
    Op_Acquire int lock_holder ustring duration "ustring option"
  | Op_Release int lock_holder ustring
  | Op_Break int ustring
  | Op_End ustring

text \<open>One operation in its transaction: a failed one leaves the tables as they were.\<close>

definition committed :: "lock_db \<Rightarrow> config_error + 'a \<times> lock_db \<Rightarrow> lock_db" where
  "committed db r = (case r of Inl _ \<Rightarrow> db | Inr (_, db') \<Rightarrow> db')"

fun lock_step :: "lock_db \<Rightarrow> epoch_seconds \<times> lock_op \<Rightarrow> lock_db" where
  "lock_step db (now, Op_Acquire project me name ttl note) = committed db (acquire db project me name ttl note now)"
| "lock_step db (now, Op_Release project me name) = committed db (release db project me name now)"
| "lock_step db (now, Op_Break project name) = committed db (break_lock db project name)"
| "lock_step db (now, Op_End session) = snd (release_all_of db session now)"

definition lock_run :: "lock_db \<Rightarrow> (epoch_seconds \<times> lock_op) list \<Rightarrow> lock_db" where
  "lock_run db ops = foldl lock_step db ops"

lemma lock_run_simps [simp]:
  "lock_run db [] = db"
  "lock_run db (ops @ [op]) = lock_step (lock_run db ops) op"
  by (simp_all add: lock_run_def)

text \<open>Every operation but an acquire only drops rows; an acquire keeps the rest and writes one row.\<close>

definition drops :: "lock_row list \<Rightarrow> lock_row list \<Rightarrow> bool" where
  "drops rs rs' \<longleftrightarrow> (\<exists>P. rs' = filter P rs)"

lemma release_locks: "drops (db_locks db) (db_locks (committed db (release db project me name now))) \<and>
    db_ended (committed db (release db project me name now)) = db_ended db"
proof -
  have all: "\<exists>P. xs = filter P xs" for xs :: "lock_row list"
    by (rule exI[of _ "\<lambda>_. True"]) simp
  show ?thesis
    by (auto simp: release_def committed_def drops_def Let_def and_then_def all split: sum.splits option.splits)
qed

lemma break_locks: "drops (db_locks db) (db_locks (committed db (break_lock db project name))) \<and>
    db_ended (committed db (break_lock db project name)) = db_ended db"
proof -
  have all: "\<exists>P. xs = filter P xs" for xs :: "lock_row list"
    by (rule exI[of _ "\<lambda>_. True"]) simp
  show ?thesis
    by (auto simp: break_lock_def committed_def drops_def and_then_def all split: sum.splits)
qed

lemma end_locks: "drops (db_locks db) (db_locks (snd (release_all_of db session now)))"
  by (auto simp: release_all_of_def drops_def Let_def)

definition lock_keys :: "lock_row list \<Rightarrow> (int \<times> ustring) list" where
  "lock_keys rs = map (\<lambda>row. (lr_project row, lr_name row)) rs"

definition live_of :: "lock_row list \<Rightarrow> ustring \<Rightarrow> int \<Rightarrow> lock_row list" where
  "live_of rs session now = filter (\<lambda>row. lr_session row = session \<and> now \<le> lr_expires row) rs"

definition locks_ok :: "lock_db \<Rightarrow> int \<Rightarrow> bool" where
  "locks_ok db now \<longleftrightarrow> distinct (lock_keys (db_locks db)) \<and>
     (\<forall>session. length (live_of (db_locks db) session now) \<le> LOCKS_PER_SESSION_MAX)"

lemma drops_ok: "locks_ok db now \<Longrightarrow> drops (db_locks db) (db_locks db') \<Longrightarrow> locks_ok db' now"
proof -
  assume ok: "locks_ok db now" and "drops (db_locks db) (db_locks db')"
  then obtain P where P: "db_locks db' = filter P (db_locks db)"
    by (auto simp: drops_def)
  have "length (live_of (db_locks db') session now) \<le> length (live_of (db_locks db) session now)" for session
    unfolding live_of_def P filter_filter by (rule length_filter_mono) simp
  then show ?thesis
    using ok order_trans by (fastforce simp: locks_ok_def lock_keys_def P distinct_map_filter)
qed

lemma locks_ok_later: "locks_ok db now \<Longrightarrow> now \<le> later \<Longrightarrow> locks_ok db later"
proof -
  assume ok: "locks_ok db now" and le: "now \<le> later"
  have "length (live_of (db_locks db) session later) \<le> length (live_of (db_locks db) session now)" for session
    unfolding live_of_def by (rule length_filter_mono) (use le in auto)
  then show ?thesis
    using ok order_trans by (fastforce simp: locks_ok_def)
qed

definition lock_written :: "lock_row \<Rightarrow> lock_row list \<Rightarrow> lock_row list" where
  "lock_written new held =
     (if list_ex (is_lock (lr_project new) (lr_name new)) held
      then map (\<lambda>row. if is_lock (lr_project new) (lr_name new) row then new else row) held
      else held @ [new])"

lemma lock_written_keys:
  "distinct (lock_keys held) \<Longrightarrow> distinct (lock_keys (lock_written new held))"
proof -
  assume dist: "distinct (lock_keys held)"
  have same: "lock_keys (map (\<lambda>row. if is_lock (lr_project new) (lr_name new) row then new else row) held) = lock_keys held"
    by (auto simp: lock_keys_def is_lock_def)
  show ?thesis
    using dist by (auto simp: lock_written_def same) (auto simp: lock_keys_def is_lock_def list_ex_iff)
qed

lemma lock_written_others:
  "filter (\<lambda>row. P row \<and> \<not> is_lock (lr_project new) (lr_name new) row) (lock_written new held) =
   filter (\<lambda>row. P row \<and> \<not> is_lock (lr_project new) (lr_name new) row) held"
proof -
  have "is_lock (lr_project new) (lr_name new) new"
    by (simp add: is_lock_def)
  then have "filter (\<lambda>row. P row \<and> \<not> is_lock (lr_project new) (lr_name new) row)
      (map (\<lambda>row. if is_lock (lr_project new) (lr_name new) row then new else row) held) =
    filter (\<lambda>row. P row \<and> \<not> is_lock (lr_project new) (lr_name new) row) held"
    by (induction held) auto
  then show ?thesis
    by (auto simp: lock_written_def is_lock_def)
qed

lemma lock_written_only: "row \<in> set (lock_written new held) \<Longrightarrow> is_lock (lr_project new) (lr_name new) row \<Longrightarrow> row = new"
  by (auto simp: lock_written_def list_ex_iff split: if_splits)

lemma one_per_key:
  assumes "distinct (lock_keys rs)"
  shows "length (filter (\<lambda>row. P row \<and> is_lock project name row) rs) \<le> 1"
  using assms
proof (induction rs)
  case (Cons row rs)
  have "filter (\<lambda>row. P row \<and> is_lock project name row) rs = []" if "is_lock project name row"
    using Cons.prems that by (auto simp: lock_keys_def is_lock_def filter_empty_conv image_iff)
  then show ?case
    using Cons by (auto simp: lock_keys_def)
qed simp

lemma lock_written_ok:
  assumes ok: "locks_ok db now"
    and room: "length (filter (\<lambda>row. lr_session row = lr_session new \<and> now \<le> lr_expires row \<and>
        \<not> is_lock (lr_project new) (lr_name new) row) (db_locks db)) < LOCKS_PER_SESSION_MAX"
  shows "locks_ok (db\<lparr>db_locks := lock_written new (db_locks db)\<rparr>) now"
proof -
  let ?rs = "db_locks db" and ?rs' = "lock_written new (db_locks db)"
  let ?key = "is_lock (lr_project new) (lr_name new)"
  have keys: "distinct (lock_keys ?rs')"
    using ok lock_written_keys by (simp add: locks_ok_def)
  have "length (live_of ?rs' session now) \<le> LOCKS_PER_SESSION_MAX" for session
  proof -
    let ?live = "\<lambda>row. lr_session row = session \<and> now \<le> lr_expires row"
    have split: "length (live_of ?rs' session now) =
        length (filter (\<lambda>row. ?live row \<and> ?key row) ?rs') + length (filter (\<lambda>row. ?live row \<and> \<not> ?key row) ?rs)"
      unfolding live_of_def by (subst length_filter_split[where Q = ?key]) (simp only: lock_written_others)
    show ?thesis
    proof (cases "session = lr_session new")
      case True
      then show ?thesis
        using split one_per_key[OF keys, of ?live "lr_project new" "lr_name new"] room by (simp add: conj_ac)
    next
      case False
      then have "filter (\<lambda>row. ?live row \<and> ?key row) ?rs' = []"
        using lock_written_only[of _ new ?rs] by (fastforce simp: filter_empty_conv)
      moreover have "length (filter (\<lambda>row. ?live row \<and> \<not> ?key row) ?rs) \<le> length (live_of ?rs session now)"
        unfolding live_of_def by (rule length_filter_mono) simp
      moreover have "length (live_of ?rs session now) \<le> LOCKS_PER_SESSION_MAX"
        using ok by (simp add: locks_ok_def)
      ultimately show ?thesis
        unfolding split by simp
    qed
  qed
  then show ?thesis
    using keys by (simp add: locks_ok_def)
qed

lemma acquire_committed:
  "committed db (acquire db project me name ttl note now) = db \<or>
   \<not> has_ended db (holder_session me) \<and> \<not> held_live_by_other db project me name now \<and>
   other_live_locks db project me name now < LOCKS_PER_SESSION_MAX \<and>
   acquire db project me name ttl note now =
     Inr (Acquired ttl, db\<lparr>db_locks := lock_written (lock_taken project me name ttl note now) (db_locks db)\<rparr>)"
  by (auto simp: acquire_cases committed_def lock_written_def and_then_def not_le split: sum.splits)
     (simp_all add: lock_taken_def)

lemma lock_step_ok:
  assumes ok: "locks_ok db (epoch_param now)"
  shows "locks_ok (lock_step db (now, op)) (epoch_param now)"
proof (cases op)
  case (Op_Acquire project me name ttl memo)
  let ?new = "lock_taken project me name ttl memo now"
  show ?thesis
  proof (cases "committed db (acquire db project me name ttl memo now) = db")
    case False
    then have room: "other_live_locks db project me name now < LOCKS_PER_SESSION_MAX"
      and wrote: "acquire db project me name ttl memo now =
        Inr (Acquired ttl, db\<lparr>db_locks := lock_written ?new (db_locks db)\<rparr>)"
      using acquire_committed by blast+
    have "length (filter (\<lambda>row. lr_session row = lr_session ?new \<and> epoch_param now \<le> lr_expires row \<and>
        \<not> is_lock (lr_project ?new) (lr_name ?new) row) (db_locks db)) < LOCKS_PER_SESSION_MAX"
      using room by (simp add: other_live_locks_def lock_taken_def)
    then show ?thesis
      using lock_written_ok[OF ok] by (simp add: Op_Acquire committed_def wrote)
  qed (use ok in \<open>simp add: Op_Acquire\<close>)
next
  case (Op_End session)
  then show ?thesis
    using drops_ok[OF ok end_locks] by simp
qed (use drops_ok[OF ok] release_locks break_locks in \<open>auto\<close>)

lemma epoch_param_mono: "a \<le> b \<Longrightarrow> epoch_param a \<le> epoch_param b"
  by (auto simp: epoch_param_def word_le_def)

lemma lock_run_ok:
  assumes "locks_ok db (epoch_param start)" and "sorted (map fst ops)" and "\<forall>now \<in> set (map fst ops). start \<le> now"
  shows "locks_ok (lock_run db ops) (epoch_param (if ops = [] then start else fst (last ops)))"
  using assms(2,3)
proof (induction ops rule: rev_induct)
  case Nil
  then show ?case using assms(1) by simp
next
  case (snoc op ops)
  obtain now what where op: "op = (now, what)"
    by fastforce
  let ?before = "if ops = [] then start else fst (last ops)"
  have "?before \<le> now"
    using snoc.prems by (cases ops rule: rev_cases) (auto simp: op sorted_append)
  moreover have "locks_ok (lock_run db ops) (epoch_param ?before)"
    using snoc by (auto simp: sorted_append)
  ultimately have "locks_ok (lock_run db ops) (epoch_param now)"
    by (meson epoch_param_mono locks_ok_later)
  from lock_step_ok[OF this] show ?case
    by (simp add: op)
qed

text \<open>A session that ended: it holds no lock and is remembered as ended no earlier than \<open>t\<close>.\<close>

definition gone_since :: "lock_db \<Rightarrow> ustring \<Rightarrow> int \<Rightarrow> bool" where
  "gone_since db session t \<longleftrightarrow>
     (\<exists>at \<ge> t. (session, at) \<in> set (db_ended db)) \<and> (\<forall>row \<in> set (db_locks db). lr_session row \<noteq> session)"

lemma drops_subset: "drops rs rs' \<Longrightarrow> set rs' \<subseteq> set rs"
  by (auto simp: drops_def)

lemma gone_has_ended: "gone_since db session t \<Longrightarrow> has_ended db session"
  by (auto simp: gone_since_def has_ended_def list_ex_iff)

lemma gone_stays_gone:
  assumes gone: "gone_since db session t" and now: "t \<le> epoch_param now" "epoch_param now \<le> t + int (as_secs LOCK_TTL_MAX)"
  shows "gone_since (lock_step db (now, op)) session t"
proof (cases op)
  case (Op_Acquire project me name ttl memo)
  show ?thesis
  proof (cases "committed db (acquire db project me name ttl memo now) = db")
    case False
    then have "\<not> has_ended db (holder_session me)"
      and wrote: "acquire db project me name ttl memo now =
        Inr (Acquired ttl, db\<lparr>db_locks := lock_written (lock_taken project me name ttl memo now) (db_locks db)\<rparr>)"
      using acquire_committed by blast+
    then have "holder_session me \<noteq> session"
      using gone_has_ended[OF gone] by auto
    then show ?thesis
      using gone by (auto simp: Op_Acquire committed_def wrote gone_since_def lock_written_def lock_taken_def split: if_splits)
  qed (use gone in \<open>simp add: Op_Acquire\<close>)
next
  case (Op_Release project me name)
  then show ?thesis
    using gone release_locks[of db project me name now] drops_subset by (fastforce simp: gone_since_def)
next
  case (Op_Break project name)
  then show ?thesis
    using gone break_locks[of db project name] drops_subset by (fastforce simp: gone_since_def)
next
  case (Op_End session')
  obtain at where at: "t \<le> at" "(session, at) \<in> set (db_ended db)"
    using gone by (auto simp: gone_since_def)
  then have "\<exists>at \<ge> t. (session, at) \<in> set (db_ended (snd (release_all_of db session' now)))"
    using now by (cases "session = session'") (auto simp: release_all_of_def Let_def)
  then show ?thesis
    using gone end_locks[of db session' now] drops_subset by (fastforce simp: Op_End gone_since_def)
qed

lemma ended_is_gone: "gone_since (snd (release_all_of db session now)) session (epoch_param now)"
  by (auto simp: gone_since_def release_all_of_def Let_def)

section \<open>Properties of locks\<close>

text \<open>C6. Locks exclude each other: an acquire succeeds only when nobody else holds the lock live and
  the session has not ended; it then writes exactly one row, the caller's, under the lock's name and
  leaves every other lock as it was, and while someone else holds the lock live every acquire
  leaves the tables untouched.\<close>

theorem acquire_excludes:
  assumes "distinct (lock_keys (db_locks db))"
  shows "(acquire db project me name ttl memo now = Inr (Acquired left, db') \<longrightarrow>
      \<not> held_live_by_other db project me name now \<and> \<not> has_ended db (holder_session me) \<and> left = ttl \<and>
      db_ended db' = db_ended db \<and>
      filter (is_lock project name) (db_locks db') = [lock_taken project me name ttl memo now] \<and>
      filter (\<lambda>row. \<not> is_lock project name row) (db_locks db') =
        filter (\<lambda>row. \<not> is_lock project name row) (db_locks db)) \<and>
    (held_live_by_other db project me name now \<longrightarrow>
      committed db (acquire db project me name ttl memo now) = db)"
proof (intro conjI impI)
  assume "held_live_by_other db project me name now"
  then show "committed db (acquire db project me name ttl memo now) = db"
    using acquire_committed by blast
next
  let ?new = "lock_taken project me name ttl memo now"
  assume got: "acquire db project me name ttl memo now = Inr (Acquired left, db')"
  then have free: "\<not> held_live_by_other db project me name now" "\<not> has_ended db (holder_session me)"
    and db': "left = ttl" "db' = db\<lparr>db_locks := lock_written ?new (db_locks db)\<rparr>"
    by (auto simp: acquire_cases lock_written_def held_by_def and_then_Inr_iff split: if_splits)
       (simp_all add: lock_taken_def)
  have key: "lr_project ?new = project" "lr_name ?new = name"
    by (simp_all add: lock_taken_def)
  have self: "is_lock project name ?new"
    by (simp add: is_lock_def key)
  have dist: "distinct (lock_keys (lock_written ?new (db_locks db)))"
    using assms by (rule lock_written_keys)
  have "?new \<in> set (filter (is_lock project name) (lock_written ?new (db_locks db)))"
    using self by (auto simp: lock_written_def key list_ex_iff)
  moreover have "length (filter (is_lock project name) (lock_written ?new (db_locks db))) \<le> 1"
    using one_per_key[OF dist, of "\<lambda>_. True"] by simp
  ultimately have "filter (is_lock project name) (lock_written ?new (db_locks db)) = [?new]"
    by (cases "filter (is_lock project name) (lock_written ?new (db_locks db))") auto
  then show "filter (is_lock project name) (db_locks db') = [?new]"
    by (simp add: db')
  show "filter (\<lambda>row. \<not> is_lock project name row) (db_locks db') =
      filter (\<lambda>row. \<not> is_lock project name row) (db_locks db)"
    using lock_written_others[of "\<lambda>_. True" ?new "db_locks db"] by (simp add: db' key)
  show "\<not> held_live_by_other db project me name now" "\<not> has_ended db (holder_session me)" "left = ttl"
      "db_ended db' = db_ended db"
    using free db' by simp_all
qed

definition sample_holder :: "ustring \<Rightarrow> lock_holder" where
  "sample_holder session = \<lparr>holder_author = Agent (utf ''a''), holder_session = session\<rparr>"

definition empty_locks :: lock_db where
  "empty_locks = \<lparr>db_locks = [], db_ended = []\<rparr>"

lemma label_sample [simp]: "label (holder_author (sample_holder s)) = utf ''a''"
  by (simp add: sample_holder_def)

theorem acquire_excludes_witness:
  "\<exists>db'. acquire empty_locks 1 (sample_holder (utf ''s'')) (utf ''deploy'') (from_secs 60) None 100 =
       Inr (Acquired (from_secs 60), db') \<and>
     filter (is_lock 1 (utf ''deploy'')) (db_locks db') =
       [lock_taken 1 (sample_holder (utf ''s'')) (utf ''deploy'') (from_secs 60) None 100] \<and>
     committed db' (acquire db' 1 (sample_holder (utf ''t'')) (utf ''deploy'') (from_secs 60) None 120) = db'"
proof -
  let ?new = "lock_taken 1 (sample_holder (utf ''s'')) (utf ''deploy'') (from_secs 60) None 100"
  let ?db' = "empty_locks\<lparr>db_locks := [?new]\<rparr>"
  have keys: "distinct (lock_keys (db_locks empty_locks))" "distinct (lock_keys (db_locks ?db'))"
    by (simp_all add: empty_locks_def lock_keys_def)
  have got: "acquire empty_locks 1 (sample_holder (utf ''s'')) (utf ''deploy'') (from_secs 60) None 100 =
      Inr (Acquired (from_secs 60), ?db')"
    by (simp add: acquire_cases empty_locks_def has_ended_def held_live_by_other_def other_live_locks_def
        LOCKS_PER_SESSION_MAX_def)
  have "held_live_by_other ?db' 1 (sample_holder (utf ''t'')) (utf ''deploy'') 120"
    by (simp add: held_live_by_other_def is_lock_def is_mine_def lock_taken_def sample_holder_def utf_def
        secs_after_def saturating_add_def epoch_param_def)
  then show ?thesis
    using acquire_excludes[OF keys(1)] acquire_excludes[OF keys(2)] got by blast
qed

text \<open>C7. No session hoards locks and no lock exists twice: along any history of lock operations with
  a clock that does not run backwards, a lock has at most one row, and at
  every moment a session holds at most 32 live locks over all projects together.\<close>

theorem locks_bounded:
  assumes "sorted (map fst ops)" and "\<forall>at \<in> set (map fst ops). at \<le> now"
  shows "distinct (lock_keys (db_locks (lock_run empty_locks ops))) \<and>
    length (live_of (db_locks (lock_run empty_locks ops)) session (epoch_param now)) \<le> LOCKS_PER_SESSION_MAX"
proof -
  have start: "locks_ok empty_locks (epoch_param 0)"
    by (simp add: locks_ok_def empty_locks_def lock_keys_def live_of_def)
  let ?final = "if ops = [] then 0 else fst (last ops)"
  have "locks_ok (lock_run empty_locks ops) (epoch_param ?final)"
    using lock_run_ok[OF start assms(1)] by simp
  moreover have "?final \<le> now"
    using assms(2) by simp
  ultimately have "locks_ok (lock_run empty_locks ops) (epoch_param now)"
    by (meson epoch_param_mono locks_ok_later)
  then show ?thesis
    by (simp add: locks_ok_def)
qed

theorem locks_bounded_witness:
  "length (live_of (db_locks (lock_run empty_locks
     [(1, Op_Acquire 1 (sample_holder (utf ''s'')) (utf ''x'') (from_secs 9) None), (5, Op_End (utf ''t''))]))
     (utf ''s'') (epoch_param 7)) \<le> 32"
  using locks_bounded[of "[(1, Op_Acquire 1 (sample_holder (utf ''s'')) (utf ''x'') (from_secs 9) None),
      (5, Op_End (utf ''t''))]" 7 "utf ''s''"]
  by (simp add: LOCKS_PER_SESSION_MAX_def)

text \<open>C8. A closed connection leaves no lock behind: once a session has ended, no operation within the
  longest lifetime of a lock, in any order and from any caller (an acquire
  of the same session that was still running included), leaves a lock of that session in the table.\<close>

theorem ended_session_holds_nothing:
  assumes "\<forall>at \<in> set (map fst ops). epoch_param ended \<le> epoch_param at \<and>
      epoch_param at \<le> epoch_param ended + int (as_secs LOCK_TTL_MAX)"
  shows "\<forall>row \<in> set (db_locks (lock_run (snd (release_all_of db session ended)) ops)). lr_session row \<noteq> session"
proof -
  have "gone_since (lock_run (snd (release_all_of db session ended)) ops) session (epoch_param ended)"
    using assms
  proof (induction ops rule: rev_induct)
    case Nil
    then show ?case by (simp add: ended_is_gone)
  next
    case (snoc op ops)
    then show ?case
      by (cases op) (simp add: gone_stays_gone)
  qed
  then show ?thesis
    by (simp add: gone_since_def)
qed

theorem ended_session_holds_nothing_witness:
  "\<not> list_ex (\<lambda>row. lr_session row = utf ''s'') (db_locks (lock_run (snd (release_all_of empty_locks (utf ''s'') 100))
     [(100, Op_Acquire 1 (sample_holder (utf ''s'')) (utf ''x'') (from_secs 9) None)]))"
  using ended_session_holds_nothing[of "[(100, Op_Acquire 1 (sample_holder (utf ''s'')) (utf ''x'') (from_secs 9) None)]"
      100 empty_locks "utf ''s''"]
  by (simp add: epoch_param_def LOCK_TTL_MAX_def list_ex_iff)

section \<open>Todos\<close>

record todo_row =
  tr_project :: int
  tr_id :: ustring
  tr_title :: ustring
  tr_status :: ustring
  tr_deps :: "ustring list"
  tr_author :: ustring
  tr_updated_at :: int
  tr_owner :: "ustring option"
  tr_claimed_until :: "int option"

definition PENDING :: ustring where "PENDING = todo_status_to_string TodoPending"

definition IN_PROGRESS :: ustring where "IN_PROGRESS = todo_status_to_string InProgress"

definition DONE :: ustring where "DONE = todo_status_to_string Done"

text \<open>The two \<open>CHECK\<close> constraints of the table and the statuses it admits.\<close>

definition todo_row_checks :: "todo_row \<Rightarrow> bool" where
  "todo_row_checks row \<longleftrightarrow>
     tr_status row \<in> {PENDING, IN_PROGRESS, DONE} \<and>
     (tr_owner row = None \<longleftrightarrow> tr_claimed_until row = None) \<and>
     (tr_owner row = None \<or> tr_status row = IN_PROGRESS)"

definition todo_from_row :: "todo_row \<Rightarrow> config_error + todo" where
  "todo_from_row row =
     and_then
       (case (tr_owner row, tr_claimed_until row) of
          (Some owner, Some until) \<Rightarrow>
            and_then (author_from owner) (\<lambda>owner.
            and_then (epoch_from_secs (utf ''todo lease'') until) (\<lambda>until.
            Inr (Some \<lparr>claim_owner = owner, claimed_until = until\<rparr>)))
        | _ \<Rightarrow> Inr None) (\<lambda>claim.
     and_then (map_err (\<lambda>e. corrupt (utf ''todo id'') (reason [] e)) (TodoId_try_new (tr_id row))) (\<lambda>tid.
     and_then (map_err (\<lambda>e. corrupt (utf ''todo title'') (reason [] e)) (TodoTitle_try_new (tr_title row))) (\<lambda>title.
     and_then (ok_or (enum_from_str todo_statuses todo_status_to_string (tr_status row))
                 (corrupt (utf ''todo status'') UNKNOWN_VARIANT)) (\<lambda>status.
     and_then (author_from (tr_author row)) (\<lambda>author.
     and_then (epoch_from_secs (utf ''write time'') (tr_updated_at row)) (\<lambda>at.
     Inr \<lparr>todo_id = tid, todo_title = title, todo_status = status, todo_deps = tr_deps row, todo_claim = claim,
          todo_author = author, todo_updated_at = at\<rparr>))))))"

definition claim_columns :: "todo \<Rightarrow> ustring option \<times> int option" where
  "claim_columns t =
     (case todo_claim t of
        None \<Rightarrow> (None, None)
      | Some claim \<Rightarrow> (Some (label (claim_owner claim)), Some (epoch_param (claimed_until claim))))"

definition todo_to_row :: "int \<Rightarrow> todo \<Rightarrow> todo_row" where
  "todo_to_row project t =
     (let (owner, until) = claim_columns t in
      \<lparr>tr_project = project, tr_id = todo_id t, tr_title = todo_title t,
       tr_status = todo_status_to_string (todo_status t), tr_deps = todo_deps t, tr_author = label (todo_author t),
       tr_updated_at = epoch_param (todo_updated_at t), tr_owner = owner, tr_claimed_until = until\<rparr>)"

definition is_todo :: "int \<Rightarrow> ustring \<Rightarrow> todo_row \<Rightarrow> bool" where
  "is_todo project tid row \<longleftrightarrow> tr_project row = project \<and> tr_id row = tid"

text \<open>A write that breaks a \<open>CHECK\<close> constraint fails, and with it the transaction.\<close>

definition CHECK_FAILED :: config_error where
  "CHECK_FAILED = Storage (utf ''database error: CHECK constraint failed'')"

definition put_todo :: "todo_row list \<Rightarrow> int \<Rightarrow> todo \<Rightarrow> config_error + todo_row list" where
  "put_todo todos project t =
     (let new = todo_to_row project t in
      if \<not> todo_row_checks new then Inl CHECK_FAILED
      else if list_ex (is_todo project (todo_id t)) todos
      then Inr (map (\<lambda>row. if is_todo project (todo_id t) row then new else row) todos)
      else Inr (todos @ [new]))"

definition rewrite_todo :: "todo_row list \<Rightarrow> int \<Rightarrow> todo \<Rightarrow> config_error + todo_row list" where
  "rewrite_todo todos project t =
     (let new = todo_to_row project t;
          rewrites = is_todo project (todo_id t)
      in if list_ex rewrites todos \<and> \<not> todo_row_checks new then Inl CHECK_FAILED
         else Inr (map (\<lambda>row. if rewrites row then new\<lparr>tr_deps := tr_deps row\<rparr> else row) todos))"

definition find_todo :: "todo_row list \<Rightarrow> int \<Rightarrow> ustring \<Rightarrow> config_error + todo option" where
  "find_todo todos project tid =
     and_then (collect todo_from_row (filter (is_todo project tid) todos)) (\<lambda>found. Inr (pop found))"

text \<open>The condition of \<open>CLAIM_BY_ID\<close>: a comparison with a null owner or lease is not true.\<close>

definition may_claim :: "ustring \<Rightarrow> int \<Rightarrow> todo_row \<Rightarrow> bool" where
  "may_claim me now row \<longleftrightarrow>
     tr_status row = PENDING \<or>
     tr_status row = IN_PROGRESS \<and>
       (tr_owner row = Some me \<or> (case tr_claimed_until row of None \<Rightarrow> False | Some until \<Rightarrow> until < now))"

definition claimed_row :: "ustring \<Rightarrow> int \<Rightarrow> int \<Rightarrow> todo_row \<Rightarrow> todo_row" where
  "claimed_row me until now row =
     row\<lparr>tr_status := IN_PROGRESS, tr_owner := Some me, tr_claimed_until := Some until,
         tr_updated_at := now, tr_author := me\<rparr>"

definition claim_by_id ::
    "todo_row list \<Rightarrow> int \<Rightarrow> author \<Rightarrow> ustring \<Rightarrow> epoch_seconds \<Rightarrow> epoch_seconds \<Rightarrow>
     config_error + claim \<times> todo_row list" where
  "claim_by_id todos project me tid until now =
     (let takes = (\<lambda>row. is_todo project tid row \<and> may_claim (label me) (epoch_param now) row);
          takes_as = claimed_row (label me) (epoch_param until) (epoch_param now);
          todos' = map (\<lambda>row. if takes row then takes_as row else row) todos
      in and_then (collect todo_from_row (map takes_as (filter takes todos))) (\<lambda>claimed.
         case pop claimed of
           Some t \<Rightarrow> Inr (Claimed t, todos')
         | None \<Rightarrow>
             and_then (find_todo todos' project tid) (\<lambda>found.
             case found of
               None \<Rightarrow> Inr (Claim_Missing, todos')
             | Some t \<Rightarrow>
                 (case claim_state t now of
                    Held owner expires_in \<Rightarrow> Inr (Claim_HeldBy owner expires_in, todos')
                  | Unclaimed \<Rightarrow> Inr (Unavailable t, todos')
                  | Stale _ \<Rightarrow> Inr (Unavailable t, todos')))))"

text \<open>\<open>NEXT_CLAIMABLE\<close>: the id of the first row that is pending or lapsed and has no open dependency.\<close>

definition next_claimable :: "todo_row list \<Rightarrow> int \<Rightarrow> int \<Rightarrow> ustring option" where
  "next_claimable todos project now =
     map_option tr_id (find (\<lambda>t. tr_project t = project \<and>
       (tr_status t = PENDING \<or>
        tr_status t = IN_PROGRESS \<and> (case tr_claimed_until t of None \<Rightarrow> False | Some until \<Rightarrow> until < now)) \<and>
       \<not> list_ex (\<lambda>d. list_ex (\<lambda>dep. tr_project dep = tr_project t \<and> tr_id dep = d \<and> tr_status dep \<noteq> DONE) todos)
           (tr_deps t)) todos)"

definition claim_todo ::
    "todo_row list \<Rightarrow> int \<Rightarrow> author \<Rightarrow> ustring option \<Rightarrow> duration \<Rightarrow> epoch_seconds \<Rightarrow>
     config_error + claim \<times> todo_row list" where
  "claim_todo todos project me tid l now =
     (let until = secs_after now l in
      case tid of
        Some tid \<Rightarrow> claim_by_id todos project me tid until now
      | None \<Rightarrow>
          (case next_claimable todos project (epoch_param now) of
             None \<Rightarrow> Inr (NothingClaimable, todos)
           | Some next \<Rightarrow>
               and_then (map_err (\<lambda>e. corrupt (utf ''todo id'') (reason [] e)) (TodoId_try_new next))
                 (\<lambda>next. claim_by_id todos project me next until now)))"

definition add_todo ::
    "todo_row list \<Rightarrow> int \<Rightarrow> author \<Rightarrow> ustring \<Rightarrow> ustring list \<Rightarrow> ustring \<Rightarrow> epoch_seconds \<Rightarrow>
     config_error + todo \<times> todo_row list" where
  "add_todo todos project author title deps generated now =
     (let t = \<lparr>todo_id = generated, todo_title = title, todo_status = TodoPending, todo_deps = deps,
               todo_claim = None, todo_author = author, todo_updated_at = now\<rparr>
      in and_then (put_todo todos project t) (\<lambda>todos'. Inr (t, todos')))"

definition update_todo ::
    "todo_row list \<Rightarrow> int \<Rightarrow> author \<Rightarrow> ustring \<Rightarrow> todo_change \<Rightarrow> epoch_seconds \<Rightarrow>
     config_error + todo_update \<times> todo_row list" where
  "update_todo todos project me tid change now =
     and_then (find_todo todos project tid) (\<lambda>found.
       case found of
         None \<Rightarrow> Inr (Update_Missing, todos)
       | Some t \<Rightarrow>
           (case changed t me change now of
              Updated t' \<Rightarrow> and_then (rewrite_todo todos project t') (\<lambda>todos'. Inr (Updated t', todos'))
            | update \<Rightarrow> Inr (update, todos)))"

definition delete_todo :: "todo_row list \<Rightarrow> int \<Rightarrow> ustring \<Rightarrow> bool \<times> todo_row list" where
  "delete_todo todos project tid =
     (list_ex (is_todo project tid) todos, filter (\<lambda>row. \<not> is_todo project tid row) todos)"

definition project_todos :: "todo_row list \<Rightarrow> int \<Rightarrow> config_error + todo list" where
  "project_todos todos project = collect todo_from_row (filter (\<lambda>row. tr_project row = project) todos)"

section \<open>Claiming\<close>

text \<open>
  Rows as the program writes them: checked by the table, unique, with ids that read back as themselves and
  that decode. A clock and a lease within the range of a seconds column, that is for the next
  292 thousand million years.
\<close>

definition todo_rows_ok :: "todo_row list \<Rightarrow> bool" where
  "todo_rows_ok todos \<longleftrightarrow>
     distinct (map (\<lambda>row. (tr_project row, tr_id row)) todos) \<and>
     (\<forall>row \<in> set todos. todo_row_checks row \<and> TodoId_try_new (tr_id row) = Inr (tr_id row) \<and>
        (\<forall>until. tr_claimed_until row = Some until \<longrightarrow> until < 2 ^ 63) \<and> (\<exists>t. todo_from_row row = Inr t))"

definition in_column :: "epoch_seconds \<Rightarrow> bool" where
  "in_column at \<longleftrightarrow> uint at < 2 ^ 63"

lemma epoch_param_in_column: "in_column at \<Longrightarrow> epoch_param at = uint at"
  by (simp add: in_column_def epoch_param_def)

lemma epoch_round_trip: "in_column at \<Longrightarrow> epoch_from_secs subject (epoch_param at) = Inr at"
  by (simp add: epoch_from_secs_def epoch_param_in_column)

lemma statuses_distinct [simp]:
  "PENDING \<noteq> IN_PROGRESS" "IN_PROGRESS \<noteq> PENDING" "PENDING \<noteq> DONE" "DONE \<noteq> PENDING"
  "IN_PROGRESS \<noteq> DONE" "DONE \<noteq> IN_PROGRESS"
  by (simp_all add: PENDING_def IN_PROGRESS_def DONE_def utf_def)

lemma todo_from_row_fields:
  assumes "todo_from_row row = Inr t" and "TodoId_try_new (tr_id row) = Inr (tr_id row)"
  shows "todo_id t = tr_id row" "tr_status row = todo_status_to_string (todo_status t)" "todo_deps t = tr_deps row"
    "TodoTitle_try_new (tr_title row) = Inr (todo_title t)"
  using assms
  by (auto simp: todo_from_row_def and_then_Inr_iff todo_status_choice.enum_from_str_Some_iff split: option.splits)

lemma todo_from_row_claim:
  assumes "todo_from_row row = Inr t"
  shows "todo_claim t =
    (case (tr_owner row, tr_claimed_until row) of
       (Some owner, Some until) \<Rightarrow>
         (case from_label owner of Inl _ \<Rightarrow> None | Inr a \<Rightarrow> Some \<lparr>claim_owner = a, claimed_until = of_int until\<rparr>)
     | _ \<Rightarrow> None)"
    and "tr_claimed_until row = Some until \<Longrightarrow> tr_owner row \<noteq> None \<Longrightarrow> 0 \<le> until"
  using assms
  by (auto simp: todo_from_row_def and_then_Inr_iff author_from_def epoch_from_secs_def split: option.splits if_splits)

lemma lapsed_column:
  assumes "0 \<le> until" "until < 2 ^ 63" "in_column now"
  shows "until < epoch_param now \<longleftrightarrow> \<not> now \<le> (of_int until :: u64)"
proof -
  have "uint (of_int until :: u64) = until"
    using assms by (simp add: uint_word_of_int_eq take_bit_int_eq_self)
  then show ?thesis
    using assms by (auto simp: epoch_param_in_column word_le_def)
qed

text \<open>A row is pending or lapsed in SQL exactly when the todo it decodes to is pending in effect.\<close>

definition sql_pending :: "int \<Rightarrow> todo_row \<Rightarrow> bool" where
  "sql_pending now row \<longleftrightarrow>
     tr_status row = PENDING \<or>
     tr_status row = IN_PROGRESS \<and> (case tr_claimed_until row of None \<Rightarrow> False | Some until \<Rightarrow> until < now)"

lemma sql_pending_iff:
  assumes row: "todo_from_row row = Inr t" "todo_row_checks row" "TodoId_try_new (tr_id row) = Inr (tr_id row)"
    and range: "\<And>until. tr_claimed_until row = Some until \<Longrightarrow> until < 2 ^ 63" and now: "in_column now"
  shows "sql_pending (epoch_param now) row \<longleftrightarrow> effective_status t now = TodoPending"
proof (cases "tr_claimed_until row")
  case None
  then have "todo_claim t = None"
    using todo_from_row_claim(1)[OF row(1)] by (simp split: option.splits)
  then have "effective_status t now = todo_status t"
    by (simp add: effective_status_def claim_state_def)
  then show ?thesis
    using todo_from_row_fields(2)[OF row(1,3)] None
    by (cases "todo_status t") (simp_all add: sql_pending_def PENDING_def utf_def)
next
  case (Some until)
  then obtain owner where owner: "tr_owner row = Some owner" and status: "tr_status row = IN_PROGRESS"
    using row(2) by (auto simp: todo_row_checks_def)
  have pos: "0 \<le> until"
    using todo_from_row_claim(2)[OF row(1) Some] owner by simp
  obtain a where a: "from_label owner = Inr a"
    using row(1) Some owner by (auto simp: todo_from_row_def and_then_Inr_iff author_from_def)
  have "todo_claim t = Some \<lparr>claim_owner = a, claimed_until = of_int until\<rparr>"
    using todo_from_row_claim(1)[OF row(1)] Some owner a by simp
  then have "effective_status t now = TodoPending \<longleftrightarrow> \<not> now \<le> (of_int until :: u64) \<or> todo_status t = TodoPending"
    by (simp add: effective_status_def claim_state_def claim_is_live_def)
  moreover have "todo_status t \<noteq> TodoPending"
    using todo_from_row_fields(2)[OF row(1,3)] status by (auto simp: IN_PROGRESS_def utf_def)
  ultimately show ?thesis
    using lapsed_column[OF pos range[OF Some] now] Some status by (simp add: sql_pending_def)
qed

lemma collect_Inr_iff: "collect f rs = Inr xs \<longleftrightarrow> list_all2 (\<lambda>r x. f r = Inr x) rs xs"
  by (induction rs arbitrary: xs) (auto simp: and_then_Inr_iff list_all2_Cons1)

lemma find_filter_hd:
  "list_all2 (\<lambda>r x. P r \<longleftrightarrow> Q x) rs xs \<Longrightarrow>
   rel_option (\<lambda>r x. (r, x) \<in> set (zip rs xs)) (find P rs) (case filter Q xs of [] \<Rightarrow> None | x # _ \<Rightarrow> Some x)"
proof (induction rs xs rule: list_all2_induct)
  case (Cons r rs x xs)
  then show ?case
    by (cases "P r") (auto elim!: option.rel_mono_strong)
qed simp

lemma find_within: "find (\<lambda>r. Q r \<and> P r) rs = find P (filter Q rs)"
  by (induction rs) auto

lemma map_of_rev_unique:
  assumes "distinct (map fst xs)"
  shows "(d, v) \<in> set xs \<longleftrightarrow> map_of (rev xs) d = Some v"
  using map_of_eq_Some_iff[of "rev xs" d v] assms by (simp add: rev_map[symmetric])

lemma unwrap_unique_entry:
  assumes "distinct (map fst xs)"
  shows "unwrap_or (map_of (rev xs) d) True \<longleftrightarrow> (\<forall>b. (d, b) \<in> set xs \<longrightarrow> b)"
  unfolding map_of_rev_unique[OF assms] by (cases "map_of (rev xs) d") auto

text \<open>A dependency is open in SQL exactly when the list of decoded todos says it is not done.\<close>

lemma deps_done_iff:
  assumes ok: "todo_rows_ok todos" and ts: "project_todos todos project = Inr ts"
  shows "list_ex (\<lambda>dep. tr_project dep = project \<and> tr_id dep = d \<and> tr_status dep \<noteq> DONE) todos \<longleftrightarrow>
    \<not> unwrap_or (map_of (rev (map (\<lambda>todo. (todo_id todo, todo_status todo = Done)) ts)) d) True"
proof -
  let ?rows = "filter (\<lambda>row. tr_project row = project) todos"
  let ?pairs = "map (\<lambda>todo. (todo_id todo, todo_status todo = Done)) ts"
  have rel: "list_all2 (\<lambda>row t. todo_from_row row = Inr t) ?rows ts"
    using ts by (simp add: project_todos_def collect_Inr_iff)
  have ids: "\<forall>row \<in> set ?rows. TodoId_try_new (tr_id row) = Inr (tr_id row)"
    using ok by (auto simp: todo_rows_ok_def)
  have "list_all2 (\<lambda>row t. todo_id t = tr_id row \<and> (todo_status t = Done \<longleftrightarrow> tr_status row = DONE)) ?rows ts"
    using rel ids
  proof (induction rule: list_all2_induct)
    case (Cons row rows' t ts')
    then have "todo_id t = tr_id row" "tr_status row = todo_status_to_string (todo_status t)"
      using todo_from_row_fields by auto
    moreover from this have "todo_status t = Done \<longleftrightarrow> tr_status row = DONE"
      by (cases "todo_status t") (simp_all add: DONE_def utf_def)
    ultimately show ?case
      using Cons by simp
  qed simp
  then have pairs: "?pairs = map (\<lambda>row. (tr_id row, tr_status row = DONE)) ?rows"
    by (induction rule: list_all2_induct) auto
  have "distinct (map tr_id ?rows)"
    using ok by (auto simp: todo_rows_ok_def distinct_map inj_on_def)
  then have dist: "distinct (map fst ?pairs)"
    unfolding pairs by (simp add: comp_def)
  show ?thesis
    unfolding unwrap_unique_entry[OF dist] unfolding pairs by (auto simp: list_ex_iff)
qed

lemma next_claimable_mirrors:
  assumes ok: "todo_rows_ok todos" and now: "in_column now" and ts: "project_todos todos project = Inr ts"
  shows "rel_option (\<lambda>row t. row \<in> set todos \<and> tr_project row = project \<and> todo_from_row row = Inr t \<and>
      sql_pending (epoch_param now) row)
    (find (\<lambda>t. tr_project t = project \<and> sql_pending (epoch_param now) t \<and>
       \<not> list_ex (\<lambda>d. list_ex (\<lambda>dep. tr_project dep = tr_project t \<and> tr_id dep = d \<and> tr_status dep \<noteq> DONE) todos)
           (tr_deps t)) todos)
    (case claimable ts now of [] \<Rightarrow> None | t # _ \<Rightarrow> Some t)"
proof -
  let ?rows = "filter (\<lambda>row. tr_project row = project) todos"
  let ?sql = "\<lambda>t. sql_pending (epoch_param now) t \<and>
       \<not> list_ex (\<lambda>d. list_ex (\<lambda>dep. tr_project dep = tr_project t \<and> tr_id dep = d \<and> tr_status dep \<noteq> DONE) todos)
           (tr_deps t)"
  let ?is_done = "map_of (rev (map (\<lambda>todo. (todo_id todo, todo_status todo = Done)) ts))"
  have rel: "list_all2 (\<lambda>row t. todo_from_row row = Inr t) ?rows ts"
    using ts by (simp add: project_todos_def collect_Inr_iff)
  have each: "?sql row \<longleftrightarrow> is_claimable t now ?is_done" if "row \<in> set ?rows" "todo_from_row row = Inr t" for row t
  proof -
    have row: "todo_row_checks row" "TodoId_try_new (tr_id row) = Inr (tr_id row)" "tr_project row = project"
      "\<And>until. tr_claimed_until row = Some until \<Longrightarrow> until < 2 ^ 63"
      using ok that(1) by (auto simp: todo_rows_ok_def)
    show ?thesis
      using sql_pending_iff[OF that(2) row(1,2,4) now] todo_from_row_fields(3)[OF that(2) row(2)]
        deps_done_iff[OF ok ts]
      by (auto simp: is_claimable_def row(3) list_ex_iff list_all_iff)
  qed
  have "list_all2 (\<lambda>row t. ?sql row \<longleftrightarrow> is_claimable t now ?is_done) ?rows ts"
    by (rule list.rel_mono_strong[OF rel]) (rule each)
  from find_filter_hd[OF this] show ?thesis
    unfolding find_within[of "\<lambda>row. tr_project row = project"] claimable_def Let_def
  proof (rule option.rel_mono_strong)
    fix row t
    assume "(row, t) \<in> set (zip ?rows ts)" and "row \<in> set_option (find ?sql ?rows)"
    moreover from this have "todo_from_row row = Inr t" "row \<in> set ?rows"
      using rel by (auto simp: list_all2_iff dest: set_zip_leftD)
    ultimately show "row \<in> set todos \<and> tr_project row = project \<and> todo_from_row row = Inr t \<and>
        sql_pending (epoch_param now) row"
      by (auto dest: find_SomeD)
  qed
qed

lemma only_row:
  assumes "todo_rows_ok todos" and "row \<in> set todos" and "is_todo project tid row"
  shows "filter (is_todo project tid) todos = [row]"
proof -
  have "distinct (map (\<lambda>row. (tr_project row, tr_id row)) todos)"
    using assms(1) by (simp add: todo_rows_ok_def)
  then show ?thesis
    using assms(2,3)
  proof (induction todos)
    case (Cons r rs)
    have "filter (is_todo project tid) rs = []" if "is_todo project tid r"
      using Cons.prems that by (auto simp: is_todo_def filter_empty_conv image_iff)
    moreover have "\<not> is_todo project tid r" if "row \<in> set rs"
      using Cons.prems that by (auto simp: is_todo_def image_iff)
    ultimately show ?case
      using Cons.IH Cons.prems by (cases "row = r") auto
  qed simp
qed

lemma claimed_row_decodes:
  assumes "todo_from_row row = Inr t" and me: "from_label (label me) = Inr me"
    and "in_column until" "in_column now" and tid: "TodoId_try_new (tr_id row) = Inr (tr_id row)"
  shows "todo_from_row (claimed_row (label me) (epoch_param until) (epoch_param now) row) =
    Inr (t\<lparr>todo_status := InProgress, todo_claim := Some \<lparr>claim_owner = me, claimed_until = until\<rparr>,
           todo_author := me, todo_updated_at := now\<rparr>)"
proof -
  have "enum_from_str todo_statuses todo_status_to_string IN_PROGRESS = Some InProgress"
    by (simp add: todo_status_choice.enum_from_str_Some_iff IN_PROGRESS_def)
  then show ?thesis
    using todo_from_row_fields[OF assms(1) tid] tid
    by (simp add: todo_from_row_def claimed_row_def author_from_def me epoch_round_trip assms(3,4))
qed

lemma filter_and: "filter (\<lambda>x. P x \<and> Q x) xs = filter Q (filter P xs)"
  by (induction xs) auto

lemma claim_free_row:
  assumes ok: "todo_rows_ok todos" and row: "row \<in> set todos" "is_todo project tid row" "todo_from_row row = Inr t"
    and free: "may_claim (label me) (epoch_param now) row"
    and me: "from_label (label me) = Inr me" and times: "in_column until" "in_column now"
  shows "\<exists>todos'. claim_by_id todos project me tid until now =
      Inr (Claimed (t\<lparr>todo_status := InProgress, todo_claim := Some \<lparr>claim_owner = me, claimed_until = until\<rparr>,
             todo_author := me, todo_updated_at := now\<rparr>), todos') \<and>
    filter (\<lambda>r. \<not> is_todo project tid r) todos' = filter (\<lambda>r. \<not> is_todo project tid r) todos"
proof -
  let ?takes = "\<lambda>r. is_todo project tid r \<and> may_claim (label me) (epoch_param now) r"
  let ?as = "claimed_row (label me) (epoch_param until) (epoch_param now)"
  have "filter ?takes todos = [row]"
    using only_row[OF ok row(1,2)] free by (simp add: filter_and)
  moreover have tid: "TodoId_try_new (tr_id row) = Inr (tr_id row)"
    using ok row(1) by (auto simp: todo_rows_ok_def)
  ultimately have "collect todo_from_row (map ?as (filter ?takes todos)) =
      Inr [t\<lparr>todo_status := InProgress, todo_claim := Some \<lparr>claim_owner = me, claimed_until = until\<rparr>,
             todo_author := me, todo_updated_at := now\<rparr>]"
    using claimed_row_decodes[OF row(3) me times tid] by simp
  moreover have "filter (\<lambda>r. \<not> is_todo project tid r) (map (\<lambda>r. if ?takes r then ?as r else r) rs) =
      filter (\<lambda>r. \<not> is_todo project tid r) rs" for rs
    by (induction rs) (auto simp: claimed_row_def is_todo_def)
  ultimately show ?thesis
    by (simp add: claim_by_id_def Let_def pop_def)
qed

section \<open>Properties of todos\<close>

text \<open>C9. The claim an agent asks for without naming a todo is the one the domain would choose: the
  SQL query finds a row exactly when the list of todos has a claimable one, the todo that ends up
  claimed is the first claimable one, claimed by the caller until the end of the lease, and no
  other row changes; otherwise the answer is that nothing is claimable and nothing changes. The
  query never answers with a todo someone else holds.\<close>

theorem claim_next_is_first_claimable:
  assumes "todo_rows_ok todos" and "project_todos todos project = Inr ts"
    and "from_label (label me) = Inr me" and "in_column now" and "in_column (secs_after now l)"
  shows "case claimable ts now of
      [] \<Rightarrow> claim_todo todos project me None l now = Inr (NothingClaimable, todos)
    | t # _ \<Rightarrow>
        \<exists>todos'. claim_todo todos project me None l now =
            Inr (Claimed (t\<lparr>todo_status := InProgress,
                   todo_claim := Some \<lparr>claim_owner = me, claimed_until = secs_after now l\<rparr>,
                   todo_author := me, todo_updated_at := now\<rparr>), todos') \<and>
          filter (\<lambda>row. \<not> is_todo project (todo_id t) row) todos' =
            filter (\<lambda>row. \<not> is_todo project (todo_id t) row) todos"
proof -
  let ?found = "find (\<lambda>t. tr_project t = project \<and> sql_pending (epoch_param now) t \<and>
       \<not> list_ex (\<lambda>d. list_ex (\<lambda>dep. tr_project dep = tr_project t \<and> tr_id dep = d \<and> tr_status dep \<noteq> DONE) todos)
           (tr_deps t)) todos"
  have next_eq: "next_claimable todos project (epoch_param now) = map_option tr_id ?found"
    by (simp add: next_claimable_def sql_pending_def)
  note mirror = next_claimable_mirrors[OF assms(1,4,2)]
  show ?thesis
  proof (cases "claimable ts now")
    case Nil
    with mirror have "?found = None"
      by simp
    then show ?thesis
      by (simp add: Nil claim_todo_def next_eq)
  next
    case (Cons t rest)
    with mirror obtain row where row: "?found = Some row" "row \<in> set todos" "tr_project row = project"
        "todo_from_row row = Inr t" "sql_pending (epoch_param now) row"
      by (cases ?found) auto
    have tid: "TodoId_try_new (tr_id row) = Inr (tr_id row)"
      using assms(1) row(2) by (auto simp: todo_rows_ok_def)
    have "is_todo project (tr_id row) row" "may_claim (label me) (epoch_param now) row"
      using row(3,5) by (auto simp: is_todo_def may_claim_def sql_pending_def)
    from claim_free_row[OF assms(1) row(2) this(1) row(4) this(2) assms(3,5,4)] show ?thesis
      using todo_from_row_fields(1)[OF row(4) tid] by (simp add: Cons claim_todo_def next_eq row(1) tid)
  qed
qed

definition sample_rows :: "todo_row list" where
  "sample_rows =
     [\<lparr>tr_project = 1, tr_id = utf ''ship'', tr_title = utf ''Ship'', tr_status = PENDING, tr_deps = [utf ''test''],
       tr_author = utf ''a'', tr_updated_at = 0, tr_owner = None, tr_claimed_until = None\<rparr>,
      \<lparr>tr_project = 1, tr_id = utf ''test'', tr_title = utf ''Test'', tr_status = IN_PROGRESS, tr_deps = [],
       tr_author = utf ''a'', tr_updated_at = 0, tr_owner = Some (utf ''a''), tr_claimed_until = Some 50\<rparr>]"

lemmas decode_simps =
  todo_from_row_def author_from_def from_label_def author_agent_def HUMAN_LABEL_def utf_def trim_id char_classes
  epoch_from_secs_def eq_ignore_ascii_case_def TodoId_try_new_def TodoTitle_try_new_def trimmed_text_def text_ok_def
  enum_from_str_def todo_statuses_def PENDING_def IN_PROGRESS_def DONE_def Let_def

definition sample_todos :: "todo list" where
  "sample_todos =
     [\<lparr>todo_id = utf ''ship'', todo_title = utf ''Ship'', todo_status = TodoPending, todo_deps = [utf ''test''],
       todo_claim = None, todo_author = Agent (utf ''a''), todo_updated_at = 0\<rparr>,
      \<lparr>todo_id = utf ''test'', todo_title = utf ''Test'', todo_status = InProgress, todo_deps = [],
       todo_claim = Some \<lparr>claim_owner = Agent (utf ''a''), claimed_until = 50\<rparr>, todo_author = Agent (utf ''a''),
       todo_updated_at = 0\<rparr>]"

lemma sample_decodes: "collect todo_from_row sample_rows = Inr sample_todos"
  by (simp add: sample_rows_def sample_todos_def decode_simps)

theorem claim_next_is_first_claimable_witness:
  "\<exists>t todos'. claim_todo sample_rows 1 (Agent (utf ''b'')) None (from_secs 60) 100 = Inr (Claimed t, todos') \<and>
     todo_id t = utf ''test'' \<and> todo_claim t = Some \<lparr>claim_owner = Agent (utf ''b''), claimed_until = 160\<rparr>"
proof -
  have each: "\<exists>t. todo_from_row row = Inr t" if "row \<in> set sample_rows" for row
    using sample_decodes that by (auto simp: collect_Inr_iff list_all2_conv_all_nth in_set_conv_nth)
  have rows_ok: "todo_rows_ok sample_rows"
    unfolding todo_rows_ok_def
  proof (intro conjI ballI)
    show "distinct (map (\<lambda>row. (tr_project row, tr_id row)) sample_rows)"
      by (simp add: sample_rows_def utf_def)
    fix row
    assume row: "row \<in> set sample_rows"
    then show "todo_row_checks row"
      by (auto simp: sample_rows_def todo_row_checks_def)
    show "TodoId_try_new (tr_id row) = Inr (tr_id row)"
      using row by (auto simp: sample_rows_def decode_simps)
    show "\<forall>until. tr_claimed_until row = Some until \<longrightarrow> until < 2 ^ 63"
      using row by (auto simp: sample_rows_def)
  qed (rule each)
  have decoded: "project_todos sample_rows 1 = Inr sample_todos"
    using sample_decodes by (simp add: project_todos_def sample_rows_def)
  have me: "from_label (label (Agent (utf ''b''))) = Inr (Agent (utf ''b''))"
    by (simp add: decode_simps)
  have times: "in_column 100" "in_column (secs_after 100 (from_secs 60))" "secs_after 100 (from_secs 60) = 160"
    by (simp_all add: in_column_def secs_after_def saturating_add_def)
  have "claimable sample_todos 100 = [sample_todos ! 1]"
    by (simp add: claimable_def sample_todos_def is_claimable_def effective_status_def claim_state_def
        claim_is_live_def utf_def)
  then show ?thesis
    using claim_next_is_first_claimable[OF rows_ok decoded me times(1,2)] times(3)
    by (auto simp: sample_todos_def)
qed

end
