(* ===== verification/StackStore.thy ===== *)
theory StackStore
  imports Application Settings CoordinationStore
begin

text \<open>
  Projects, stacks, settings and the edit log as the database holds them: \<open>project_rows.rs\<close>,
  \<open>stack_rows.rs\<close>, \<open>settings_rows.rs\<close>, \<open>edit_log_rows.rs\<close>, \<open>run_rows.rs\<close> and
  \<open>pending_idle_stop_rows.rs\<close> of \<open>muster-store/src\<close>, with the tables of \<open>migrations/\<close>. As for locks
  and todos, a table is the list of its rows, a statement is the list operation it denotes and a
  transaction that fails leaves the tables as they were. Deleting a row deletes the rows that refer
  to it, as \<open>ON DELETE CASCADE\<close> says. A path column is the path its text denotes; the model has only
  paths whose text is Unicode, so the errors for other paths do not arise.
\<close>

section \<open>The world outside\<close>

text \<open>
  What the store calls in other crates: normalisation form C, the Unicode class of format
  characters, shell quoting, the text of a path as it was written and the text of a duration.
\<close>

record store_world =
  w_nfc :: "ustring \<Rightarrow> ustring"
  w_is_format :: "uchar \<Rightarrow> bool"
  w_quote :: "ustring \<Rightarrow> ustring option"
  w_show_path :: "path \<Rightarrow> ustring"
  w_format_duration :: "duration \<Rightarrow> ustring"
  w_lowercase :: "ustring \<Rightarrow> ustring"

section \<open>Columns\<close>

definition column_integer :: "ustring \<Rightarrow> nat \<Rightarrow> config_error + int" where
  "column_integer what v = (if v < 2 ^ 63 then Inr (int v) else Inl (TooLarge what))"

definition duration_millis :: "ustring \<Rightarrow> duration \<Rightarrow> config_error + int" where
  "duration_millis what d = column_integer what ((d + NANOS_PER_MILLI - 1) div NANOS_PER_MILLI)"

definition duration_from_millis :: "ustring \<Rightarrow> int \<Rightarrow> config_error + duration" where
  "duration_from_millis what millis =
     (if 0 \<le> millis then Inr (nat millis * NANOS_PER_MILLI) else Inl (corrupt what OUT_OF_RANGE))"

definition NOT_POSITIVE_MILLIS :: ustring where
  "NOT_POSITIVE_MILLIS = utf ''it is not a positive whole number of milliseconds''"

definition NOT_A_GRACE :: ustring where
  "NOT_A_GRACE = utf ''it is not a positive whole number of milliseconds up to the longest grace''"

definition positive_from_millis :: "ustring \<Rightarrow> int \<Rightarrow> config_error + duration" where
  "positive_from_millis what millis =
     and_then (duration_from_millis what millis)
       (\<lambda>d. ok_or (PositiveDuration_try_new d) (corrupt what NOT_POSITIVE_MILLIS))"

definition grace_from_millis :: "ustring \<Rightarrow> int \<Rightarrow> config_error + duration" where
  "grace_from_millis what millis =
     and_then (duration_from_millis what millis)
       (\<lambda>d. ok_or (StopGrace_try_new d) (corrupt what NOT_A_GRACE))"

definition nanos_param :: "epoch_nanos \<Rightarrow> int" where
  "nanos_param at = (if uint at < 2 ^ 63 then uint at else 2 ^ 63 - 1)"

text \<open>Whole milliseconds survive the column.\<close>

lemma whole_millis_dvd: "is_whole_millis d \<longleftrightarrow> NANOS_PER_MILLI dvd d"
proof -
  have "NANOS_PER_MILLI dvd NANOS_PER_SEC" by (simp add: NANOS_PER_MILLI_def NANOS_PER_SEC_def)
  then show ?thesis by (simp add: is_whole_millis_def dvd_mod_iff)
qed

lemma millis_round_trip:
  assumes "is_whole_millis d" "duration_millis what d = Inr ms"
  shows "duration_from_millis other ms = Inr d" "0 \<le> ms" "ms = 0 \<longleftrightarrow> d = 0"
proof -
  from assms(1) obtain k where k: "d = NANOS_PER_MILLI * k" by (auto simp: whole_millis_dvd)
  then have "(d + NANOS_PER_MILLI - 1) div NANOS_PER_MILLI = k"
    by (simp add: NANOS_PER_MILLI_def)
  with assms(2) have ms: "ms = int k" by (simp add: duration_millis_def column_integer_def split: if_splits)
  with k show "duration_from_millis other ms = Inr d" "0 \<le> ms" "ms = 0 \<longleftrightarrow> d = 0"
    by (simp_all add: duration_from_millis_def mult.commute NANOS_PER_MILLI_def)
qed

section \<open>Idle stops\<close>

datatype idle_stop_kind = Kind_After | Kind_Never

fun idle_stop_kind_to_string :: "idle_stop_kind \<Rightarrow> ustring" where
  "idle_stop_kind_to_string Kind_After = utf ''after''"
| "idle_stop_kind_to_string Kind_Never = utf ''never''"

interpretation idle_stop_kind_choice: choice "[Kind_After, Kind_Never]" idle_stop_kind_to_string
proof
  show "inj idle_stop_kind_to_string"
  proof (rule injI)
    fix x y show "idle_stop_kind_to_string x = idle_stop_kind_to_string y \<Longrightarrow> x = y"
      by (cases x; cases y) (simp_all add: utf_def)
  qed
  fix x show "x \<in> set [Kind_After, Kind_Never]" by (cases x) simp_all
  show "trim (idle_stop_kind_to_string x) = idle_stop_kind_to_string x"
    by (cases x) (simp_all add: utf_def trim_id is_whitespace_def)
qed

datatype idle_stop_refusal = Mismatched | NotPositive

definition IDLE_STOP :: ustring where
  "IDLE_STOP = utf ''idle stop''"

definition idle_stop_columns :: "idle_stop \<Rightarrow> config_error + idle_stop_kind \<times> int option" where
  "idle_stop_columns idle =
     (case idle of
        After d \<Rightarrow> and_then (duration_millis IDLE_STOP d) (\<lambda>ms. Inr (Kind_After, Some ms))
      | Never \<Rightarrow> Inr (Kind_Never, None))"

definition idle_stop_from_columns :: "ustring \<Rightarrow> int option \<Rightarrow> idle_stop_refusal + idle_stop" where
  "idle_stop_from_columns kind millis =
     (case enum_from_str [Kind_After, Kind_Never] idle_stop_kind_to_string kind of
        None \<Rightarrow> Inl Mismatched
      | Some Kind_After \<Rightarrow>
          (case millis of
             None \<Rightarrow> Inl Mismatched
           | Some ms \<Rightarrow>
               if 0 \<le> ms then ok_or (map_option After (PositiveDuration_try_new (nat ms * NANOS_PER_MILLI))) NotPositive
               else Inl NotPositive)
      | Some Kind_Never \<Rightarrow> (case millis of None \<Rightarrow> Inr Never | Some _ \<Rightarrow> Inl Mismatched))"

definition idle_ok :: "idle_stop \<Rightarrow> bool" where
  "idle_ok i \<longleftrightarrow> (case i of Never \<Rightarrow> True | After d \<Rightarrow> is_positive d)"

lemma idle_kind_read:
  "enum_from_str [Kind_After, Kind_Never] idle_stop_kind_to_string (utf ''after'') = Some Kind_After"
  "enum_from_str [Kind_After, Kind_Never] idle_stop_kind_to_string (utf ''never'') = Some Kind_Never"
  by (simp_all add: enum_from_str_def utf_def)

lemma idle_stop_round_trip:
  assumes "idle_ok i" "idle_stop_columns i = Inr (kind, ms)"
  shows "idle_stop_from_columns (idle_stop_kind_to_string kind) ms = Inr i"
proof (cases i)
  case Never
  with assms(2) show ?thesis
    by (auto simp: idle_stop_columns_def idle_stop_from_columns_def idle_kind_read)
next
  case (After d)
  with assms(2) obtain m where m: "duration_millis IDLE_STOP d = Inr m" "kind = Kind_After" "ms = Some m"
    by (auto simp: idle_stop_columns_def and_then_Inr_iff)
  from assms(1) After have "is_positive d" by (simp add: idle_ok_def)
  with millis_round_trip(1)[OF _ m(1), of IDLE_STOP] millis_round_trip(2)[OF _ m(1)] have "nat m * NANOS_PER_MILLI = d" "0 \<le> m"
    by (auto simp: is_positive_def duration_from_millis_def)
  with After m \<open>is_positive d\<close> show ?thesis
    by (simp add: idle_stop_from_columns_def PositiveDuration_try_new_def idle_kind_read)
qed

section \<open>Tables\<close>

record project_row =
  jr_id :: int
  jr_root :: path
  jr_name :: ustring
  jr_idle_kind :: "ustring option"
  jr_idle_ms :: "int option"
  jr_registered_ns :: int
  jr_revision :: int

record process_row =
  pr_id :: int
  pr_project :: int
  pr_name_key :: ustring
  pr_name :: ustring
  pr_command :: ustring
  pr_working_dir :: "path option"
  pr_description :: "ustring option"
  pr_autostart :: bool
  pr_restart :: ustring
  pr_stop_signal :: ustring
  pr_stop_grace_ms :: int
  pr_ready_kind :: "ustring option"
  pr_ready_target :: "ustring option"
  pr_ready_timeout_ms :: "int option"

record run_row =
  rr_process :: int
  rr_status :: "int option"
  rr_signal :: "ustring option"
  rr_ended_ms :: int

record edit_row =
  er_id :: int
  er_project :: int
  er_at_ms :: int
  er_process :: "ustring option"
  er_message :: ustring

record settings_row =
  sr_desktop_notifications :: bool
  sr_default_rows :: nat
  sr_default_cols :: nat
  sr_detach_key :: ustring
  sr_log_max_size_bytes :: int
  sr_scrollback_lines :: int
  sr_color_scheme :: ustring
  sr_default_autostart :: bool
  sr_default_restart :: ustring
  sr_default_stop_signal :: ustring
  sr_default_stop_grace_ms :: int
  sr_mcp_stack_edits :: ustring
  sr_idle_stop_kind :: ustring
  sr_idle_stop_ms :: "int option"

record stack_db =
  sd_projects :: "project_row list"
  sd_processes :: "process_row list"
  sd_env :: "(int \<times> ustring \<times> ustring) list"
  sd_ports :: "(int \<times> int) list"
  sd_runs :: "run_row list"
  sd_counter :: int
  sd_edits :: "edit_row list"
  sd_raised :: "(int \<times> int) list"
  sd_pending :: "(int \<times> int) list"
  sd_settings :: "settings_row option"

text \<open>The row id an insert takes: one more than the greatest, or 1.\<close>

definition fresh_row_id :: "int list \<Rightarrow> int" where
  "fresh_row_id ids = fold max ids 0 + 1"

text \<open>\<open>SqliteStore::write\<close>: the work's tables are kept only when it succeeds.\<close>

definition store_write :: "stack_db \<Rightarrow> config_error + 'a \<times> stack_db \<Rightarrow> (config_error + 'a) \<times> stack_db" where
  "store_write db work = (case work of Inl e \<Rightarrow> (Inl e, db) | Inr (v, db') \<Rightarrow> (Inr v, db'))"

section \<open>Project rows\<close>

record unreadable_project =
  unreadable_root :: path
  unreadable_reason :: ustring

definition FOLDER_NOT_ABSOLUTE :: ustring where
  "FOLDER_NOT_ABSOLUTE = utf ''its folder is not an absolute path''"

definition NAME_EMPTY :: ustring where
  "NAME_EMPTY = utf ''its name is empty''"

definition NAME_UNSAFE :: ustring where
  "NAME_UNSAFE = utf ''its name holds a control or format character''"

definition IDLE_STOP_MISMATCHED :: ustring where
  "IDLE_STOP_MISMATCHED =
     utf ''its idle stop names a kind muster does not know, or milliseconds that kind does not take''"

definition IDLE_STOP_NOT_POSITIVE :: ustring where
  "IDLE_STOP_NOT_POSITIVE = utf ''its idle stop is not a positive whole number of milliseconds''"

definition project_from_row :: "store_world \<Rightarrow> project_row \<Rightarrow> unreadable_project + int \<times> project" where
  "project_from_row w row =
     (let unreadable = (\<lambda>why. \<lparr>unreadable_root = jr_root row, unreadable_reason = why\<rparr>)
      in and_then (ok_or (ProjectRoot_try_new (jr_root row)) (unreadable FOLDER_NOT_ABSOLUTE)) (\<lambda>root.
         and_then (map_err (\<lambda>e. unreadable (if e = NotEmptyViolated then NAME_EMPTY else NAME_UNSAFE))
           (ProjectName_try_new (w_is_format w) (jr_name row))) (\<lambda>name.
         and_then (case jr_idle_kind row of
                     None \<Rightarrow> Inr None
                   | Some kind \<Rightarrow>
                       (case idle_stop_from_columns kind (jr_idle_ms row) of
                          Inr idle \<Rightarrow> Inr (Some idle)
                        | Inl Mismatched \<Rightarrow> Inl (unreadable IDLE_STOP_MISMATCHED)
                        | Inl NotPositive \<Rightarrow> Inl (unreadable IDLE_STOP_NOT_POSITIVE))) (\<lambda>idle.
         Inr (jr_id row, \<lparr>project_root = root, project_name = name, project_idle_stop = idle\<rparr>)))))"

definition store_idle_stop ::
    "stack_db \<Rightarrow> int \<Rightarrow> idle_stop option \<Rightarrow> config_error + stack_db" where
  "store_idle_stop db project_id idle =
     and_then (case idle of
                 None \<Rightarrow> Inr (None, None)
               | Some i \<Rightarrow> and_then (idle_stop_columns i)
                   (\<lambda>(kind, ms). Inr (Some (idle_stop_kind_to_string kind), ms))) (\<lambda>(kind, ms).
     Inr (db\<lparr>sd_projects := map (\<lambda>r. if jr_id r = project_id then r\<lparr>jr_idle_kind := kind, jr_idle_ms := ms\<rparr> else r)
                (sd_projects db)\<rparr>))"

definition stored_where ::
    "store_world \<Rightarrow> stack_db \<Rightarrow> (project_row \<Rightarrow> bool) \<Rightarrow> (unreadable_project + int \<times> project) list" where
  "stored_where w db P = map (project_from_row w) (filter P (sd_projects db))"

fun oks :: "('e + 'a) list \<Rightarrow> 'a list" where
  "oks [] = []"
| "oks (Inl _ # rs) = oks rs"
| "oks (Inr x # rs) = x # oks rs"

fun errs :: "('e + 'a) list \<Rightarrow> 'e list" where
  "errs [] = []"
| "errs (Inl e # rs) = e # errs rs"
| "errs (Inr _ # rs) = errs rs"

definition readable_where :: "store_world \<Rightarrow> stack_db \<Rightarrow> (project_row \<Rightarrow> bool) \<Rightarrow> (int \<times> project) list" where
  "readable_where w db P = oks (stored_where w db P)"

definition PROJECT_AT :: ustring where
  "PROJECT_AT = utf ''project at ''"

definition unreadable_row :: "store_world \<Rightarrow> unreadable_project \<Rightarrow> config_error" where
  "unreadable_row w unreadable =
     corrupt (PROJECT_AT @ printable (w_is_format w) (w_show_path w (unreadable_root unreadable)))
       (unreadable_reason unreadable)"

definition one_where ::
    "store_world \<Rightarrow> stack_db \<Rightarrow> (project_row \<Rightarrow> bool) \<Rightarrow> config_error + (int \<times> project) option" where
  "one_where w db P =
     (case pop (stored_where w db P) of
        None \<Rightarrow> Inr None
      | Some (Inr project) \<Rightarrow> Inr (Some project)
      | Some (Inl unreadable) \<Rightarrow> Inl (unreadable_row w unreadable))"

definition find_project :: "store_world \<Rightarrow> stack_db \<Rightarrow> project_root \<Rightarrow> config_error + (int \<times> project) option" where
  "find_project w db root = one_where w db (\<lambda>r. jr_root r = root)"

definition require_project :: "store_world \<Rightarrow> stack_db \<Rightarrow> project_root \<Rightarrow> config_error + int \<times> project" where
  "require_project w db root = and_then (find_project w db root) (\<lambda>p. ok_or p (UnknownProject root))"

record registration =
  reg_project :: project
  reg_newly_registered :: bool

text \<open>
  The loop over the candidate names. The iterator has no end; one of the first candidates, as many
  as there are projects and one more, is free, so the loop is bounded by that number.
\<close>

definition root_file_name :: "project_root \<Rightarrow> ustring option" where
  "root_file_name root = (case rev root of Normal n # _ \<Rightarrow> Some n | _ \<Rightarrow> None)"

definition free_name :: "store_world \<Rightarrow> stack_db \<Rightarrow> project_root \<Rightarrow> ustring option" where
  "free_name w db root =
     find_map (\<lambda>i. case candidate (w_is_format w) (root_file_name root) i of
                     Inl _ \<Rightarrow> None
                   | Inr name \<Rightarrow> if name \<in> jr_name ` set (sd_projects db) then None else Some name)
       [0..<Suc (length (sd_projects db))]"

definition register ::
    "store_world \<Rightarrow> epoch_nanos \<Rightarrow> stack_db \<Rightarrow> project_root \<Rightarrow> config_error + (int \<times> registration) \<times> stack_db" where
  "register w now db root =
     and_then (find_project w db root) (\<lambda>stored.
     case stored of
       Some (pid, project) \<Rightarrow> Inr ((pid, \<lparr>reg_project = project, reg_newly_registered = False\<rparr>), db)
     | None \<Rightarrow>
         (case find (\<lambda>(_, other). prefix root (project_root other)) (readable_where w db (\<lambda>_. True)) of
            Some (_, held) \<Rightarrow> Inl (HoldsProject root (project_name held))
          | None \<Rightarrow>
              and_then (ok_or (free_name w db root)
                  (corrupt (utf ''project names'') (utf ''every candidate is taken''))) (\<lambda>name.
              (let pid = fresh_row_id (map jr_id (sd_projects db));
                   row = \<lparr>jr_id = pid, jr_root = root, jr_name = name, jr_idle_kind = None, jr_idle_ms = None,
                          jr_registered_ns = nanos_param now, jr_revision = 0\<rparr>;
                   project = \<lparr>project_root = root, project_name = name, project_idle_stop = None\<rparr>
               in Inr ((pid, \<lparr>reg_project = project, reg_newly_registered = True\<rparr>),
                       db\<lparr>sd_projects := sd_projects db @ [row]\<rparr>)))))"

section \<open>Process rows\<close>

definition STOP_GRACE :: ustring where
  "STOP_GRACE = utf ''stop grace''"

definition READY_TIMEOUT :: ustring where
  "READY_TIMEOUT = utf ''readiness timeout''"

definition DECLARED_PORT :: ustring where
  "DECLARED_PORT = utf ''declared port''"

definition UNSAFE_TEXT :: ustring where
  "UNSAFE_TEXT = utf ''it holds a control or format character''"

definition NOT_AN_ENV_NAME :: ustring where
  "NOT_AN_ENV_NAME = utf ''it is empty, holds '' @ [39] @ utf ''='' @ [39] @ utf '' or NUL, or starts with MUSTER_''"

definition HOLDS_NUL :: ustring where
  "HOLDS_NUL = utf ''it holds a NUL character''"

definition NOT_A_PORT :: ustring where
  "NOT_A_PORT = utf ''it is not '' @ PORT_FORM"

definition refused :: "ustring \<Rightarrow> ustring \<Rightarrow> config_error" where
  "refused what why = corrupt what why"

definition ready_from_row :: "process_row \<Rightarrow> config_error + ready_check option" where
  "ready_from_row row =
     (case (pr_ready_kind row, pr_ready_target row, pr_ready_timeout_ms row) of
        (Some kind, Some target, Some ms) \<Rightarrow>
          and_then (map_err (\<lambda>e. corrupt (utf ''readiness check'') (parse_error_to_string e)) (from_stored kind target))
            (\<lambda>p. and_then (positive_from_millis READY_TIMEOUT ms) (\<lambda>t. Inr (Some \<lparr>probe = p, timeout = t\<rparr>)))
      | _ \<Rightarrow> Inr None)"

text \<open>
  The maps of environments and ports are read once per row, and no two rows share an id, so the
  entries the source takes out of them are looked up here.
\<close>

definition process_from_row ::
    "store_world \<Rightarrow> (int \<rightharpoonup> environment) \<Rightarrow> (int \<rightharpoonup> declared_ports) \<Rightarrow> process_row \<Rightarrow>
     config_error + process_spec" where
  "process_from_row w environments ports row =
     and_then (ready_from_row row) (\<lambda>ready.
     and_then (map_err (\<lambda>e. refused (utf ''process name'') (reason UNSAFE_TEXT e))
       (ProcessName_try_new (w_is_format w) (pr_name row))) (\<lambda>name.
     and_then (map_err (\<lambda>e. refused (utf ''command'') (reason [] e)) (CommandLine_try_new (pr_command row))) (\<lambda>command.
     and_then (case pr_description row of
                 None \<Rightarrow> Inr None
               | Some d \<Rightarrow> and_then (map_err (\<lambda>e. refused (utf ''description'') (reason [] e)) (Description_try_new d))
                   (\<lambda>d. Inr (Some d))) (\<lambda>description.
     and_then (ok_or (enum_from_str [Policy_Never, OnFailure, Always] restart_policy_to_string (pr_restart row))
       (refused (utf ''restart policy'') UNKNOWN_VARIANT)) (\<lambda>restart.
     and_then (ok_or (enum_from_str [Terminate, Interrupt] stop_signal_to_string (pr_stop_signal row))
       (refused (utf ''stop signal'') UNKNOWN_VARIANT)) (\<lambda>stop_signal.
     and_then (grace_from_millis STOP_GRACE (pr_stop_grace_ms row)) (\<lambda>grace.
     Inr \<lparr>spec_name = name, spec_command = command, spec_working_dir = pr_working_dir row,
          spec_description = description,
          spec_environment = unwrap_or (environments (pr_id row)) env_empty,
          spec_autostart = pr_autostart row, spec_restart = restart,
          spec_stop = \<lparr>signal = stop_signal, grace_period = grace\<rparr>,
          spec_ready = ready,
          spec_ports = unwrap_or (ports (pr_id row)) []\<rparr>)))))))"

definition process_ids :: "stack_db \<Rightarrow> int \<Rightarrow> int set" where
  "process_ids db project_id = pr_id ` set (filter (\<lambda>p. pr_project p = project_id) (sd_processes db))"

fun gather_ports :: "(int \<rightharpoonup> declared_ports) \<Rightarrow> (int \<times> int) list \<Rightarrow> config_error + (int \<rightharpoonup> declared_ports)" where
  "gather_ports ports [] = Inr ports"
| "gather_ports ports ((process_id, port) # rest) =
     (if \<not> (0 \<le> port \<and> port < 2 ^ 16) then Inl (refused DECLARED_PORT OUT_OF_RANGE)
      else (case LocalPort_try_new (nat port) of
              None \<Rightarrow> Inl (refused DECLARED_PORT NOT_A_PORT)
            | Some p \<Rightarrow>
                gather_ports (ports(process_id \<mapsto> insort_insert p (unwrap_or (ports process_id) []))) rest))"

definition ports_of :: "stack_db \<Rightarrow> int \<Rightarrow> config_error + (int \<rightharpoonup> declared_ports)" where
  "ports_of db project_id =
     gather_ports Map.empty (filter (\<lambda>(process_id, _). process_id \<in> process_ids db project_id) (sd_ports db))"

fun gather_env ::
    "(int \<rightharpoonup> environment) \<Rightarrow> (int \<times> ustring \<times> ustring) list \<Rightarrow> config_error + (int \<rightharpoonup> environment)" where
  "gather_env environments [] = Inr environments"
| "gather_env environments ((process_id, name, v) # rest) =
     and_then (map_err (\<lambda>_. refused (utf ''variable name'') NOT_AN_ENV_NAME) (EnvName_try_new name)) (\<lambda>name.
     and_then (map_err (\<lambda>_. refused (utf ''variable value'') HOLDS_NUL) (EnvValue_try_new v)) (\<lambda>v.
     gather_env (environments(process_id \<mapsto> with_var (unwrap_or (environments process_id) env_empty) name v)) rest))"

definition environments_of :: "stack_db \<Rightarrow> int \<Rightarrow> config_error + (int \<rightharpoonup> environment)" where
  "environments_of db project_id =
     gather_env Map.empty (filter (\<lambda>(process_id, _). process_id \<in> process_ids db project_id) (sd_env db))"

definition stack_of :: "store_world \<Rightarrow> stack_db \<Rightarrow> int \<times> project \<Rightarrow> config_error + stack" where
  "stack_of w db = (\<lambda>(project_id, project).
     and_then (environments_of db project_id) (\<lambda>environments.
     and_then (ports_of db project_id) (\<lambda>ports.
     and_then (collect (process_from_row w environments ports)
         (sort_key pr_id (filter (\<lambda>p. pr_project p = project_id) (sd_processes db)))) (\<lambda>processes.
     Inr \<lparr>stack_project = project, stack_processes = processes\<rparr>))))"

definition process_count :: "stack_db \<Rightarrow> int \<Rightarrow> nat" where
  "process_count db project_id = length (filter (\<lambda>p. pr_project p = project_id) (sd_processes db))"

definition insert_environment :: "stack_db \<Rightarrow> int \<Rightarrow> process_spec \<Rightarrow> stack_db" where
  "insert_environment db process_id spec =
     db\<lparr>sd_env := sd_env db @ map (\<lambda>(name, v). (process_id, name, v)) (spec_environment spec)\<rparr>"

definition insert_ports :: "stack_db \<Rightarrow> int \<Rightarrow> process_spec \<Rightarrow> stack_db" where
  "insert_ports db process_id spec =
     db\<lparr>sd_ports := sd_ports db @ map (\<lambda>p. (process_id, int p)) (spec_ports spec)\<rparr>"

text \<open>The columns of a definition, in a row of the id and the project given.\<close>

definition process_params ::
    "store_world \<Rightarrow> int \<Rightarrow> int \<Rightarrow> process_spec \<Rightarrow> config_error + process_row" where
  "process_params w process_id project_id spec =
     and_then (case spec_ready spec of
                 None \<Rightarrow> Inr (None, None, None)
               | Some check \<Rightarrow>
                   (let (kind, target) = stored (probe check)
                    in and_then (duration_millis READY_TIMEOUT (timeout check))
                         (\<lambda>ms. Inr (Some (ready_kind_to_string kind), Some target, Some ms)))) (\<lambda>(kind, target, ms).
     and_then (duration_millis STOP_GRACE (grace_period (spec_stop spec))) (\<lambda>grace.
     Inr \<lparr>pr_id = process_id, pr_project = project_id, pr_name_key = spec_key (w_nfc w) spec,
          pr_name = spec_name spec, pr_command = spec_command spec, pr_working_dir = spec_working_dir spec,
          pr_description = spec_description spec, pr_autostart = spec_autostart spec,
          pr_restart = restart_policy_to_string (spec_restart spec),
          pr_stop_signal = stop_signal_to_string (signal (spec_stop spec)), pr_stop_grace_ms = grace,
          pr_ready_kind = kind, pr_ready_target = target, pr_ready_timeout_ms = ms\<rparr>))"

text \<open>The table's own conditions; \<open>trim\<close> of SQL strips blanks only.\<close>

definition process_row_checks :: "process_row \<Rightarrow> bool" where
  "process_row_checks row \<longleftrightarrow>
     trim_with (\<lambda>c. c = 32) (pr_command row) \<noteq> [] \<and>
     pr_restart row \<in> {utf ''never'', utf ''on-failure'', utf ''always''} \<and>
     pr_stop_signal row \<in> {utf ''terminate'', utf ''interrupt''} \<and>
     0 < pr_stop_grace_ms row \<and>
     (case pr_ready_kind row of None \<Rightarrow> True | Some k \<Rightarrow> k \<in> {utf ''log'', utf ''regex'', utf ''port'', utf ''http''}) \<and>
     (case pr_ready_timeout_ms row of None \<Rightarrow> True | Some ms \<Rightarrow> 0 < ms) \<and>
     (pr_ready_kind row = None) = (pr_ready_target row = None) \<and>
     (pr_ready_kind row = None) = (pr_ready_timeout_ms row = None)"

definition is_process :: "int \<Rightarrow> ustring \<Rightarrow> process_row \<Rightarrow> bool" where
  "is_process project_id key row \<longleftrightarrow> pr_project row = project_id \<and> pr_name_key row = key"

definition insert_process ::
    "store_world \<Rightarrow> stack_db \<Rightarrow> int \<Rightarrow> process_spec \<Rightarrow> config_error + stack_db" where
  "insert_process w db project_id spec =
     (let process_id = fresh_row_id (map pr_id (sd_processes db))
      in and_then (process_params w process_id project_id spec) (\<lambda>row.
         if \<not> process_row_checks row then Inl CHECK_FAILED
         else if list_ex (is_process project_id (pr_name_key row)) (sd_processes db)
         then Inl (DuplicateProcessName (spec_name spec))
         else Inr (insert_ports
                (insert_environment (db\<lparr>sd_processes := sd_processes db @ [row]\<rparr>) process_id spec)
                process_id spec)))"

text \<open>An update that finds no row returns none, which reading one row reports as an error.\<close>

definition NO_ROWS :: config_error where
  "NO_ROWS = Storage (utf ''Query returned no rows'')"

definition update_process ::
    "store_world \<Rightarrow> stack_db \<Rightarrow> int \<Rightarrow> process_spec \<Rightarrow> config_error + stack_db" where
  "update_process w db project_id spec =
     and_then (process_params w 0 project_id spec) (\<lambda>row.
     case find (is_process project_id (pr_name_key row)) (sd_processes db) of
       None \<Rightarrow> Inl NO_ROWS
     | Some before \<Rightarrow>
         (let process_id = pr_id before;
              cleared = db\<lparr>sd_processes := map (\<lambda>r. if is_process project_id (pr_name_key row) r
                                                    then row\<lparr>pr_id := pr_id r\<rparr> else r) (sd_processes db),
                           sd_env := filter (\<lambda>(p, _). p \<noteq> process_id) (sd_env db),
                           sd_ports := filter (\<lambda>(p, _). p \<noteq> process_id) (sd_ports db)\<rparr>
          in if \<not> process_row_checks row then Inl CHECK_FAILED
             else Inr (insert_ports (insert_environment cleared process_id spec) process_id spec)))"

definition delete_rows :: "stack_db \<Rightarrow> (process_row \<Rightarrow> bool) \<Rightarrow> stack_db" where
  "delete_rows db P =
     (let gone = pr_id ` set (filter P (sd_processes db))
      in db\<lparr>sd_processes := filter (\<lambda>r. \<not> P r) (sd_processes db),
            sd_env := filter (\<lambda>(p, _). p \<notin> gone) (sd_env db),
            sd_ports := filter (\<lambda>(p, _). p \<notin> gone) (sd_ports db),
            sd_runs := filter (\<lambda>r. rr_process r \<notin> gone) (sd_runs db)\<rparr>)"

definition delete_process :: "store_world \<Rightarrow> stack_db \<Rightarrow> int \<Rightarrow> ustring \<Rightarrow> stack_db" where
  "delete_process w db project_id name = delete_rows db (is_process project_id (name_key (w_nfc w) name))"

definition bump_revision :: "stack_db \<Rightarrow> int \<Rightarrow> stack_db" where
  "bump_revision db project_id =
     (let v = sd_counter db + 1
      in db\<lparr>sd_counter := v,
            sd_projects := map (\<lambda>r. if jr_id r = project_id then r\<lparr>jr_revision := v\<rparr> else r) (sd_projects db)\<rparr>)"

section \<open>The edit log\<close>

fun process_field_to_string :: "process_field \<Rightarrow> ustring" where
  "process_field_to_string Field_Command = utf ''command''"
| "process_field_to_string Field_WorkingDir = utf ''working-dir''"
| "process_field_to_string Field_Description = utf ''description''"
| "process_field_to_string Field_Environment = utf ''environment''"
| "process_field_to_string Field_Autostart = utf ''autostart''"
| "process_field_to_string Field_Restart = utf ''restart''"
| "process_field_to_string Field_StopSignal = utf ''stop-signal''"
| "process_field_to_string Field_StopGrace = utf ''stop-grace''"
| "process_field_to_string Field_Ready = utf ''ready''"
| "process_field_to_string Field_Ports = utf ''ports''"

fun setting_key_to_string :: "setting_key \<Rightarrow> ustring" where
  "setting_key_to_string DesktopNotifications = utf ''desktop-notifications''"
| "setting_key_to_string DefaultSize = utf ''default-size''"
| "setting_key_to_string Key_DetachKey = utf ''detach-key''"
| "setting_key_to_string Key_LogMaxSize = utf ''log-max-size''"
| "setting_key_to_string Scrollback = utf ''scrollback''"
| "setting_key_to_string Key_ColorScheme = utf ''color-scheme''"
| "setting_key_to_string DefaultAutostart = utf ''default-autostart''"
| "setting_key_to_string DefaultRestart = utf ''default-restart''"
| "setting_key_to_string DefaultStopSignal = utf ''default-stop-signal''"
| "setting_key_to_string DefaultStopGrace = utf ''default-stop-grace''"
| "setting_key_to_string Key_McpStackEdits = utf ''mcp-stack-edits''"
| "setting_key_to_string Key_IdleStop = utf ''idle-stop''"

datatype stack_edit =
    Edit_Added author process_spec
  | Edit_Changed author "process_field list" process_spec
  | Edit_Removed author ustring
  | Edit_Configured author setting_key ustring

fun edit_process :: "stack_edit \<Rightarrow> ustring option" where
  "edit_process (Edit_Added _ spec) = Some (spec_name spec)"
| "edit_process (Edit_Changed _ _ spec) = Some (spec_name spec)"
| "edit_process (Edit_Removed _ name) = Some name"
| "edit_process (Edit_Configured _ _ _) = None"

fun edit_author :: "stack_edit \<Rightarrow> author" where
  "edit_author (Edit_Added author _) = author"
| "edit_author (Edit_Changed author _ _) = author"
| "edit_author (Edit_Removed author _) = author"
| "edit_author (Edit_Configured author _ _) = author"

definition is_logged :: "stack_edit \<Rightarrow> bool" where
  "is_logged self \<longleftrightarrow> \<not> is_human (edit_author self)"

definition working_dir_text :: "store_world \<Rightarrow> path option \<Rightarrow> ustring" where
  "working_dir_text w dir = (case dir of Some d \<Rightarrow> w_show_path w d | None \<Rightarrow> utf ''the project root'')"

fun stack_edit_to_string :: "store_world \<Rightarrow> stack_edit \<Rightarrow> ustring" where
  "stack_edit_to_string w (Edit_Added author spec) =
     utf ''agent '' @ label author @ utf '' added '' @ shell_quoted (w_quote w) (spec_name spec) @
     utf '', running `'' @ spec_command spec @ utf ''` in '' @ working_dir_text w (spec_working_dir spec)"
| "stack_edit_to_string w (Edit_Changed author altered spec) =
     utf ''agent '' @ label author @ utf '' changed '' @ join (utf '', '') (map process_field_to_string altered) @
     utf '' of '' @ shell_quoted (w_quote w) (spec_name spec) @
     (if Field_Command \<in> set altered then utf ''; command now `'' @ spec_command spec @ utf ''`'' else []) @
     (if Field_WorkingDir \<in> set altered
      then utf ''; working dir now '' @ working_dir_text w (spec_working_dir spec) else [])"
| "stack_edit_to_string w (Edit_Removed author name) =
     utf ''agent '' @ label author @ utf '' removed '' @ shell_quoted (w_quote w) name"
| "stack_edit_to_string w (Edit_Configured author key v) =
     utf ''agent '' @ label author @ utf '' set '' @ setting_key_to_string key @ utf '' to '' @ v"

definition EDIT_LOG_RETENTION :: nat where
  "EDIT_LOG_RETENTION = 50"

definition RECORDED_AT :: ustring where
  "RECORDED_AT = utf ''edit time''"

text \<open>
  The delete keeps the newest rows of the project: those whose id is among its fifty greatest. The
  clock \<open>now\<close> is the time since the epoch.
\<close>

definition newest_ids :: "nat \<Rightarrow> int list \<Rightarrow> int set" where
  "newest_ids n ids = set (take n (rev (sort ids)))"

definition record_edit ::
    "store_world \<Rightarrow> duration \<Rightarrow> stack_db \<Rightarrow> int \<Rightarrow> stack_edit \<Rightarrow> config_error + stack_db" where
  "record_edit w now db project_id edit =
     (if \<not> is_logged edit then Inr db
      else and_then (duration_millis RECORDED_AT now) (\<lambda>at.
        (let row = \<lparr>er_id = fresh_row_id (map er_id (sd_edits db)), er_project = project_id, er_at_ms = at,
                    er_process = edit_process edit, er_message = stack_edit_to_string w edit\<rparr>;
             edits = sd_edits db @ [row];
             kept = newest_ids EDIT_LOG_RETENTION (map er_id (filter (\<lambda>r. er_project r = project_id) edits))
         in Inr (db\<lparr>sd_edits := filter (\<lambda>r. \<not> (er_project r = project_id \<and> er_id r \<notin> kept)) edits\<rparr>))))"

fun record_edit_in ::
    "store_world \<Rightarrow> duration \<Rightarrow> stack_db \<Rightarrow> int list \<Rightarrow> stack_edit \<Rightarrow> config_error + stack_db" where
  "record_edit_in w now db [] edit = Inr db"
| "record_edit_in w now db (pid # pids) edit =
     and_then (record_edit w now db pid edit) (\<lambda>db. record_edit_in w now db pids edit)"

definition record_edit_everywhere ::
    "store_world \<Rightarrow> duration \<Rightarrow> stack_db \<Rightarrow> stack_edit \<Rightarrow> config_error + stack_db" where
  "record_edit_everywhere w now db edit =
     (if \<not> is_logged edit then Inr db
      else record_edit_in w now db (sort (map jr_id (sd_projects db))) edit)"

record recorded_edit =
  rec_id :: int
  rec_at :: duration
  rec_process :: "ustring option"
  rec_message :: ustring

definition edit_from_row :: "store_world \<Rightarrow> edit_row \<Rightarrow> config_error + recorded_edit" where
  "edit_from_row w row =
     and_then (duration_from_millis RECORDED_AT (er_at_ms row)) (\<lambda>at.
     and_then (case er_process row of
                 None \<Rightarrow> Inr None
               | Some p \<Rightarrow> and_then (map_err (\<lambda>e. refused (utf ''process'') (reason UNSAFE_TEXT e))
                   (ProcessName_try_new (w_is_format w) p)) (\<lambda>p. Inr (Some p))) (\<lambda>process.
     Inr \<lparr>rec_id = er_id row, rec_at = at, rec_process = process,
          rec_message = printable (w_is_format w) (er_message row)\<rparr>))"

definition edits :: "store_world \<Rightarrow> stack_db \<Rightarrow> project_root \<Rightarrow> config_error + recorded_edit list" where
  "edits w db root =
     and_then (find_project w db root) (\<lambda>stored.
     case stored of
       None \<Rightarrow> Inr []
     | Some (pid, _) \<Rightarrow>
         collect (edit_from_row w) (sort_key er_id (filter (\<lambda>r. er_project r = pid) (sd_edits db))))"

definition raised_through :: "store_world \<Rightarrow> stack_db \<Rightarrow> project_root \<Rightarrow> config_error + int option" where
  "raised_through w db root =
     and_then (find_project w db root) (\<lambda>stored.
     case stored of None \<Rightarrow> Inr None | Some (pid, _) \<Rightarrow> Inr (map_of (sd_raised db) pid))"

definition mark_raised :: "store_world \<Rightarrow> stack_db \<Rightarrow> project_root \<Rightarrow> int \<Rightarrow> config_error + unit \<times> stack_db" where
  "mark_raised w db root edit =
     and_then (find_project w db root) (\<lambda>stored.
     case stored of
       None \<Rightarrow> Inr ((), db)
     | Some (pid, _) \<Rightarrow>
         Inr ((), db\<lparr>sd_raised :=
           (if pid \<in> fst ` set (sd_raised db)
            then map (\<lambda>(p, e). if p = pid then (p, max e edit) else (p, e)) (sd_raised db)
            else sd_raised db @ [(pid, edit)])\<rparr>))"

section \<open>Stacks\<close>

definition named :: "store_world \<Rightarrow> process_spec list \<Rightarrow> ustring \<Rightarrow> process_spec option" where
  "named w processes name =
     (let key = name_key (w_nfc w) name in find (\<lambda>spec. spec_key (w_nfc w) spec = key) processes)"

definition stack_at :: "store_world \<Rightarrow> stack_db \<Rightarrow> project_root \<Rightarrow> config_error + stack option" where
  "stack_at w db root =
     and_then (find_project w db root) (\<lambda>stored.
     case stored of None \<Rightarrow> Inr None | Some p \<Rightarrow> and_then (stack_of w db p) (\<lambda>s. Inr (Some s)))"

definition stack_revision :: "stack_db \<Rightarrow> project_root \<Rightarrow> int option" where
  "stack_revision db root = map_option jr_revision (find (\<lambda>r. jr_root r = root) (sd_projects db))"

record applied_change =
  applied_spec :: process_spec
  applied_changed :: bool

text \<open>The arguments \<open>now\<close> are the clocks read on the way: the time since the epoch and its word.\<close>

definition add_process ::
    "store_world \<Rightarrow> duration \<Rightarrow> stack_db \<Rightarrow> project_root \<Rightarrow> process_spec \<Rightarrow> author \<Rightarrow>
     config_error + registration \<times> stack_db" where
  "add_process w now db root spec author =
     and_then (check_caps spec) (\<lambda>_.
     and_then (register w (epoch_nanos_of (int now)) db root) (\<lambda>((project_id, registration), db).
     and_then (check_count (process_count db project_id + 1)) (\<lambda>_.
     and_then (insert_process w db project_id spec) (\<lambda>db.
     and_then (record_edit w now (bump_revision db project_id) project_id (Edit_Added author spec)) (\<lambda>db.
     Inr (registration, db))))))"

definition change_process ::
    "store_world \<Rightarrow> duration \<Rightarrow> stack_db \<Rightarrow> project_root \<Rightarrow> ustring \<Rightarrow> process_change \<Rightarrow> author \<Rightarrow>
     config_error + applied_change \<times> stack_db" where
  "change_process w now db root name change author =
     and_then (require_project w db root) (\<lambda>project.
     and_then (stack_of w db project) (\<lambda>stack.
     and_then (require (w_nfc w) stack name) (\<lambda>before.
     and_then (with_change before change) (\<lambda>changed.
     (let project_id = fst project; altered = differing_fields before changed
      in if altered = [] then Inr (\<lparr>applied_spec = changed, applied_changed = False\<rparr>, db)
         else and_then (update_process w db project_id changed) (\<lambda>db.
              and_then (record_edit w now (bump_revision db project_id) project_id (Edit_Changed author altered changed)) (\<lambda>db.
              Inr (\<lparr>applied_spec = changed, applied_changed = True\<rparr>, db))))))))"

definition remove_process ::
    "store_world \<Rightarrow> duration \<Rightarrow> stack_db \<Rightarrow> project_root \<Rightarrow> ustring \<Rightarrow> author \<Rightarrow>
     config_error + process_spec \<times> stack_db" where
  "remove_process w now db root name author =
     and_then (require_project w db root) (\<lambda>project.
     and_then (stack_of w db project) (\<lambda>stack.
     and_then (require (w_nfc w) stack name) (\<lambda>removed.
     and_then (record_edit w now (bump_revision (delete_process w db (fst project) name) (fst project)) (fst project)
         (Edit_Removed author (spec_name removed))) (\<lambda>db.
     Inr (removed, db)))))"

fun delete_each :: "store_world \<Rightarrow> stack_db \<Rightarrow> int \<Rightarrow> ustring list \<Rightarrow> stack_db" where
  "delete_each w db project_id [] = db"
| "delete_each w db project_id (name # names) = delete_each w (delete_process w db project_id name) project_id names"

fun write_each ::
    "(stack_db \<Rightarrow> int \<Rightarrow> process_spec \<Rightarrow> config_error + stack_db) \<Rightarrow> store_world \<Rightarrow> process_spec list \<Rightarrow>
     stack_db \<Rightarrow> int \<Rightarrow> ustring list \<Rightarrow> config_error + stack_db" where
  "write_each write w processes db project_id [] = Inr db"
| "write_each write w processes db project_id (name # names) =
     and_then (case named w processes name of Some spec \<Rightarrow> write db project_id spec | None \<Rightarrow> Inr db)
       (\<lambda>db. write_each write w processes db project_id names)"

definition import ::
    "store_world \<Rightarrow> duration \<Rightarrow> stack_db \<Rightarrow> project_root \<Rightarrow> process_spec list \<Rightarrow> import_mode \<Rightarrow>
     config_error + (registration \<times> import_plan) \<times> stack_db" where
  "import w now db root processes mode =
     and_then (register w (epoch_nanos_of (int now)) db root) (\<lambda>((project_id, registration), db).
     and_then (stack_of w db (project_id, reg_project registration)) (\<lambda>stack.
     and_then (plan_import (w_nfc w) stack processes mode) (\<lambda>plan.
     and_then (write_each (update_process w) w processes (delete_each w db project_id (removed plan)) project_id (updated plan)) (\<lambda>db.
     and_then (write_each (insert_process w) w processes db project_id (added plan)) (\<lambda>db.
     Inr ((registration, plan), bump_revision db project_id))))))"

definition set_idle_stop_at ::
    "store_world \<Rightarrow> stack_db \<Rightarrow> project_root \<Rightarrow> idle_stop option \<Rightarrow> config_error + project \<times> stack_db" where
  "set_idle_stop_at w db root idle =
     and_then (require_project w db root) (\<lambda>(project_id, _).
     and_then (store_idle_stop db project_id idle) (\<lambda>db.
     (let db = bump_revision db project_id
      in and_then (require_project w db root) (\<lambda>(_, project). Inr (project, db)))))"

section \<open>Projects\<close>

definition projects :: "store_world \<Rightarrow> stack_db \<Rightarrow> project list" where
  "projects w db = map snd (oks (map (project_from_row w) (sort_key jr_name (sd_projects db))))"

definition unreadable_projects :: "store_world \<Rightarrow> stack_db \<Rightarrow> unreadable_project list" where
  "unreadable_projects w db =
     errs (map (project_from_row w) (sort_key (\<lambda>r. w_show_path w (jr_root r)) (sd_projects db)))"

definition project_at :: "store_world \<Rightarrow> stack_db \<Rightarrow> project_root \<Rightarrow> config_error + project option" where
  "project_at w db root = and_then (find_project w db root) (\<lambda>p. Inr (map_option snd p))"

definition project_named :: "store_world \<Rightarrow> stack_db \<Rightarrow> ustring \<Rightarrow> config_error + project option" where
  "project_named w db name = and_then (one_where w db (\<lambda>r. jr_name r = name)) (\<lambda>p. Inr (map_option snd p))"

definition registered_from_row :: "project_row \<Rightarrow> epoch_nanos option" where
  "registered_from_row row = (if 0 \<le> jr_registered_ns row then Some (of_int (jr_registered_ns row)) else None)"

text \<open>\<open>Iterator::max_by_key\<close> keeps the last of the greatest.\<close>

fun max_by_key :: "('a \<Rightarrow> nat) \<Rightarrow> 'a list \<Rightarrow> 'a option" where
  "max_by_key f [] = None"
| "max_by_key f (x # xs) =
     (case max_by_key f xs of None \<Rightarrow> Some x | Some y \<Rightarrow> if f x \<le> f y then Some y else Some x)"

definition stored_root :: "unreadable_project + int \<times> project \<Rightarrow> path" where
  "stored_root row = (case row of Inl u \<Rightarrow> unreadable_root u | Inr (_, p) \<Rightarrow> project_root p)"

definition registered_project_containing ::
    "store_world \<Rightarrow> stack_db \<Rightarrow> path \<Rightarrow> config_error + (project \<times> epoch_nanos option) option" where
  "registered_project_containing w db dir =
     (case max_by_key (\<lambda>(p, _). length (stored_root p))
             (filter (\<lambda>(p, _). contains (stored_root p) dir)
                (map (\<lambda>row. (project_from_row w row, registered_from_row row)) (sd_projects db))) of
        None \<Rightarrow> Inr None
      | Some (Inr (_, project), registered) \<Rightarrow> Inr (Some (project, registered))
      | Some (Inl unreadable, _) \<Rightarrow> Inl (unreadable_row w unreadable))"

definition delete_projects :: "stack_db \<Rightarrow> (project_row \<Rightarrow> bool) \<Rightarrow> stack_db" where
  "delete_projects db P =
     (let gone = jr_id ` set (filter P (sd_projects db));
          db = delete_rows db (\<lambda>r. pr_project r \<in> gone)
      in db\<lparr>sd_projects := filter (\<lambda>r. \<not> P r) (sd_projects db),
            sd_edits := filter (\<lambda>r. er_project r \<notin> gone) (sd_edits db),
            sd_raised := filter (\<lambda>(p, _). p \<notin> gone) (sd_raised db),
            sd_pending := filter (\<lambda>(p, _). p \<notin> gone) (sd_pending db)\<rparr>)"

definition remove_project :: "stack_db \<Rightarrow> project_root \<Rightarrow> bool \<times> stack_db" where
  "remove_project db root =
     (list_ex (\<lambda>r. jr_root r = root) (sd_projects db), delete_projects db (\<lambda>r. jr_root r = root))"

definition is_err :: "'e + 'a \<Rightarrow> bool" where
  "is_err r \<longleftrightarrow> (case r of Inl _ \<Rightarrow> True | Inr _ \<Rightarrow> False)"

definition remove_unreadable_project :: "store_world \<Rightarrow> stack_db \<Rightarrow> path \<Rightarrow> bool \<times> stack_db" where
  "remove_unreadable_project w db root =
     (if \<not> list_ex is_err (stored_where w db (\<lambda>r. jr_root r = root)) then (False, db)
      else (list_ex (\<lambda>r. jr_root r = root) (sd_projects db), delete_projects db (\<lambda>r. jr_root r = root)))"

section \<open>Settings\<close>

definition idle_refusal_reason :: "idle_stop_refusal \<Rightarrow> ustring" where
  "idle_refusal_reason e =
     (case e of
        Mismatched \<Rightarrow> utf ''it names a kind muster does not know, or milliseconds that kind does not take''
      | NotPositive \<Rightarrow> NOT_POSITIVE_MILLIS)"

definition settings_from_row :: "store_world \<Rightarrow> settings_row \<Rightarrow> config_error + settings" where
  "settings_from_row w row =
     and_then (map_err InvalidDefaultSize (PtySize_try_new (sr_default_rows row) (sr_default_cols row))) (\<lambda>default_size.
     and_then (if sr_log_max_size_bytes row < 0 then Inl (refused (utf ''log size'') OUT_OF_RANGE)
               else and_then (ok_or (ByteSize_try_new (nat (sr_log_max_size_bytes row)))
                        (refused (utf ''log size'') (utf ''it is zero'')))
                      (\<lambda>bytes. ok_or (LogMaxSize_try_new bytes)
                        (refused (utf ''log size'') (utf ''it is outside the log sizes muster allows'')))) (\<lambda>log_max_size.
     and_then (if sr_scrollback_lines row < 0 then Inl (refused (utf ''scrollback'') OUT_OF_RANGE)
               else ok_or (ScrollbackLines_try_new (nat (sr_scrollback_lines row)))
                      (refused (utf ''scrollback'') (utf ''it is above the most muster allows''))) (\<lambda>scrollback.
     and_then (map_err (\<lambda>_. refused (utf ''detach key'') (utf ''it is not a Control chord muster knows''))
       (DetachKey_try_new (w_lowercase w) (sr_detach_key row))) (\<lambda>detach_key.
     and_then (ok_or (enum_from_str [Dark, Light] color_scheme_to_string (sr_color_scheme row))
       (refused (utf ''color scheme'') UNKNOWN_VARIANT)) (\<lambda>color_scheme.
     and_then (ok_or (enum_from_str [Policy_Never, OnFailure, Always] restart_policy_to_string (sr_default_restart row))
       (refused (utf ''default restart policy'') UNKNOWN_VARIANT)) (\<lambda>restart.
     and_then (ok_or (enum_from_str [Terminate, Interrupt] stop_signal_to_string (sr_default_stop_signal row))
       (refused (utf ''default stop signal'') UNKNOWN_VARIANT)) (\<lambda>stop_signal.
     and_then (grace_from_millis (utf ''default stop grace'') (sr_default_stop_grace_ms row)) (\<lambda>grace.
     and_then (ok_or (enum_from_str [Allow, ReadOnly] mcp_stack_edits_to_string (sr_mcp_stack_edits row))
       (refused (utf ''MCP stack edits'') UNKNOWN_VARIANT)) (\<lambda>mcp_stack_edits.
     and_then (map_err (\<lambda>e. refused IDLE_STOP (idle_refusal_reason e))
       (idle_stop_from_columns (sr_idle_stop_kind row) (sr_idle_stop_ms row))) (\<lambda>idle.
     Inr \<lparr>set_desktop_notifications = sr_desktop_notifications row, set_default_size = default_size,
          set_detach_key = detach_key, set_log_max_size = log_max_size, set_scrollback = scrollback,
          set_color_scheme = color_scheme, set_default_autostart = sr_default_autostart row,
          set_default_restart = restart, set_default_stop_signal = stop_signal,
          set_default_stop_grace = grace, set_mcp_stack_edits = mcp_stack_edits, set_idle_stop = idle\<rparr>))))))))))"

definition MISSING_SETTINGS :: config_error where
  "MISSING_SETTINGS = Storage (utf ''the settings row is missing'')"

definition load_settings :: "store_world \<Rightarrow> stack_db \<Rightarrow> config_error + settings" where
  "load_settings w db =
     (case sd_settings db of Some row \<Rightarrow> settings_from_row w row | None \<Rightarrow> Inl MISSING_SETTINGS)"

definition settings_to_row :: "settings \<Rightarrow> config_error + settings_row" where
  "settings_to_row s =
     and_then (idle_stop_columns (set_idle_stop s)) (\<lambda>(kind, ms).
     and_then (column_integer (utf ''log size'') (set_log_max_size s)) (\<lambda>log_max_size.
     and_then (column_integer (utf ''scrollback'') (set_scrollback s)) (\<lambda>scrollback.
     and_then (duration_millis (utf ''default stop grace'') (set_default_stop_grace s)) (\<lambda>grace.
     Inr \<lparr>sr_desktop_notifications = set_desktop_notifications s,
          sr_default_rows = rows (set_default_size s), sr_default_cols = cols (set_default_size s),
          sr_detach_key = set_detach_key s, sr_log_max_size_bytes = log_max_size,
          sr_scrollback_lines = scrollback, sr_color_scheme = color_scheme_to_string (set_color_scheme s),
          sr_default_autostart = set_default_autostart s,
          sr_default_restart = restart_policy_to_string (set_default_restart s),
          sr_default_stop_signal = stop_signal_to_string (set_default_stop_signal s),
          sr_default_stop_grace_ms = grace,
          sr_mcp_stack_edits = mcp_stack_edits_to_string (set_mcp_stack_edits s),
          sr_idle_stop_kind = idle_stop_kind_to_string kind, sr_idle_stop_ms = ms\<rparr>))))"

text \<open>The update changes the one row, when there is one.\<close>

definition store_settings :: "stack_db \<Rightarrow> settings \<Rightarrow> config_error + stack_db" where
  "store_settings db s =
     and_then (settings_to_row s) (\<lambda>row. Inr (db\<lparr>sd_settings := map_option (\<lambda>_. row) (sd_settings db)\<rparr>))"

record applied_settings =
  settings_after :: settings
  settings_changed :: bool

definition apply_setting ::
    "store_world \<Rightarrow> duration \<Rightarrow> stack_db \<Rightarrow> setting_change \<Rightarrow> author \<Rightarrow>
     config_error + applied_settings \<times> stack_db" where
  "apply_setting w now db change author =
     and_then (load_settings w db) (\<lambda>before.
     and_then (store_settings db (settings_with_change before change)) (\<lambda>db.
     and_then (load_settings w db) (\<lambda>after.
     (let altered = after \<noteq> before; key = setting_change_key change
      in and_then (if altered
                   then record_edit_everywhere w now db
                     (Edit_Configured author key (value_text (w_format_duration w) after key))
                   else Inr db) (\<lambda>db.
         Inr (\<lparr>settings_after = after, settings_changed = altered\<rparr>, db))))))"

section \<open>Ended runs and pending idle stops\<close>

record ended_run =
  end_process :: ustring
  end_outcome :: exit_outcome
  end_at :: duration

definition ENDED_AT :: ustring where
  "ENDED_AT = utf ''run end time''"

definition run_from_row :: "store_world \<Rightarrow> ustring \<Rightarrow> run_row \<Rightarrow> config_error + ended_run" where
  "run_from_row w name row =
     and_then (case (rr_status row, rr_signal row) of
                 (Some status, None) \<Rightarrow>
                   if status = 0 then Inr Succeeded
                   else if 0 \<le> status \<and> status < 2 ^ 32 then Inr (Failed (Status (nat status)))
                   else Inl (refused (utf ''exit_status'') OUT_OF_RANGE)
               | (None, Some sig) \<Rightarrow>
                   and_then (map_err (\<lambda>_. refused (utf ''exit_signal'') EMPTY) (SignalName_try_new (w_lowercase w) sig))
                     (\<lambda>s. Inr (Failed (Signal s)))
               | (None, None) \<Rightarrow> Inr FAILED_UNKNOWN
               | (Some _, Some _) \<Rightarrow> Inl (corrupt (utf ''exit_signal'') (utf ''a status and a signal''))) (\<lambda>outcome.
     and_then (map_err (\<lambda>e. refused (utf ''name'') (reason UNSAFE_TEXT e)) (ProcessName_try_new (w_is_format w) name)) (\<lambda>name.
     and_then (duration_from_millis ENDED_AT (rr_ended_ms row)) (\<lambda>at.
     Inr \<lparr>end_process = name, end_outcome = outcome, end_at = at\<rparr>)))"

definition outcome_columns :: "exit_outcome \<Rightarrow> nat option \<times> ustring option" where
  "outcome_columns outcome =
     (case outcome of
        Succeeded \<Rightarrow> (Some 0, None)
      | Failed (Status status) \<Rightarrow> (Some status, None)
      | Failed (Signal sig) \<Rightarrow> (None, Some sig)
      | Failed UnknownCause \<Rightarrow> (None, None))"

definition ended_runs :: "store_world \<Rightarrow> stack_db \<Rightarrow> project_root \<Rightarrow> config_error + ended_run list" where
  "ended_runs w db root =
     and_then (find_project w db root) (\<lambda>p.
     case p of
       None \<Rightarrow> Inr []
     | Some (pid, _) \<Rightarrow>
         collect (\<lambda>(name, run). run_from_row w name run)
           (concat (map (\<lambda>r. map (\<lambda>run. (pr_name r, run)) (filter (\<lambda>run. rr_process run = pr_id r) (sd_runs db)))
              (sort_key pr_id (filter (\<lambda>r. pr_project r = pid) (sd_processes db))))))"

definition record_end ::
    "store_world \<Rightarrow> stack_db \<Rightarrow> project_root \<Rightarrow> ended_run \<Rightarrow> config_error + unit \<times> stack_db" where
  "record_end w db root run =
     and_then (duration_millis ENDED_AT (end_at run)) (\<lambda>ended.
     and_then (find_project w db root) (\<lambda>p.
     case p of
       None \<Rightarrow> Inr ((), db)
     | Some (pid, _) \<Rightarrow>
         (let (status, sig) = outcome_columns (end_outcome run)
          in case find (is_process pid (name_key (w_nfc w) (end_process run))) (sd_processes db) of
               None \<Rightarrow> Inr ((), db)
             | Some r \<Rightarrow>
                 (let row = \<lparr>rr_process = pr_id r, rr_status = map_option int status, rr_signal = sig, rr_ended_ms = ended\<rparr>
                  in Inr ((), db\<lparr>sd_runs :=
                       (if pr_id r \<in> rr_process ` set (sd_runs db)
                        then map (\<lambda>run. if rr_process run = pr_id r then row else run) (sd_runs db)
                        else sd_runs db @ [row])\<rparr>)))))"

definition clear_end ::
    "store_world \<Rightarrow> stack_db \<Rightarrow> project_root \<Rightarrow> ustring \<Rightarrow> config_error + unit \<times> stack_db" where
  "clear_end w db root process =
     and_then (find_project w db root) (\<lambda>p.
     case p of
       None \<Rightarrow> Inr ((), db)
     | Some (pid, _) \<Rightarrow>
         (let gone = pr_id ` set (filter (is_process pid (name_key (w_nfc w) process)) (sd_processes db))
          in Inr ((), db\<lparr>sd_runs := filter (\<lambda>run. rr_process run \<notin> gone) (sd_runs db)\<rparr>)))"

record pending_idle_stop =
  pending_project :: project_root
  pending_left_at :: duration

definition LEFT_AT :: ustring where
  "LEFT_AT = utf ''idle stop leave time''"

definition pending_idle_stops :: "store_world \<Rightarrow> stack_db \<Rightarrow> config_error + pending_idle_stop list" where
  "pending_idle_stops w db =
     (let joined = concat (map (\<lambda>p. map (\<lambda>(_, ms). (jr_root p, ms)) (filter (\<lambda>(pid, _). pid = jr_id p) (sd_pending db)))
                   (sort_key (\<lambda>r. w_show_path w (jr_root r)) (sd_projects db)))
      in collect (\<lambda>(root, ms). and_then (duration_from_millis LEFT_AT ms)
             (\<lambda>at. Inr \<lparr>pending_project = root, pending_left_at = at\<rparr>))
           (filter (\<lambda>(root, _). ProjectRoot_try_new root \<noteq> None) joined))"

definition arm_idle_stop ::
    "store_world \<Rightarrow> stack_db \<Rightarrow> pending_idle_stop \<Rightarrow> config_error + unit \<times> stack_db" where
  "arm_idle_stop w db stop =
     and_then (duration_millis LEFT_AT (pending_left_at stop)) (\<lambda>ms.
     and_then (find_project w db (pending_project stop)) (\<lambda>p.
     case p of
       None \<Rightarrow> Inr ((), db)
     | Some (pid, _) \<Rightarrow>
         Inr ((), db\<lparr>sd_pending :=
           (if pid \<in> fst ` set (sd_pending db)
            then map (\<lambda>(p, m). if p = pid then (p, ms) else (p, m)) (sd_pending db)
            else sd_pending db @ [(pid, ms)])\<rparr>)))"

definition clear_idle_stop :: "store_world \<Rightarrow> stack_db \<Rightarrow> project_root \<Rightarrow> config_error + unit \<times> stack_db" where
  "clear_idle_stop w db root =
     and_then (find_project w db root) (\<lambda>p.
     case p of
       None \<Rightarrow> Inr ((), db)
     | Some (pid, _) \<Rightarrow> Inr ((), db\<lparr>sd_pending := filter (\<lambda>(p, _). p \<noteq> pid) (sd_pending db)\<rparr>))"

section \<open>A definition survives its row\<close>

text \<open>Every part of a definition is a value its type accepts.\<close>

definition spec_ok :: "store_world \<Rightarrow> process_spec \<Rightarrow> bool" where
  "spec_ok w spec \<longleftrightarrow>
     ProcessName_try_new (w_is_format w) (spec_name spec) = Inr (spec_name spec) \<and>
     CommandLine_try_new (spec_command spec) = Inr (spec_command spec) \<and>
     (case spec_description spec of None \<Rightarrow> True | Some d \<Rightarrow> Description_try_new d = Inr d) \<and>
     btree_map (spec_environment spec) \<and>
     (\<forall>(name, v) \<in> set (spec_environment spec). is_env_name name \<and> is_env_value v) \<and>
     is_grace (grace_period (spec_stop spec)) \<and>
     (case spec_ready spec of None \<Rightarrow> True | Some c \<Rightarrow> probe_ok (probe c) \<and> is_positive (timeout c)) \<and>
     btree_set (spec_ports spec) \<and> (\<forall>p \<in> set (spec_ports spec). 0 < p \<and> p < 2 ^ 16)"

text \<open>Valid rows gather into the environments of their processes, whatever their order.\<close>

lemma gather_env_valid:
  assumes "\<forall>(_, name, v) \<in> set rs. is_env_name name \<and> is_env_value v"
  shows "\<exists>m'. gather_env m rs = Inr m' \<and>
     (\<forall>i. m' i = (if i \<in> fst ` set rs
                  then Some (bmap_extend (unwrap_or (m i) env_empty) (map snd (filter (\<lambda>r. fst r = i) rs)))
                  else m i))"
  using assms
proof (induction rs arbitrary: m)
  case (Cons r rest)
  obtain process_id name v where r: "r = (process_id, name, v)" by (cases r)
  let ?m = "m(process_id \<mapsto> with_var (unwrap_or (m process_id) env_empty) name v)"
  have step: "gather_env m (r # rest) = gather_env ?m rest"
    using Cons.prems by (simp add: r EnvName_try_new_def EnvValue_try_new_def)
  have "\<forall>(_, name, v) \<in> set rest. is_env_name name \<and> is_env_value v" using Cons.prems by simp
  from Cons.IH[OF this, of ?m] obtain m' where m': "gather_env ?m rest = Inr m'"
    and at: "\<forall>i. m' i = (if i \<in> fst ` set rest
        then Some (bmap_extend (unwrap_or (?m i) env_empty) (map snd (filter (\<lambda>r. fst r = i) rest))) else ?m i)"
    by blast
  have "\<forall>i. i \<notin> fst ` set rest \<longrightarrow> filter (\<lambda>r. fst r = i) rest = []"
    by (auto simp: filter_empty_conv)
  then have "\<forall>i. m' i = (if i \<in> fst ` set (r # rest)
      then Some (bmap_extend (unwrap_or (m i) env_empty) (map snd (filter (\<lambda>r. fst r = i) (r # rest))))
      else m i)"
    unfolding at[THEN spec] r by (auto simp: with_var_def)
  with m' show ?case unfolding step by blast
qed simp

lemma gather_ports_valid:
  assumes "\<forall>(_, p) \<in> set rs. 0 < p \<and> p < 2 ^ 16"
  shows "\<exists>m'. gather_ports m rs = Inr m' \<and>
     (\<forall>i. m' i = (if i \<in> fst ` set rs
                  then Some (bset_extend (unwrap_or (m i) []) (map (nat \<circ> snd) (filter (\<lambda>r. fst r = i) rs)))
                  else m i))"
  using assms
proof (induction rs arbitrary: m)
  case (Cons r rest)
  obtain process_id port where r: "r = (process_id, port)" by (cases r)
  let ?m = "m(process_id \<mapsto> insort_insert (nat port) (unwrap_or (m process_id) []))"
  have step: "gather_ports m (r # rest) = gather_ports ?m rest"
    using Cons.prems by (simp add: r LocalPort_try_new_def)
  have "\<forall>(_, p) \<in> set rest. 0 < p \<and> p < 2 ^ 16" using Cons.prems by simp
  from Cons.IH[OF this, of ?m] obtain m' where m': "gather_ports ?m rest = Inr m'"
    and at: "\<forall>i. m' i = (if i \<in> fst ` set rest
        then Some (bset_extend (unwrap_or (?m i) []) (map (nat \<circ> snd) (filter (\<lambda>r. fst r = i) rest))) else ?m i)"
    by blast
  have "\<forall>i. i \<notin> fst ` set rest \<longrightarrow> filter (\<lambda>r. fst r = i) rest = []"
    by (auto simp: filter_empty_conv)
  then have "\<forall>i. m' i = (if i \<in> fst ` set (r # rest)
      then Some (bset_extend (unwrap_or (m i) []) (map (nat \<circ> snd) (filter (\<lambda>r. fst r = i) (r # rest))))
      else m i)"
    unfolding at[THEN spec] r by auto
  with m' show ?case unfolding step by blast
qed simp

end
