(* ===== verification/StackLaws.thy ===== *)
theory StackLaws
  imports StackStore
begin

text \<open>
  What the stack tables promise. A definition written to its rows is read back as it was. On tables
  in good order every operation keeps them in good order and does to the stored stack what an
  abstract edit does to a list of definitions, and to the stack of no other project. The stack
  revision tells any two different stacks of a project apart, also across removing the project and
  registering it again.
\<close>

section \<open>Rows and definitions\<close>

lemma bmap_extend_self:
  assumes "btree_map m"
  shows "bmap_extend [] m = m"
proof (rule btree_map_eqI)
  have "map_of (rev m) = map_of m"
    using assms by (intro map_of_inject_set[THEN iffD2]) (simp_all add: btree_map_def rev_map[symmetric])
  then show "map_of (bmap_extend [] m) = map_of m" by (simp add: map_of_bmap_extend)
qed (simp_all add: assms btree_map_extend)

lemma bset_extend_self: "btree_set s \<Longrightarrow> bset_extend [] s = s"
  by (intro btree_set_eqI) (auto simp: btree_set_extend)

lemma ready_round_trip:
  assumes "case spec_ready spec of None \<Rightarrow> True | Some c \<Rightarrow> probe_ok (probe c) \<and> is_positive (timeout c)"
    and "process_params w i pid spec = Inr row"
  shows "ready_from_row row = Inr (spec_ready spec)"
proof (cases "spec_ready spec")
  case None
  with assms(2) show ?thesis by (auto simp: process_params_def ready_from_row_def and_then_Inr_iff)
next
  case (Some c)
  obtain kind target where s: "stored (probe c) = (kind, target)" by fastforce
  with assms(2) Some obtain ms where ms: "duration_millis READY_TIMEOUT (timeout c) = Inr ms"
    and row: "pr_ready_kind row = Some (ready_kind_to_string kind)" "pr_ready_target row = Some target"
      "pr_ready_timeout_ms row = Some ms"
    by (auto simp: process_params_def and_then_Inr_iff)
  from assms(1) Some have "probe_ok (probe c)" "is_positive (timeout c)" by auto
  with millis_round_trip(1)[OF _ ms, of READY_TIMEOUT] stored_from_stored[OF _ s] row Some show ?thesis
    by (simp add: ready_from_row_def positive_from_millis_def PositiveDuration_try_new_def is_positive_def)
qed

lemma process_row_read:
  assumes ok: "spec_ok w spec" and row: "process_params w i pid spec = Inr row"
    and "unwrap_or (environments i) env_empty = spec_environment spec" "unwrap_or (ports i) [] = spec_ports spec"
  shows "process_from_row w environments ports row = Inr spec"
proof -
  have ready: "ready_from_row row = Inr (spec_ready spec)"
    using ready_round_trip[OF _ row] ok by (simp add: spec_ok_def)
  from row obtain ms where grace: "duration_millis STOP_GRACE (grace_period (spec_stop spec)) = Inr ms"
    and cols: "pr_id row = i" "pr_name row = spec_name spec" "pr_command row = spec_command spec"
      "pr_working_dir row = spec_working_dir spec" "pr_description row = spec_description spec"
      "pr_autostart row = spec_autostart spec" "pr_restart row = restart_policy_to_string (spec_restart spec)"
      "pr_stop_signal row = stop_signal_to_string (signal (spec_stop spec))" "pr_stop_grace_ms row = ms"
    by (auto simp: process_params_def and_then_Inr_iff)
  have "grace_from_millis STOP_GRACE ms = Inr (grace_period (spec_stop spec))"
    using ok millis_round_trip(1)[OF _ grace, of STOP_GRACE]
    by (auto simp: spec_ok_def grace_from_millis_def StopGrace_try_new_def is_grace_def)
  moreover have "(case spec_description spec of None \<Rightarrow> Inr None
      | Some d \<Rightarrow> and_then (map_err (\<lambda>e. refused (utf ''description'') (reason [] e)) (Description_try_new d))
          (\<lambda>d. Inr (Some d))) = Inr (spec_description spec)"
    using ok by (auto simp: spec_ok_def split: option.splits)
  ultimately show ?thesis
    using ok assms(3,4)
    by (simp add: process_from_row_def ready cols spec_ok_def
        restart_choice.enum_from_str_Some_iff[THEN iffD2, OF refl]
        stop_signal_choice.enum_from_str_Some_iff[THEN iffD2, OF refl])
qed

section \<open>Tables in good order\<close>

definition env_rows :: "stack_db \<Rightarrow> int \<Rightarrow> (ustring \<times> ustring) list" where
  "env_rows db i = map snd (filter (\<lambda>r. fst r = i) (sd_env db))"

definition port_rows :: "stack_db \<Rightarrow> int \<Rightarrow> int list" where
  "port_rows db i = map snd (filter (\<lambda>r. fst r = i) (sd_ports db))"

text \<open>A row with its variables and ports holds a definition.\<close>

definition holds :: "store_world \<Rightarrow> stack_db \<Rightarrow> process_row \<Rightarrow> process_spec \<Rightarrow> bool" where
  "holds w db row spec \<longleftrightarrow>
     spec_ok w spec \<and> process_params w (pr_id row) (pr_project row) spec = Inr row \<and>
     env_rows db (pr_id row) = spec_environment spec \<and> port_rows db (pr_id row) = map int (spec_ports spec)"

definition rows_in :: "stack_db \<Rightarrow> int \<Rightarrow> process_row list" where
  "rows_in db pid = filter (\<lambda>r. pr_project r = pid) (sd_processes db)"

definition holds_all :: "store_world \<Rightarrow> stack_db \<Rightarrow> int \<Rightarrow> process_spec list \<Rightarrow> bool" where
  "holds_all w db pid specs \<longleftrightarrow> list_all2 (holds w db) (rows_in db pid) specs"

definition rows_ok :: "store_world \<Rightarrow> stack_db \<Rightarrow> bool" where
  "rows_ok w db \<longleftrightarrow>
     sorted (map pr_id (sd_processes db)) \<and> distinct (map pr_id (sd_processes db)) \<and>
     (\<forall>r \<in> set (sd_processes db). \<exists>spec. holds w db r spec) \<and>
     distinct (map (\<lambda>r. (pr_project r, pr_name_key r)) (sd_processes db)) \<and>
     fst ` set (sd_env db) \<subseteq> pr_id ` set (sd_processes db) \<and>
     fst ` set (sd_ports db) \<subseteq> pr_id ` set (sd_processes db)"

definition projects_ok :: "store_world \<Rightarrow> stack_db \<Rightarrow> bool" where
  "projects_ok w db \<longleftrightarrow>
     0 \<le> sd_counter db \<and> distinct (map jr_id (sd_projects db)) \<and> distinct (map jr_root (sd_projects db)) \<and>
     (\<forall>r \<in> set (sd_projects db). jr_revision r \<le> sd_counter db \<and>
        (\<exists>project. project_from_row w r = Inr (jr_id r, project)))"

definition tables_ok :: "store_world \<Rightarrow> stack_db \<Rightarrow> bool" where
  "tables_ok w db \<longleftrightarrow> rows_ok w db \<and> projects_ok w db \<and>
     pr_project ` set (sd_processes db) \<subseteq> jr_id ` set (sd_projects db)"

lemma process_params_keys:
  "process_params w i pid spec = Inr row \<Longrightarrow>
   pr_id row = i \<and> pr_project row = pid \<and> pr_name_key row = spec_key (w_nfc w) spec"
  by (auto simp: process_params_def and_then_Inr_iff)

lemma holds_key: "holds w db r spec \<Longrightarrow> pr_name_key r = spec_key (w_nfc w) spec"
  unfolding holds_def using process_params_keys by blast

lemma env_rows_valid:
  assumes "rows_ok w db"
  shows "\<forall>(_, name, v) \<in> set (sd_env db). is_env_name name \<and> is_env_value v"
proof safe
  fix i name v assume e: "(i, name, v) \<in> set (sd_env db)"
  with assms obtain r spec where "r \<in> set (sd_processes db)" "pr_id r = i" "holds w db r spec"
    by (force simp: rows_ok_def)
  moreover from e have "(name, v) \<in> set (env_rows db i)" by (force simp: env_rows_def)
  ultimately show "is_env_name name" "is_env_value v" by (auto simp: holds_def spec_ok_def)
qed

lemma port_rows_valid:
  assumes "rows_ok w db"
  shows "\<forall>(_, p) \<in> set (sd_ports db). 0 < p \<and> p < 2 ^ 16"
proof -
  have "0 < p \<and> p < 2 ^ 16" if e: "(i, p) \<in> set (sd_ports db)" for i p
  proof -
    from assms e obtain r spec where "r \<in> set (sd_processes db)" "pr_id r = i" "holds w db r spec"
      by (force simp: rows_ok_def)
    moreover from e have "p \<in> set (port_rows db i)" by (force simp: port_rows_def)
    ultimately show ?thesis by (auto simp: holds_def spec_ok_def)
  qed
  then show ?thesis by auto
qed

lemma filter_fst_empty: "i \<notin> fst ` set rs \<Longrightarrow> filter (\<lambda>r. fst r = i) rs = []"
  by (auto simp: filter_empty_conv)

lemma environments_read:
  assumes "rows_ok w db"
  obtains m where "environments_of db pid = Inr m"
    "\<And>i. i \<in> process_ids db pid \<Longrightarrow> unwrap_or (m i) env_empty = bmap_extend [] (env_rows db i)"
proof -
  let ?rs = "filter (\<lambda>(i, _). i \<in> process_ids db pid) (sd_env db)"
  have "\<forall>(_, name, v) \<in> set ?rs. is_env_name name \<and> is_env_value v" using env_rows_valid[OF assms] by auto
  from gather_env_valid[OF this, of Map.empty] obtain m where m: "gather_env Map.empty ?rs = Inr m"
    "\<forall>i. m i = (if i \<in> fst ` set ?rs then Some (bmap_extend env_empty (map snd (filter (\<lambda>r. fst r = i) ?rs))) else None)"
    by auto
  have "unwrap_or (m i) env_empty = bmap_extend [] (env_rows db i)" if i: "i \<in> process_ids db pid" for i
  proof -
    have rows: "filter (\<lambda>r. fst r = i) ?rs = filter (\<lambda>r. fst r = i) (sd_env db)"
      using i by (auto intro: filter_cong)
    have "env_rows db i = []" if "i \<notin> fst ` set ?rs"
      using filter_fst_empty[OF that] rows by (simp add: env_rows_def)
    with m(2) rows show ?thesis by (simp add: env_rows_def env_empty_def)
  qed
  with m(1) that show thesis by (simp add: environments_of_def)
qed

lemma ports_read:
  assumes "rows_ok w db"
  obtains m where "ports_of db pid = Inr m"
    "\<And>i. i \<in> process_ids db pid \<Longrightarrow> unwrap_or (m i) [] = bset_extend [] (map nat (port_rows db i))"
proof -
  let ?rs = "filter (\<lambda>(i, _). i \<in> process_ids db pid) (sd_ports db)"
  have "\<forall>(_, p) \<in> set ?rs. 0 < p \<and> p < 2 ^ 16" using port_rows_valid[OF assms] by auto
  from gather_ports_valid[OF this, of Map.empty] obtain m where m: "gather_ports Map.empty ?rs = Inr m"
    "\<forall>i. m i = (if i \<in> fst ` set ?rs then Some (bset_extend [] (map (nat \<circ> snd) (filter (\<lambda>r. fst r = i) ?rs))) else None)"
    by auto
  have "unwrap_or (m i) [] = bset_extend [] (map nat (port_rows db i))" if i: "i \<in> process_ids db pid" for i
  proof -
    have rows: "filter (\<lambda>r. fst r = i) ?rs = filter (\<lambda>r. fst r = i) (sd_ports db)"
      using i by (auto intro: filter_cong)
    have "port_rows db i = []" if "i \<notin> fst ` set ?rs"
      using filter_fst_empty[OF that] rows by (simp add: port_rows_def)
    with m(2) rows show ?thesis by (simp add: port_rows_def)
  qed
  with m(1) that show thesis by (simp add: ports_of_def)
qed

lemma holds_read:
  assumes "holds w db r spec"
    and "unwrap_or (environments (pr_id r)) env_empty = bmap_extend [] (env_rows db (pr_id r))"
    and "unwrap_or (ports (pr_id r)) [] = bset_extend [] (map nat (port_rows db (pr_id r)))"
  shows "process_from_row w environments ports r = Inr spec"
proof (rule process_row_read)
  show "spec_ok w spec" "process_params w (pr_id r) (pr_project r) spec = Inr r"
    using assms(1) by (simp_all add: holds_def)
  from assms(1) have "btree_map (spec_environment spec)" "btree_set (spec_ports spec)"
    by (auto simp: holds_def spec_ok_def)
  with assms show "unwrap_or (environments (pr_id r)) env_empty = spec_environment spec"
    "unwrap_or (ports (pr_id r)) [] = spec_ports spec"
    by (simp_all add: holds_def bmap_extend_self bset_extend_self comp_def)
qed

lemma collect_list_all2: "list_all2 (\<lambda>x y. f x = Inr y) xs ys \<Longrightarrow> collect f xs = Inr ys"
  by (induction rule: list_all2_induct) simp_all

text \<open>The rows in order are the definitions in order.\<close>

lemma stack_of_rows:
  assumes ok: "rows_ok w db" and specs: "holds_all w db pid specs"
  shows "stack_of w db (pid, project) = Inr \<lparr>stack_project = project, stack_processes = specs\<rparr>"
proof -
  obtain env where env: "environments_of db pid = Inr env"
    "\<And>i. i \<in> process_ids db pid \<Longrightarrow> unwrap_or (env i) env_empty = bmap_extend [] (env_rows db i)"
    using environments_read[OF ok] by blast
  obtain ports where ports: "ports_of db pid = Inr ports"
    "\<And>i. i \<in> process_ids db pid \<Longrightarrow> unwrap_or (ports i) [] = bset_extend [] (map nat (port_rows db i))"
    using ports_read[OF ok] by blast
  have ids: "pr_id r \<in> process_ids db pid" if "r \<in> set (rows_in db pid)" for r
    using that by (auto simp: rows_in_def process_ids_def)
  have "list_all2 (\<lambda>r s. process_from_row w env ports r = Inr s) (rows_in db pid) specs"
    using specs unfolding holds_all_def
    by (rule list.rel_mono_strong) (use env(2) ports(2) ids in \<open>auto intro: holds_read\<close>)
  moreover have "sort_key pr_id (rows_in db pid) = rows_in db pid"
    using ok by (intro sort_key_id_if_sorted) (auto simp: rows_in_def rows_ok_def sorted_filter)
  ultimately show ?thesis
    using env(1) ports(1) collect_list_all2[of "process_from_row w env ports"]
    by (simp add: stack_of_def rows_in_def)
qed

section \<open>Statements on the rows\<close>

lemma fresh_row_id_above: "i \<in> set ids \<Longrightarrow> i < fresh_row_id ids"
proof -
  have mono: "(m::int) \<le> fold max ids m" for ids m
  proof (induction ids arbitrary: m)
    case (Cons j ids)
    from Cons[of "max j m"] show ?case by simp
  qed simp
  have "i \<in> set ids \<Longrightarrow> i \<le> fold max ids m" for m
  proof (induction ids arbitrary: m)
    case (Cons j ids)
    show ?case
    proof (cases "i = j")
      case True
      with mono[of "max j m" ids] show ?thesis by simp
    next
      case False
      with Cons show ?thesis by simp
    qed
  qed simp
  then show "i \<in> set ids \<Longrightarrow> i < fresh_row_id ids" by (simp add: fresh_row_id_def)
qed

lemma holds_frame:
  "env_rows db' (pr_id r) = env_rows db (pr_id r) \<Longrightarrow> port_rows db' (pr_id r) = port_rows db (pr_id r) \<Longrightarrow>
   holds w db' r spec = holds w db r spec"
  by (simp add: holds_def)

lemma holds_all_frame:
  assumes "rows_in db' pid = rows_in db pid"
    and "\<And>r. r \<in> set (rows_in db pid) \<Longrightarrow>
      env_rows db' (pr_id r) = env_rows db (pr_id r) \<and> port_rows db' (pr_id r) = port_rows db (pr_id r)"
  shows "holds_all w db' pid specs = holds_all w db pid specs"
  unfolding holds_all_def assms(1)
  by (rule list.rel_cong) (use assms(2) holds_frame in blast)+

text \<open>Statements that leave the three tables of a stack alone.\<close>

definition same_rows :: "stack_db \<Rightarrow> stack_db \<Rightarrow> bool" where
  "same_rows db db' \<longleftrightarrow>
     sd_processes db' = sd_processes db \<and> sd_env db' = sd_env db \<and> sd_ports db' = sd_ports db"

lemma same_rows_holds:
  assumes "same_rows db db'"
  shows "holds w db' = holds w db" "holds_all w db' = holds_all w db" "rows_ok w db' = rows_ok w db"
proof -
  have rows: "env_rows db' = env_rows db" "port_rows db' = port_rows db" "rows_in db' = rows_in db"
    using assms by (auto simp: same_rows_def env_rows_def port_rows_def rows_in_def fun_eq_iff)
  then show holds: "holds w db' = holds w db" by (simp add: holds_def fun_eq_iff)
  show "holds_all w db' = holds_all w db" by (intro ext) (simp add: holds_all_def holds rows)
  from assms holds show "rows_ok w db' = rows_ok w db" by (simp add: rows_ok_def same_rows_def)
qed

lemma env_rows_none: "rows_ok w db \<Longrightarrow> i \<notin> pr_id ` set (sd_processes db) \<Longrightarrow> env_rows db i = [] \<and> port_rows db i = []"
  by (auto simp: rows_ok_def env_rows_def port_rows_def intro!: filter_fst_empty)

lemma filter_tagged: "filter (\<lambda>r. fst r = j) (map (Pair i) xs) = (if j = i then map (Pair i) xs else [])"
  by (auto simp: filter_map comp_def filter_empty_conv)

lemma written_rows:
  assumes "sd_env db' = es @ map (\<lambda>(n, v). (i, n, v)) (spec_environment spec)"
    and "sd_ports db' = ps @ map (\<lambda>p. (i, int p)) (spec_ports spec)"
  shows "env_rows db' j = map snd (filter (\<lambda>r. fst r = j) es) @ (if j = i then spec_environment spec else [])"
    and "port_rows db' j = map snd (filter (\<lambda>r. fst r = j) ps) @ (if j = i then map int (spec_ports spec) else [])"
proof -
  have env: "map (\<lambda>(n, v). (i, n, v)) (spec_environment spec) = map (Pair i) (spec_environment spec)" by auto
  have ports: "map (\<lambda>p. (i, int p)) (spec_ports spec) = map (Pair i) (map int (spec_ports spec))" by simp
  show "env_rows db' j = map snd (filter (\<lambda>r. fst r = j) es) @ (if j = i then spec_environment spec else [])"
    unfolding env_rows_def assms(1) env by (simp add: filter_tagged comp_def)
  show "port_rows db' j = map snd (filter (\<lambda>r. fst r = j) ps) @ (if j = i then map int (spec_ports spec) else [])"
    unfolding port_rows_def assms(2) ports filter_append filter_tagged by (simp add: comp_def)
qed

lemma insert_process_rows:
  assumes "insert_process w db pid spec = Inr db'"
  obtains i row where "i = fresh_row_id (map pr_id (sd_processes db))" "process_params w i pid spec = Inr row"
    "\<forall>r \<in> set (sd_processes db). \<not> is_process pid (pr_name_key row) r"
    "sd_processes db' = sd_processes db @ [row]"
    "sd_env db' = sd_env db @ map (\<lambda>(n, v). (i, n, v)) (spec_environment spec)"
    "sd_ports db' = sd_ports db @ map (\<lambda>p. (i, int p)) (spec_ports spec)"
    "sd_projects db' = sd_projects db" "sd_counter db' = sd_counter db" "sd_edits db' = sd_edits db"
proof -
  let ?i = "fresh_row_id (map pr_id (sd_processes db))"
  from assms obtain row where row: "process_params w ?i pid spec = Inr row"
    and fresh: "\<not> list_ex (is_process pid (pr_name_key row)) (sd_processes db)"
    and db': "db' = insert_ports (insert_environment (db\<lparr>sd_processes := sd_processes db @ [row]\<rparr>) ?i spec) ?i spec"
    by (auto simp: insert_process_def Let_def and_then_Inr_iff split: if_splits)
  show thesis
    by (rule that[OF refl row]) (use fresh in \<open>auto simp: db' insert_ports_def insert_environment_def list_ex_iff\<close>)
qed

lemma insert_process_ok:
  assumes ok: "rows_ok w db" and spec: "spec_ok w spec" and ins: "insert_process w db pid spec = Inr db'"
  shows "rows_ok w db'"
    and "holds_all w db pid specs \<Longrightarrow> holds_all w db' pid (specs @ [spec])"
    and "other \<noteq> pid \<Longrightarrow> holds_all w db' other = holds_all w db other"
proof -
  obtain i row where i: "i = fresh_row_id (map pr_id (sd_processes db))"
    and row: "process_params w i pid spec = Inr row"
    and fresh: "\<forall>r \<in> set (sd_processes db). \<not> is_process pid (pr_name_key row) r"
    and procs: "sd_processes db' = sd_processes db @ [row]"
    and env: "sd_env db' = sd_env db @ map (\<lambda>(n, v). (i, n, v)) (spec_environment spec)"
    and ports: "sd_ports db' = sd_ports db @ map (\<lambda>p. (i, int p)) (spec_ports spec)"
    and "sd_projects db' = sd_projects db" "sd_counter db' = sd_counter db" "sd_edits db' = sd_edits db"
    by (rule insert_process_rows[OF ins])
  have above: "pr_id r < i" if "r \<in> set (sd_processes db)" for r
    using that fresh_row_id_above[of "pr_id r" "map pr_id (sd_processes db)"] by (auto simp: i)
  note keys = process_params_keys[OF row]
  have new: "i \<notin> pr_id ` set (sd_processes db)" using above by force
  note written = written_rows[OF env ports, folded env_rows_def port_rows_def]
  have old: "env_rows db' (pr_id r) = env_rows db (pr_id r) \<and> port_rows db' (pr_id r) = port_rows db (pr_id r)"
    if "r \<in> set (sd_processes db)" for r
    using above[OF that] by (simp add: written)
  have here: "env_rows db' i = spec_environment spec" "port_rows db' i = map int (spec_ports spec)"
    using env_rows_none[OF ok new] by (simp_all add: written)
  have held: "holds w db' row spec" using spec row keys here by (simp add: holds_def)
  have rows: "rows_in db' p = rows_in db p @ (if p = pid then [row] else [])" for p
    using keys by (simp add: rows_in_def procs)
  have subs: "set (rows_in db p) \<subseteq> set (sd_processes db)" for p by (auto simp: rows_in_def)
  have kept: "list_all2 (holds w db') (rows_in db p) specs = holds_all w db p specs" for p specs
    unfolding holds_all_def by (rule list.rel_cong) (use subs old holds_frame in blast)+
  show "holds_all w db' pid (specs @ [spec])" if "holds_all w db pid specs"
    using that held by (simp add: holds_all_def[of w db'] rows list_all2_appendI kept)
  show "holds_all w db' other = holds_all w db other" if "other \<noteq> pid"
    using that by (simp add: fun_eq_iff holds_all_def[of w db'] rows kept)
  have "\<exists>s. holds w db' r s" if "r \<in> set (sd_processes db')" for r
    using that held ok old holds_frame[of db' r db w] by (auto simp: procs rows_ok_def)
  moreover have "(pid, pr_name_key row) \<notin> (\<lambda>r. (pr_project r, pr_name_key r)) ` set (sd_processes db)"
    using fresh by (auto simp: is_process_def)
  moreover have "sorted (map pr_id (sd_processes db'))" "distinct (map pr_id (sd_processes db'))"
    using ok new above keys by (auto simp: rows_ok_def procs sorted_append less_imp_le)
  ultimately show "rows_ok w db'"
    using ok keys by (auto simp: rows_ok_def procs env ports)
qed

lemma process_params_id:
  "process_params w i pid spec = Inr row \<Longrightarrow> process_params w j pid spec = Inr (row\<lparr>pr_id := j\<rparr>)"
  by (auto simp: process_params_def and_then_Inr_iff)

lemma list_all2_map_right: "list_all2 R xs ys \<Longrightarrow> (\<And>x y. x \<in> set xs \<Longrightarrow> R x y \<Longrightarrow> S (f x) (g y)) \<Longrightarrow> list_all2 S (map f xs) (map g ys)"
  by (induction xs ys rule: list_all2_induct) auto

lemma list_all2_filter:
  "list_all2 R xs ys \<Longrightarrow> (\<And>x y. x \<in> set xs \<Longrightarrow> R x y \<Longrightarrow> P x = Q y) \<Longrightarrow> list_all2 R (filter P xs) (filter Q ys)"
  by (induction xs ys rule: list_all2_induct) auto

lemma row_unique:
  assumes "rows_ok w db" "r \<in> set (sd_processes db)" "r' \<in> set (sd_processes db)"
    and "is_process pid key r" "is_process pid key r'"
  shows "r = r'"
  using assms unfolding rows_ok_def is_process_def by (metis (no_types, lifting) distinct_map inj_onD)

definition put_spec :: "(ustring \<Rightarrow> ustring) \<Rightarrow> process_spec \<Rightarrow> process_spec list \<Rightarrow> process_spec list" where
  "put_spec nfc spec specs = map (\<lambda>s. if spec_key nfc s = spec_key nfc spec then spec else s) specs"

lemma update_process_rows:
  assumes ok: "rows_ok w db" and upd: "update_process w db pid spec = Inr db'"
  obtains row before where "process_params w (pr_id before) pid spec = Inr row"
    "before \<in> set (sd_processes db)" "is_process pid (spec_key (w_nfc w) spec) before"
    "sd_processes db' = map (\<lambda>r. if r = before then row else r) (sd_processes db)"
    "sd_env db' = filter (\<lambda>r. fst r \<noteq> pr_id before) (sd_env db) @
       map (\<lambda>(n, v). (pr_id before, n, v)) (spec_environment spec)"
    "sd_ports db' = filter (\<lambda>r. fst r \<noteq> pr_id before) (sd_ports db) @
       map (\<lambda>p. (pr_id before, int p)) (spec_ports spec)"
    "sd_projects db' = sd_projects db" "sd_counter db' = sd_counter db" "sd_edits db' = sd_edits db"
proof -
  from upd obtain r0 before where r0: "process_params w 0 pid spec = Inr r0"
    and found: "find (is_process pid (pr_name_key r0)) (sd_processes db) = Some before"
    and db': "db' = insert_ports (insert_environment
        (db\<lparr>sd_processes := map (\<lambda>r. if is_process pid (pr_name_key r0) r then r0\<lparr>pr_id := pr_id r\<rparr> else r) (sd_processes db),
            sd_env := filter (\<lambda>(p, _). p \<noteq> pr_id before) (sd_env db),
            sd_ports := filter (\<lambda>(p, _). p \<noteq> pr_id before) (sd_ports db)\<rparr>) (pr_id before) spec) (pr_id before) spec"
    by (auto simp: update_process_def Let_def and_then_Inr_iff split: option.splits if_splits)
  from find_SomeD[OF found] have before: "before \<in> set (sd_processes db)" "is_process pid (pr_name_key r0) before" by auto
  have procs: "map (\<lambda>r. if is_process pid (pr_name_key r0) r then r0\<lparr>pr_id := pr_id r\<rparr> else r) (sd_processes db) =
      map (\<lambda>r. if r = before then r0\<lparr>pr_id := pr_id before\<rparr> else r) (sd_processes db)"
  proof (rule map_cong[OF refl])
    fix r assume "r \<in> set (sd_processes db)"
    with row_unique[OF ok _ before(1) _ before(2)] before(2)
    have "is_process pid (pr_name_key r0) r \<longleftrightarrow> r = before" by blast
    then show "(if is_process pid (pr_name_key r0) r then r0\<lparr>pr_id := pr_id r\<rparr> else r) =
        (if r = before then r0\<lparr>pr_id := pr_id before\<rparr> else r)" by simp
  qed
  have key: "pr_name_key r0 = spec_key (w_nfc w) spec" using process_params_keys[OF r0] by blast
  have rows: "sd_processes db' = map (\<lambda>r. if r = before then r0\<lparr>pr_id := pr_id before\<rparr> else r) (sd_processes db)"
    by (simp add: db' procs insert_ports_def insert_environment_def)
  show thesis
    by (rule that[OF process_params_id[OF r0] before(1) before(2)[unfolded key] rows])
      (simp_all add: db' insert_ports_def insert_environment_def case_prod_unfold)
qed

lemma update_process_ok:
  assumes ok: "rows_ok w db" and spec: "spec_ok w spec" and upd: "update_process w db pid spec = Inr db'"
  shows "rows_ok w db'"
    and "holds_all w db pid specs \<Longrightarrow> holds_all w db' pid (put_spec (w_nfc w) spec specs)"
    and "other \<noteq> pid \<Longrightarrow> holds_all w db' other = holds_all w db other"
proof -
  obtain row before where row: "process_params w (pr_id before) pid spec = Inr row"
    and before: "before \<in> set (sd_processes db)" "is_process pid (spec_key (w_nfc w) spec) before"
    and procs: "sd_processes db' = map (\<lambda>r. if r = before then row else r) (sd_processes db)"
    and env: "sd_env db' = filter (\<lambda>r. fst r \<noteq> pr_id before) (sd_env db) @
       map (\<lambda>(n, v). (pr_id before, n, v)) (spec_environment spec)"
    and ports: "sd_ports db' = filter (\<lambda>r. fst r \<noteq> pr_id before) (sd_ports db) @
       map (\<lambda>p. (pr_id before, int p)) (spec_ports spec)"
    and "sd_projects db' = sd_projects db" "sd_counter db' = sd_counter db" "sd_edits db' = sd_edits db"
    by (rule update_process_rows[OF ok upd])
  note keys = process_params_keys[OF row]
  note written = written_rows[OF env ports]
  have same: "pr_id r = pr_id before \<longleftrightarrow> r = before" if "r \<in> set (sd_processes db)" for r
    using ok that before(1) by (auto simp: rows_ok_def distinct_map inj_on_def)
  have old: "env_rows db' (pr_id r) = env_rows db (pr_id r) \<and> port_rows db' (pr_id r) = port_rows db (pr_id r)"
    if "r \<in> set (sd_processes db)" "r \<noteq> before" for r
    using same[OF that(1)] that(2) by (simp add: written) (auto simp: env_rows_def port_rows_def intro!: arg_cong[of _ _ "map snd"] filter_cong)
  have held: "holds w db' row spec"
    using spec row keys by (simp add: holds_def written filter_empty_conv)
  have still: "holds w db' r s" if "r \<in> set (sd_processes db)" "r \<noteq> before" "holds w db r s" for r s
    using holds_frame[of db' r db w s] old[OF that(1,2)] that(3) by simp
  have same_project: "pr_project (if r = before then row else r) = pr_project r" for r
    using before(2) keys by (simp add: is_process_def)
  then have rows: "rows_in db' p = map (\<lambda>r. if r = before then row else r) (rows_in db p)" for p
    by (simp add: rows_in_def procs filter_map comp_def)
  have match: "r = before \<longleftrightarrow> spec_key (w_nfc w) s = spec_key (w_nfc w) spec"
    if "r \<in> set (rows_in db pid)" "holds w db r s" for r s
  proof -
    from that have r: "r \<in> set (sd_processes db)" "is_process pid (spec_key (w_nfc w) s) r"
      using holds_key[OF that(2)] by (auto simp: rows_in_def is_process_def)
    show ?thesis
    proof
      show "r = before \<Longrightarrow> spec_key (w_nfc w) s = spec_key (w_nfc w) spec"
        using r(2) before(2) by (simp add: is_process_def)
      show "spec_key (w_nfc w) s = spec_key (w_nfc w) spec \<Longrightarrow> r = before"
        using row_unique[OF ok r(1) before(1) r(2)] before(2) by simp
    qed
  qed
  show "holds_all w db' pid (put_spec (w_nfc w) spec specs)" if "holds_all w db pid specs"
    unfolding holds_all_def rows put_spec_def
  proof (rule list_all2_map_right[OF that[unfolded holds_all_def]])
    fix r s assume r: "r \<in> set (rows_in db pid)" and h: "holds w db r s"
    show "holds w db' (if r = before then row else r) (if spec_key (w_nfc w) s = spec_key (w_nfc w) spec then spec else s)"
      using match[OF r h] held still[OF _ _ h] r by (auto simp: rows_in_def)
  qed
  show "holds_all w db' other = holds_all w db other" if other: "other \<noteq> pid"
  proof (intro ext)
    fix specs
    have no: "before \<notin> set (rows_in db other)" using before(2) other by (auto simp: rows_in_def is_process_def)
    then have "rows_in db' other = rows_in db other" unfolding rows by (auto intro: map_idI)
    moreover have "r \<in> set (rows_in db other) \<Longrightarrow> r \<noteq> before \<and> r \<in> set (sd_processes db)" for r
      using no by (auto simp: rows_in_def)
    ultimately show "holds_all w db' other specs = holds_all w db other specs"
      using old by (intro holds_all_frame) auto
  qed
  have ids: "map pr_id (sd_processes db') = map pr_id (sd_processes db)"
    using keys by (auto simp: procs)
  have names: "map (\<lambda>r. (pr_project r, pr_name_key r)) (sd_processes db') = map (\<lambda>r. (pr_project r, pr_name_key r)) (sd_processes db)"
    using keys before(2) by (auto simp: procs is_process_def)
  have "\<exists>s. holds w db' r s" if "r \<in> set (sd_processes db')" for r
  proof -
    from that consider "r = row" | "r \<in> set (sd_processes db)" "r \<noteq> before" by (auto simp: procs split: if_splits)
    then show ?thesis using held still ok unfolding rows_ok_def by metis
  qed
  moreover have "pr_id ` set (sd_processes db') = pr_id ` set (sd_processes db)"
    using ids by (metis list.set_map)
  ultimately show "rows_ok w db'"
    using ok before(1) unfolding rows_ok_def ids names by (auto simp: env ports)
qed

lemma filter_kept_tag: "i \<notin> G \<Longrightarrow> filter (\<lambda>r. fst r = i) (filter (\<lambda>(p, _). p \<notin> G) xs) = filter (\<lambda>r. fst r = i) xs"
  by (induction xs) auto

lemma delete_rows_frame:
  "i \<notin> pr_id ` set (filter P (sd_processes db)) \<Longrightarrow>
   env_rows (delete_rows db P) i = env_rows db i \<and> port_rows (delete_rows db P) i = port_rows db i"
  unfolding env_rows_def port_rows_def delete_rows_def Let_def
  by (simp add: filter_kept_tag del: set_filter filter_filter)

lemma delete_rows_ok:
  assumes ok: "rows_ok w db"
  shows "rows_ok w (delete_rows db P)"
    and "holds_all w db pid specs \<Longrightarrow>
      (\<And>r s. r \<in> set (rows_in db pid) \<Longrightarrow> holds w db r s \<Longrightarrow> P r = Q s) \<Longrightarrow>
      holds_all w (delete_rows db P) pid (filter (\<lambda>s. \<not> Q s) specs)"
proof -
  let ?db = "delete_rows db P"
  have procs: "sd_processes ?db = filter (\<lambda>r. \<not> P r) (sd_processes db)" by (simp add: delete_rows_def Let_def)
  have inj: "inj_on pr_id (set (sd_processes db))" using ok by (simp add: rows_ok_def distinct_map)
  have stays: "pr_id r \<notin> pr_id ` set (filter P (sd_processes db))" if "r \<in> set (sd_processes ?db)" for r
    using that inj by (auto simp: procs inj_on_def)
  have old: "env_rows ?db (pr_id r) = env_rows db (pr_id r) \<and> port_rows ?db (pr_id r) = port_rows db (pr_id r)"
    if "r \<in> set (sd_processes ?db)" for r
    by (rule delete_rows_frame[OF stays[OF that]])
  have still: "holds w ?db r s = holds w db r s" if "r \<in> set (sd_processes ?db)" for r s
    using holds_frame[of ?db r db w s] old[OF that] by simp
  have ids: "pr_id ` set (sd_processes ?db) = pr_id ` set (sd_processes db) - pr_id ` set (filter P (sd_processes db))"
    using inj by (auto simp: procs inj_on_def)
  have env: "fst ` set (sd_env ?db) \<subseteq> fst ` set (sd_env db) - pr_id ` set (filter P (sd_processes db))"
    "fst ` set (sd_ports ?db) \<subseteq> fst ` set (sd_ports db) - pr_id ` set (filter P (sd_processes db))"
    by (auto simp: delete_rows_def Let_def)
  have refs: "fst ` set (sd_env db) \<subseteq> pr_id ` set (sd_processes db)" "fst ` set (sd_ports db) \<subseteq> pr_id ` set (sd_processes db)"
    using ok by (simp_all add: rows_ok_def)
  have "\<exists>s. holds w ?db r s" if "r \<in> set (sd_processes ?db)" for r
    using still[OF that] that ok by (auto simp: procs rows_ok_def)
  moreover have "sorted (map pr_id (sd_processes ?db))" "distinct (map pr_id (sd_processes ?db))"
    "distinct (map (\<lambda>r. (pr_project r, pr_name_key r)) (sd_processes ?db))"
    using ok by (auto simp: procs rows_ok_def sorted_filter distinct_map_filter)
  moreover have "fst ` set (sd_env ?db) \<subseteq> pr_id ` set (sd_processes ?db)"
    "fst ` set (sd_ports ?db) \<subseteq> pr_id ` set (sd_processes ?db)"
    using Diff_mono[OF refs(1) subset_refl] Diff_mono[OF refs(2) subset_refl] env
    unfolding ids by (meson order_trans)+
  ultimately show "rows_ok w ?db" by (simp add: rows_ok_def)
  show "holds_all w ?db pid (filter (\<lambda>s. \<not> Q s) specs)"
    if all: "holds_all w db pid specs" and Q: "\<And>r s. r \<in> set (rows_in db pid) \<Longrightarrow> holds w db r s \<Longrightarrow> P r = Q s"
  proof -
    have rows: "rows_in ?db pid = filter (\<lambda>r. \<not> P r) (rows_in db pid)"
      by (simp add: rows_in_def procs conj_commute)
    have "list_all2 (holds w db) (filter (\<lambda>r. \<not> P r) (rows_in db pid)) (filter (\<lambda>s. \<not> Q s) specs)"
      using all Q unfolding holds_all_def by (intro list_all2_filter) auto
    then have "list_all2 (holds w ?db) (filter (\<lambda>r. \<not> P r) (rows_in db pid)) (filter (\<lambda>s. \<not> Q s) specs)"
      by (rule list.rel_mono_strong) (use still in \<open>auto simp: rows_in_def procs\<close>)
    then show ?thesis by (simp add: holds_all_def rows)
  qed
qed

lemma delete_rows_other:
  assumes ok: "rows_ok w db" and none: "\<And>r. r \<in> set (rows_in db q) \<Longrightarrow> \<not> P r"
  shows "holds_all w (delete_rows db P) q = holds_all w db q"
proof (intro ext)
  fix specs
  have inj: "inj_on pr_id (set (sd_processes db))" using ok by (simp add: rows_ok_def distinct_map)
  have keep: "pr_id r \<notin> pr_id ` set (filter P (sd_processes db))" if "r \<in> set (rows_in db q)" for r
    using that none[OF that] inj by (auto simp: rows_in_def inj_on_def)
  show "holds_all w (delete_rows db P) q specs = holds_all w db q specs"
  proof (rule holds_all_frame)
    show "rows_in (delete_rows db P) q = rows_in db q"
      using none by (auto simp: rows_in_def delete_rows_def Let_def intro!: filter_cong)
    show "env_rows (delete_rows db P) (pr_id r) = env_rows db (pr_id r) \<and>
        port_rows (delete_rows db P) (pr_id r) = port_rows db (pr_id r)"
      if "r \<in> set (rows_in db q)" for r
      by (rule delete_rows_frame[OF keep[OF that]])
  qed
qed

lemma delete_process_ok:
  assumes ok: "rows_ok w db"
  shows "rows_ok w (delete_process w db pid name)"
    and "holds_all w db pid specs \<Longrightarrow>
      holds_all w (delete_process w db pid name) pid (filter (\<lambda>s. spec_key (w_nfc w) s \<noteq> name_key (w_nfc w) name) specs)"
    and "other \<noteq> pid \<Longrightarrow> holds_all w (delete_process w db pid name) other = holds_all w db other"
proof -
  let ?P = "is_process pid (name_key (w_nfc w) name)"
  show "rows_ok w (delete_process w db pid name)"
    unfolding delete_process_def by (rule delete_rows_ok[OF ok])
  show "holds_all w (delete_process w db pid name) pid (filter (\<lambda>s. spec_key (w_nfc w) s \<noteq> name_key (w_nfc w) name) specs)"
    if "holds_all w db pid specs"
    unfolding delete_process_def
    by (rule delete_rows_ok(2)[OF ok that]) (auto simp: rows_in_def is_process_def dest: holds_key)
  show "holds_all w (delete_process w db pid name) other = holds_all w db other" if "other \<noteq> pid"
    unfolding delete_process_def
    by (rule delete_rows_other[OF ok]) (use that in \<open>auto simp: rows_in_def is_process_def\<close>)
qed

lemma holds_all_exists:
  assumes "rows_ok w db"
  obtains specs where "holds_all w db pid specs"
proof -
  have "\<exists>specs. list_all2 (holds w db) rs specs" if "set rs \<subseteq> set (sd_processes db)" for rs
    using that
  proof (induction rs)
    case (Cons r rs)
    moreover from Cons.prems assms obtain s where "holds w db r s" by (auto simp: rows_ok_def)
    ultimately show ?case by (metis list.rel_intros(2) list.set_intros(2) subset_code(1))
  qed (auto intro: exI[of _ "[]"])
  from this[of "rows_in db pid"] that show thesis by (auto simp: holds_all_def rows_in_def)
qed

lemma holds_all_unique_keys:
  assumes "rows_ok w db" "holds_all w db pid specs"
  shows "unique_keys (w_nfc w) specs"
proof -
  have "map (spec_key (w_nfc w)) specs = map pr_name_key (rows_in db pid)"
    using assms(2) unfolding holds_all_def
    by (induction rule: list_all2_induct) (auto dest: holds_key)
  moreover have "distinct (map pr_name_key (rows_in db pid))"
  proof -
    have "distinct (map (\<lambda>r. (pr_project r, pr_name_key r)) (rows_in db pid))"
      using assms(1) by (simp add: rows_ok_def rows_in_def distinct_map_filter)
    then show ?thesis by (auto simp: distinct_map inj_on_def rows_in_def)
  qed
  ultimately show ?thesis by (simp add: unique_keys_def)
qed

lemma holds_all_spec_ok: "holds_all w db pid specs \<Longrightarrow> spec \<in> set specs \<Longrightarrow> spec_ok w spec"
  unfolding holds_all_def by (induction rule: list_all2_induct) (auto simp: holds_def)

section \<open>Projects\<close>

lemma filter_unique: "distinct (map f xs) \<Longrightarrow> x \<in> set xs \<Longrightarrow> filter (\<lambda>y. f y = f x) xs = [x]"
proof (induction xs)
  case (Cons y ys)
  show ?case
  proof (cases "x = y")
    case True
    with Cons.prems have "filter (\<lambda>y. f y = f x) ys = []" by (auto simp: filter_empty_conv image_iff)
    with True show ?thesis by simp
  next
    case False
    with Cons have "x \<in> set ys" "f y \<noteq> f x" by (auto simp: image_iff)
    with Cons show ?thesis by simp
  qed
qed simp

lemma find_project_stored:
  assumes "projects_ok w db" "r \<in> set (sd_projects db)" "project_from_row w r = Inr (jr_id r, project)"
  shows "find_project w db (jr_root r) = Inr (Some (jr_id r, project))"
  using assms filter_unique[of jr_root "sd_projects db" r]
  by (simp add: projects_ok_def find_project_def one_where_def stored_where_def pop_def)

lemma find_project_none: "root \<notin> jr_root ` set (sd_projects db) \<Longrightarrow> find_project w db root = Inr None"
proof -
  assume "root \<notin> jr_root ` set (sd_projects db)"
  then have "filter (\<lambda>r. jr_root r = root) (sd_projects db) = []" by (auto simp: filter_empty_conv)
  then show ?thesis by (simp add: find_project_def one_where_def stored_where_def pop_def)
qed

lemma find_projectD:
  assumes ok: "projects_ok w db" and stored: "find_project w db root = Inr (Some (pid, project))"
  obtains r where "r \<in> set (sd_projects db)" "jr_root r = root" "jr_id r = pid"
    "project_from_row w r = Inr (pid, project)"
proof -
  have "root \<in> jr_root ` set (sd_projects db)" using stored find_project_none[of root db w] by force
  then obtain r where r: "r \<in> set (sd_projects db)" "jr_root r = root" by auto
  with ok obtain project' where p': "project_from_row w r = Inr (jr_id r, project')" by (auto simp: projects_ok_def)
  from find_project_stored[OF ok r(1) p'] r(2) stored have "jr_id r = pid" "project' = project" by auto
  with r p' that show thesis by blast
qed

text \<open>A project's row is found by the roots alone: revisions and other projects do not matter.\<close>

lemma find_project_frame:
  assumes "map (project_from_row w) (filter (\<lambda>r. jr_root r = root) (sd_projects db')) =
      map (project_from_row w) (filter (\<lambda>r. jr_root r = root) (sd_projects db))"
  shows "find_project w db' root = find_project w db root"
  unfolding find_project_def one_where_def stored_where_def assms ..

lemma bump_revision_simps [simp]:
  "sd_processes (bump_revision db pid) = sd_processes db" "sd_env (bump_revision db pid) = sd_env db"
  "sd_ports (bump_revision db pid) = sd_ports db" "sd_counter (bump_revision db pid) = sd_counter db + 1"
  "sd_edits (bump_revision db pid) = sd_edits db"
  "sd_projects (bump_revision db pid) =
     map (\<lambda>r. if jr_id r = pid then r\<lparr>jr_revision := sd_counter db + 1\<rparr> else r) (sd_projects db)"
  by (simp_all add: bump_revision_def Let_def)

lemma project_from_row_revision: "project_from_row w (r\<lparr>jr_revision := v\<rparr>) = project_from_row w r"
proof (cases r)
  case (fields a b c d e f g)
  show ?thesis
    unfolding fields project_from_row_def project_row.update_convs project_row.select_convs ..
qed

lemma bump_revision_ok:
  "projects_ok w db \<Longrightarrow> projects_ok w (bump_revision db pid)"
  "find_project w (bump_revision db pid) root = find_project w db root"
proof -
  have keys: "jr_id (if jr_id r = pid then r\<lparr>jr_revision := v\<rparr> else r) = jr_id r"
    "jr_root (if jr_id r = pid then r\<lparr>jr_revision := v\<rparr> else r) = jr_root r" for r v by simp_all
  have read: "project_from_row w (if jr_id r = pid then r\<lparr>jr_revision := v\<rparr> else r) = project_from_row w r" for r v
    by (simp add: project_from_row_revision)
  show "projects_ok w (bump_revision db pid)" if ok: "projects_ok w db"
    unfolding projects_ok_def
  proof (intro conjI ballI)
    show "0 \<le> sd_counter (bump_revision db pid)" using ok by (simp add: projects_ok_def)
    show "distinct (map jr_id (sd_projects (bump_revision db pid)))"
      "distinct (map jr_root (sd_projects (bump_revision db pid)))"
      using ok by (simp_all add: projects_ok_def comp_def keys)
    fix r assume "r \<in> set (sd_projects (bump_revision db pid))"
    then obtain r' where r': "r' \<in> set (sd_projects db)"
      "r = (if jr_id r' = pid then r'\<lparr>jr_revision := sd_counter db + 1\<rparr> else r')" by auto
    from ok r'(1) have old: "jr_revision r' \<le> sd_counter db" "\<exists>p. project_from_row w r' = Inr (jr_id r', p)"
      by (auto simp: projects_ok_def)
    show "jr_revision r \<le> sd_counter (bump_revision db pid)" using old(1) by (simp add: r'(2))
    show "\<exists>p. project_from_row w r = Inr (jr_id r, p)" using old(2) unfolding r'(2) read keys .
  qed
  show "find_project w (bump_revision db pid) root = find_project w db root"
    by (rule find_project_frame) (simp add: filter_map comp_def keys read)
qed

lemma record_edit_fields:
  assumes "record_edit w now db pid edit = Inr db'"
  shows "sd_processes db' = sd_processes db \<and> sd_env db' = sd_env db \<and> sd_ports db' = sd_ports db \<and>
     sd_projects db' = sd_projects db \<and> sd_counter db' = sd_counter db"
proof (cases "is_logged edit")
  case True
  then show ?thesis
    using assms by (cases "duration_millis RECORDED_AT now") (clarsimp simp: record_edit_def Let_def)+
qed (use assms in \<open>simp add: record_edit_def\<close>)

lemma projects_ok_same:
  "sd_projects db' = sd_projects db \<Longrightarrow> sd_counter db' = sd_counter db \<Longrightarrow> projects_ok w db' = projects_ok w db"
  by (simp add: projects_ok_def)

lemma find_project_same: "sd_projects db' = sd_projects db \<Longrightarrow> find_project w db' = find_project w db"
  by (auto simp: find_project_def one_where_def stored_where_def fun_eq_iff)

section \<open>The stored stacks\<close>

definition specs_at :: "store_world \<Rightarrow> stack_db \<Rightarrow> project_root \<Rightarrow> process_spec list" where
  "specs_at w db root = (case stack_at w db root of Inr (Some st) \<Rightarrow> stack_processes st | _ \<Rightarrow> [])"

lemma stack_at_stored:
  assumes "rows_ok w db" "find_project w db root = Inr (Some (pid, project))" "holds_all w db pid specs"
  shows "stack_at w db root = Inr (Some \<lparr>stack_project = project, stack_processes = specs\<rparr>)"
  using stack_of_rows[OF assms(1,3)] assms(2) by (simp add: stack_at_def)

lemma stack_at_none: "find_project w db root = Inr None \<Longrightarrow> stack_at w db root = Inr None"
  by (simp add: stack_at_def)

text \<open>A project is either stored, with an id of its own and a readable stack, or unknown.\<close>

lemma stack_at_cases:
  assumes ok: "tables_ok w db"
  obtains
    (stored) r project specs where "r \<in> set (sd_projects db)" "jr_root r = root"
      "project_from_row w r = Inr (jr_id r, project)" "find_project w db root = Inr (Some (jr_id r, project))"
      "holds_all w db (jr_id r) specs"
      "stack_at w db root = Inr (Some \<lparr>stack_project = project, stack_processes = specs\<rparr>)" "specs_at w db root = specs"
  | (unknown) "root \<notin> jr_root ` set (sd_projects db)" "find_project w db root = Inr None"
      "stack_at w db root = Inr None" "specs_at w db root = []"
proof (cases "root \<in> jr_root ` set (sd_projects db)")
  case True
  then obtain r where r: "r \<in> set (sd_projects db)" "jr_root r = root" by auto
  from ok have pok: "projects_ok w db" and rok: "rows_ok w db" by (simp_all add: tables_ok_def)
  with r obtain project where p: "project_from_row w r = Inr (jr_id r, project)" by (auto simp: projects_ok_def)
  from find_project_stored[OF pok r(1) p] r have f: "find_project w db root = Inr (Some (jr_id r, project))" by simp
  obtain specs where specs: "holds_all w db (jr_id r) specs" using holds_all_exists[OF rok] .
  from stack_at_stored[OF rok f specs] have s: "stack_at w db root = Inr (Some \<lparr>stack_project = project, stack_processes = specs\<rparr>)" .
  show thesis by (rule stored[OF r p f specs s]) (simp add: specs_at_def s)
next
  case False
  from find_project_none[OF False] have f: "find_project w db root = Inr None" .
  show thesis by (rule unknown[OF False f stack_at_none[OF f]]) (simp add: specs_at_def stack_at_none[OF f])
qed

text \<open>
  What it takes for the stack of another project to stay: its row is found as before and its rows
  hold the same definitions.
\<close>

lemma stack_at_frame:
  assumes ok: "tables_ok w db" and ok': "tables_ok w db'"
    and same: "find_project w db' root = find_project w db root"
    and rows: "\<And>pid project. find_project w db root = Inr (Some (pid, project)) \<Longrightarrow> holds_all w db' pid = holds_all w db pid"
  shows "stack_at w db' root = stack_at w db root"
  using ok
proof (cases rule: stack_at_cases[where root = root, consumes 1, case_names stored unknown])
  case (stored r project specs)
  have "holds_all w db' (jr_id r) specs" using rows[OF stored(4)] stored(5) by simp
  with ok' same stored(4) have "stack_at w db' root = Inr (Some \<lparr>stack_project = project, stack_processes = specs\<rparr>)"
    by (intro stack_at_stored) (simp_all add: tables_ok_def)
  with stored(6) show ?thesis by simp
next
  case unknown
  with same stack_at_none show ?thesis by simp
qed

end
