(* ===== verification/StackRefine.thy ===== *)
theory StackRefine
  imports StackLaws
begin

text \<open>
  The operations of the stack store against an abstract specification: a stack is a list of
  definitions, and each operation edits the list of one project. On tables in good order every
  operation that succeeds refines its edit; the stack revision names the stack.
\<close>

section \<open>An edit of one project\<close>

text \<open>
  The tables \<open>d\<close> are those of \<open>db\<close> after the project at \<open>root\<close>, of the row id \<open>pid\<close>, got the
  definitions \<open>specs\<close>, and nothing happened to the others.
\<close>

definition edited ::
    "store_world \<Rightarrow> stack_db \<Rightarrow> project_root \<Rightarrow> stack_db \<Rightarrow> int \<Rightarrow> project \<Rightarrow> process_spec list \<Rightarrow> bool" where
  "edited w db root d pid project specs \<longleftrightarrow>
     tables_ok w d \<and> find_project w d root = Inr (Some (pid, project)) \<and> holds_all w d pid specs \<and>
     sd_counter db \<le> sd_counter d \<and>
     (\<forall>other. other \<noteq> root \<longrightarrow> stack_revision d other = stack_revision db other \<and> find_project w d other = find_project w db other \<and>
        (\<forall>q p. find_project w db other = Inr (Some (q, p)) \<longrightarrow> holds_all w d q = holds_all w db q))"

lemma other_id:
  assumes "tables_ok w d" "find_project w d root = Inr (Some (pid, p))"
    and "find_project w d other = Inr (Some (q, p'))" "other \<noteq> root"
  shows "q \<noteq> pid"
proof
  assume "q = pid"
  have ok: "projects_ok w d" using assms(1) by (simp add: tables_ok_def)
  obtain r where r: "r \<in> set (sd_projects d)" "jr_root r = root" "jr_id r = pid" "project_from_row w r = Inr (pid, p)"
    by (rule find_projectD[OF ok assms(2)])
  obtain r' where r': "r' \<in> set (sd_projects d)" "jr_root r' = other" "jr_id r' = q" "project_from_row w r' = Inr (q, p')"
    by (rule find_projectD[OF ok assms(3)])
  from ok r r' \<open>q = pid\<close> have "r = r'" unfolding projects_ok_def by (metis distinct_map inj_onD)
  with r r' assms(4) show False by simp
qed

lemma edited_stack:
  assumes ok: "tables_ok w db" and e: "edited w db root d pid project specs"
  shows "stack_at w d root = Inr (Some \<lparr>stack_project = project, stack_processes = specs\<rparr>)"
    and "other \<noteq> root \<Longrightarrow> stack_at w d other = stack_at w db other"
proof -
  show "stack_at w d root = Inr (Some \<lparr>stack_project = project, stack_processes = specs\<rparr>)"
    using e by (intro stack_at_stored) (auto simp: edited_def tables_ok_def)
  show "stack_at w d other = stack_at w db other" if "other \<noteq> root"
    using e that by (intro stack_at_frame[OF ok]) (auto simp: edited_def)
qed

lemma edited_rows:
  assumes e: "edited w db root d pid project specs"
    and rows: "rows_ok w d'" "holds_all w d' pid specs'" "\<And>q. q \<noteq> pid \<Longrightarrow> holds_all w d' q = holds_all w d q"
    and projects: "sd_projects d' = sd_projects d" "sd_counter d' = sd_counter d"
    and refs: "pr_project ` set (sd_processes d') \<subseteq> insert pid (pr_project ` set (sd_processes d))"
  shows "edited w db root d' pid project specs'"
proof -
  have ok: "tables_ok w d" "find_project w d root = Inr (Some (pid, project))" using e by (simp_all add: edited_def)
  have pok: "projects_ok w d" using ok(1) by (simp add: tables_ok_def)
  obtain r where "r \<in> set (sd_projects d)" "jr_root r = root" "jr_id r = pid" "project_from_row w r = Inr (pid, project)"
    by (rule find_projectD[OF pok ok(2)])
  then have pid: "pid \<in> jr_id ` set (sd_projects d)" by blast
  have "tables_ok w d'"
    using ok(1) rows(1) projects refs pid by (auto simp: tables_ok_def projects_ok_same[OF projects])
  moreover have "holds_all w d' q = holds_all w db q"
    if "other \<noteq> root" "find_project w db other = Inr (Some (q, p))" for other q p
    using that e rows(3) other_id[OF ok _ that(1)] by (simp add: edited_def)
  ultimately show ?thesis
    using e rows(2) projects by (simp add: edited_def find_project_same[OF projects(1)] stack_revision_def)
qed

lemma edited_insert:
  assumes e: "edited w db root d pid project specs" and spec: "spec_ok w spec"
    and ins: "insert_process w d pid spec = Inr d'"
  shows "edited w db root d' pid project (specs @ [spec])"
proof -
  have ok: "rows_ok w d" "holds_all w d pid specs" using e by (auto simp: edited_def tables_ok_def)
  from ins obtain i row where "process_params w i pid spec = Inr row" "sd_processes d' = sd_processes d @ [row]"
    and same: "sd_projects d' = sd_projects d" "sd_counter d' = sd_counter d"
    by (elim insert_process_rows)
  then show ?thesis
    using process_params_keys[of w i pid spec row] insert_process_ok[OF ok(1) spec ins] ok(2)
    by (intro edited_rows[OF e _ _ _ same]) auto
qed

lemma edited_update:
  assumes e: "edited w db root d pid project specs" and spec: "spec_ok w spec"
    and upd: "update_process w d pid spec = Inr d'"
  shows "edited w db root d' pid project (put_spec (w_nfc w) spec specs)"
proof -
  have ok: "rows_ok w d" "holds_all w d pid specs" using e by (auto simp: edited_def tables_ok_def)
  obtain row before where "process_params w (pr_id before) pid spec = Inr row"
    and procs: "sd_processes d' = map (\<lambda>r. if r = before then row else r) (sd_processes d)"
    and same: "sd_projects d' = sd_projects d" "sd_counter d' = sd_counter d"
    using upd by (elim update_process_rows[OF ok(1)])
  then have "pr_project row = pid" using process_params_keys by blast
  then have "pr_project ` set (sd_processes d') \<subseteq> insert pid (pr_project ` set (sd_processes d))"
    by (auto simp: procs)
  then show ?thesis
    using update_process_ok[OF ok(1) spec upd] ok(2) by (intro edited_rows[OF e _ _ _ same]) auto
qed

lemma edited_delete:
  assumes e: "edited w db root d pid project specs"
  shows "edited w db root (delete_process w d pid name) pid project
     (filter (\<lambda>s. spec_key (w_nfc w) s \<noteq> name_key (w_nfc w) name) specs)"
proof -
  have ok: "rows_ok w d" "holds_all w d pid specs" using e by (auto simp: edited_def tables_ok_def)
  show ?thesis
    using delete_process_ok[OF ok(1), where pid = pid and name = name] ok(2)
    by (intro edited_rows[OF e]) (auto simp: delete_process_def delete_rows_def Let_def)
qed

text \<open>Statements on other tables.\<close>

lemma edited_other:
  assumes e: "edited w db root d pid project specs"
    and "same_rows d d'" "projects_ok w d'" "\<And>r. find_project w d' r = find_project w d r"
    and ids: "jr_id ` set (sd_projects d') = jr_id ` set (sd_projects d)"
    and "sd_counter d \<le> sd_counter d'" "\<And>r. r \<noteq> root \<Longrightarrow> stack_revision d' r = stack_revision d r"
  shows "edited w db root d' pid project specs"
  using assms same_rows_holds[OF assms(2), of w]
  by (simp add: edited_def tables_ok_def same_rows_def)

text \<open>A bump gives the project a revision no project had, and no other project a new one.\<close>

lemma find_map_row: "(\<And>r. jr_root (g r) = jr_root r) \<Longrightarrow> find (\<lambda>r. jr_root r = root) (map g rs) = map_option g (find (\<lambda>r. jr_root r = root) rs)"
  by (induction rs) auto

lemma bump_stack_revision:
  assumes e: "edited w db root d pid project specs"
  shows "stack_revision (bump_revision d pid) root = Some (sd_counter d + 1)"
    and "other \<noteq> root \<Longrightarrow> stack_revision (bump_revision d pid) other = stack_revision d other"
proof -
  let ?g = "\<lambda>r. if jr_id r = pid then r\<lparr>jr_revision := sd_counter d + 1\<rparr> else r"
  have pok: "projects_ok w d" and f: "find_project w d root = Inr (Some (pid, project))"
    using e by (simp_all add: edited_def tables_ok_def)
  obtain r where r: "r \<in> set (sd_projects d)" "jr_root r = root" "jr_id r = pid" "project_from_row w r = Inr (pid, project)"
    by (rule find_projectD[OF pok f])
  have row: "r' = r" if "r' \<in> set (sd_projects d)" "jr_root r' = root \<or> jr_id r' = pid" for r'
    using pok r that unfolding projects_ok_def by (metis distinct_map inj_onD)
  have read: "stack_revision (bump_revision d pid) x =
      map_option (jr_revision \<circ> ?g) (find (\<lambda>r. jr_root r = x) (sd_projects d))" for x
    by (simp add: stack_revision_def find_map_row option.map_comp)
  have "find (\<lambda>r. jr_root r = root) (sd_projects d) = Some r"
    using r row by (metis (mono_tags, lifting) find_None_iff_all find_SomeD not_Some_eq)
  then show "stack_revision (bump_revision d pid) root = Some (sd_counter d + 1)" by (simp add: read r(3))
  show "stack_revision (bump_revision d pid) other = stack_revision d other" if "other \<noteq> root"
  proof (cases "find (\<lambda>r. jr_root r = other) (sd_projects d)")
    case (Some r')
    then have "jr_id r' \<noteq> pid" using row[of r'] r(2) that by (auto dest: find_SomeD)
    with Some show ?thesis unfolding read by (simp add: stack_revision_def)
  qed (unfold read, simp add: stack_revision_def)
qed

lemma edited_bump:
  assumes e: "edited w db root d pid project specs"
  shows "edited w db root (bump_revision d pid) pid project specs"
proof (rule edited_other[OF e])
  show "r \<noteq> root \<Longrightarrow> stack_revision (bump_revision d pid) r = stack_revision d r" for r
    by (rule bump_stack_revision(2)[OF e])
  have "map jr_id (sd_projects (bump_revision d pid)) = map jr_id (sd_projects d)" by simp
  then show "jr_id ` set (sd_projects (bump_revision d pid)) = jr_id ` set (sd_projects d)"
    by (metis list.set_map)
qed (use e bump_revision_ok[of w d pid] in \<open>simp_all add: same_rows_def edited_def tables_ok_def\<close>)

lemma edited_record:
  assumes e: "edited w db root d pid project specs" and "record_edit w now d pid edit = Inr d'"
  shows "edited w db root d' pid project specs"
proof (rule edited_other[OF e])
  note same = record_edit_fields[OF assms(2)]
  show "same_rows d d'" using same by (simp add: same_rows_def)
  show "projects_ok w d'" using same e projects_ok_same[of d' d w] by (simp add: edited_def tables_ok_def)
  show "find_project w d' r = find_project w d r" for r using same find_project_same[of d' d w] by simp
  show "jr_id ` set (sd_projects d') = jr_id ` set (sd_projects d)" "sd_counter d \<le> sd_counter d'" using same by simp_all
  show "stack_revision d' r = stack_revision d r" for r using same by (simp add: stack_revision_def)
qed

text \<open>An edit is published once the project has a revision above all earlier ones.\<close>

definition published ::
    "store_world \<Rightarrow> stack_db \<Rightarrow> project_root \<Rightarrow> stack_db \<Rightarrow> int \<Rightarrow> project \<Rightarrow> process_spec list \<Rightarrow> bool" where
  "published w db root d pid project specs \<longleftrightarrow>
     edited w db root d pid project specs \<and> (\<exists>v. stack_revision d root = Some v \<and> sd_counter db < v)"

lemma published_bump:
  assumes e: "edited w db root d pid project specs"
  shows "published w db root (bump_revision d pid) pid project specs"
  using edited_bump[OF e] bump_stack_revision(1)[OF e] e by (simp add: published_def edited_def)

lemma published_record:
  assumes e: "published w db root d pid project specs" and "record_edit w now d pid edit = Inr d'"
  shows "published w db root d' pid project specs"
  using e edited_record[OF _ assms(2)] record_edit_fields[OF assms(2)]
  by (auto simp: published_def stack_revision_def)

lemma edited_start:
  assumes "tables_ok w db" "find_project w db root = Inr (Some (pid, project))" "holds_all w db pid specs"
  shows "edited w db root db pid project specs"
  using assms by (simp add: edited_def)

lemma free_name_valid:
  assumes "free_name w db root = Some name"
  shows "name \<notin> jr_name ` set (sd_projects db)" "ProjectName_try_new (w_is_format w) name = Inr name"
proof -
  from assms obtain i where i: "(case candidate (w_is_format w) (root_file_name root) i of Inl _ \<Rightarrow> None
      | Inr name \<Rightarrow> if name \<in> jr_name ` set (sd_projects db) then None else Some name) = Some name"
    unfolding free_name_def by (blast dest: find_map_SomeD)
  then have "candidate (w_is_format w) (root_file_name root) i = Inr name" "name \<notin> jr_name ` set (sd_projects db)"
    by (auto split: sum.splits if_splits)
  then show "name \<notin> jr_name ` set (sd_projects db)" "ProjectName_try_new (w_is_format w) name = Inr name"
    by (auto simp: candidate_def Let_def dest: project_name.accepted_again)
qed

text \<open>A new project's row is readable and its stack is empty.\<close>

lemma register_new:
  assumes ok: "tables_ok w db" and root: "is_absolute root" "root \<notin> jr_root ` set (sd_projects db)"
    and reg: "register w now db root = Inr ((pid, registration), d)"
  shows "edited w db root d pid (reg_project registration) []" "pid \<notin> jr_id ` set (sd_projects db)"
    and "\<exists>row. sd_projects d = sd_projects db @ [row] \<and> jr_root row = root \<and> jr_revision row = 0"
    and "sd_counter d = sd_counter db" "reg_newly_registered registration"
proof -
  have f: "find_project w db root = Inr None" by (rule find_project_none[OF root(2)])
  from reg obtain name row where name: "free_name w db root = Some name"
    and pid: "pid = fresh_row_id (map jr_id (sd_projects db))"
    and row: "row = \<lparr>jr_id = pid, jr_root = root, jr_name = name, jr_idle_kind = None, jr_idle_ms = None,
        jr_registered_ns = nanos_param now, jr_revision = 0\<rparr>"
    and project: "registration = \<lparr>reg_project = \<lparr>project_root = root, project_name = name, project_idle_stop = None\<rparr>,
        reg_newly_registered = True\<rparr>"
    and d: "d = db\<lparr>sd_projects := sd_projects db @ [row]\<rparr>"
    by (auto simp: register_def f Let_def and_then_Inr_iff split: option.splits prod.splits)
  have read: "project_from_row w row = Inr (pid, reg_project registration)"
    using root(1) free_name_valid[OF name] by (simp add: row project project_from_row_def ProjectRoot_try_new_def)
  show fresh: "pid \<notin> jr_id ` set (sd_projects db)"
    using fresh_row_id_above[of pid "map jr_id (sd_projects db)"] by (auto simp: pid)
  have pok: "projects_ok w d"
    using ok fresh root(2) read by (auto simp: d row tables_ok_def projects_ok_def)
  have same: "same_rows db d" by (simp add: same_rows_def d)
  have "rows_in db pid = []"
    using ok fresh by (auto simp: rows_in_def tables_ok_def filter_empty_conv)
  then have empty: "holds_all w db pid []" by (simp add: holds_all_def)
  have "find_project w d root = Inr (Some (pid, reg_project registration))"
    using find_project_stored[OF pok, of row] read by (simp add: d row)
  moreover have "find_project w d other = find_project w db other" if "other \<noteq> root" for other
    using that by (intro find_project_frame) (simp add: d row)
  moreover have "stack_revision d other = stack_revision db other" if "other \<noteq> root" for other
  proof -
    have "find (\<lambda>r. jr_root r = other) (rs @ [row]) = find (\<lambda>r. jr_root r = other) rs" for rs
      using that by (induction rs) (auto simp: row)
    then show ?thesis by (simp add: stack_revision_def d)
  qed
  ultimately show "edited w db root d pid (reg_project registration) []"
    using ok pok same_rows_holds[OF same, of w] empty
    by (auto simp: edited_def tables_ok_def d)
  show "\<exists>row. sd_projects d = sd_projects db @ [row] \<and> jr_root row = root \<and> jr_revision row = 0"
    by (simp add: d row)
  show "sd_counter d = sd_counter db" "reg_newly_registered registration" by (simp_all add: d project)
qed

lemma register_edited:
  assumes ok: "tables_ok w db" and root: "is_absolute root"
    and reg: "register w now db root = Inr ((pid, registration), d)"
  shows "edited w db root d pid (reg_project registration) (specs_at w db root)"
  using ok
proof (cases rule: stack_at_cases[where root = root, consumes 1, case_names stored unknown])
  case (stored r project specs)
  with reg have "pid = jr_id r" "reg_project registration = project" "d = db" by (auto simp: register_def)
  with stored edited_start[OF ok stored(4,5)] show ?thesis by simp
next
  case unknown
  with register_new(1)[OF ok root unknown(1) reg] show ?thesis by simp
qed

section \<open>The abstract edits\<close>

datatype stack_op =
    Op_Add process_spec author
  | Op_Change ustring process_change author
  | Op_Remove ustring author
  | Op_Import "process_spec list" import_mode
  | Op_IdleStop "idle_stop option"
  | Op_Forget

text \<open>The definition of a key in a list, the given one when there is none.\<close>

definition renewed :: "(ustring \<Rightarrow> ustring) \<Rightarrow> process_spec list \<Rightarrow> process_spec \<Rightarrow> process_spec" where
  "renewed nfc incoming s = unwrap_or (find (\<lambda>u. spec_key nfc u = spec_key nfc s) incoming) s"

fun edit_specs :: "(ustring \<Rightarrow> ustring) \<Rightarrow> stack_op \<Rightarrow> process_spec list \<Rightarrow> process_spec list" where
  "edit_specs nfc (Op_Add spec _) specs = specs @ [spec]"
| "edit_specs nfc (Op_Change name change _) specs =
     map (\<lambda>s. if spec_key nfc s = name_key nfc name
              then (case with_change s change of Inr s' \<Rightarrow> s' | Inl _ \<Rightarrow> s) else s) specs"
| "edit_specs nfc (Op_Remove name _) specs = filter (\<lambda>s. spec_key nfc s \<noteq> name_key nfc name) specs"
| "edit_specs nfc (Op_Import incoming mode) specs =
     map (renewed nfc incoming)
       (filter (\<lambda>s. mode = Replace \<longrightarrow> spec_key nfc s \<in> spec_key nfc ` set incoming) specs) @
     filter (\<lambda>s. spec_key nfc s \<notin> spec_key nfc ` set specs) incoming"
| "edit_specs nfc (Op_IdleStop _) specs = specs"
| "edit_specs nfc Op_Forget specs = []"

fun store_step :: "store_world \<Rightarrow> duration \<Rightarrow> stack_db \<Rightarrow> project_root \<Rightarrow> stack_op \<Rightarrow> config_error + stack_db" where
  "store_step w now db root (Op_Add spec author) = map_ok snd (add_process w now db root spec author)"
| "store_step w now db root (Op_Change name change author) =
     map_ok snd (change_process w now db root name change author)"
| "store_step w now db root (Op_Remove name author) = map_ok snd (remove_process w now db root name author)"
| "store_step w now db root (Op_Import incoming mode) = map_ok snd (import w now db root incoming mode)"
| "store_step w now db root (Op_IdleStop idle) = map_ok snd (set_idle_stop_at w db root idle)"
| "store_step w now db root Op_Forget = Inr (snd (remove_project db root))"

definition change_ok :: "process_change \<Rightarrow> bool" where
  "change_ok c \<longleftrightarrow>
     (case change_command c of None \<Rightarrow> True | Some x \<Rightarrow> CommandLine_try_new x = Inr x) \<and>
     (case change_description c of Set d \<Rightarrow> Description_try_new d = Inr d | _ \<Rightarrow> True) \<and>
     (\<forall>(name, v) \<in> set (change_set_env c). is_env_name name \<and> is_env_value v) \<and>
     (case change_stop_grace c of None \<Rightarrow> True | Some g \<Rightarrow> is_grace g) \<and>
     (case change_ready c of Set r \<Rightarrow> probe_ok (probe r) \<and> is_positive (timeout r) | _ \<Rightarrow> True) \<and>
     (case change_ports c of None \<Rightarrow> True | Some ps \<Rightarrow> btree_set ps \<and> (\<forall>p \<in> set ps. 0 < p \<and> p < 2 ^ 16))"

text \<open>The arguments of an operation are values of their types.\<close>

fun op_ok :: "store_world \<Rightarrow> stack_op \<Rightarrow> bool" where
  "op_ok w (Op_Add spec _) = spec_ok w spec"
| "op_ok w (Op_Change _ change _) = change_ok change"
| "op_ok w (Op_Remove _ _) = True"
| "op_ok w (Op_Import incoming _) = (\<forall>s \<in> set incoming. spec_ok w s)"
| "op_ok w (Op_IdleStop idle) = (case idle of None \<Rightarrow> True | Some i \<Rightarrow> idle_ok i)"
| "op_ok w Op_Forget = True"

lemma with_change_spec_ok:
  assumes "spec_ok w s" "change_ok c" "with_change s c = Inr s'"
  shows "spec_ok w s'" "spec_name s' = spec_name s"
proof -
  let ?env = "env_changed (spec_environment s) (change_set_env c) (change_unset_env c)"
  from assms(3) have s': "s' = \<lparr>spec_name = spec_name s,
       spec_command = unwrap_or (change_command c) (spec_command s),
       spec_working_dir = apply_edit (change_working_dir c) (spec_working_dir s),
       spec_description = apply_edit (change_description c) (spec_description s),
       spec_environment = ?env,
       spec_autostart = unwrap_or (change_autostart c) (spec_autostart s),
       spec_restart = unwrap_or (change_restart c) (spec_restart s),
       spec_stop = \<lparr>signal = unwrap_or (change_stop_signal c) (signal (spec_stop s)),
                    grace_period = unwrap_or (change_stop_grace c) (grace_period (spec_stop s))\<rparr>,
       spec_ready = apply_edit (change_ready c) (spec_ready s),
       spec_ports = unwrap_or (change_ports c) (spec_ports s)\<rparr>"
    unfolding with_change_Inr_iff Let_def by blast
  then show "spec_name s' = spec_name s" by simp
  have "\<forall>(name, v) \<in> set ?env. is_env_name name \<and> is_env_value v"
    using set_env_changed[of "spec_environment s" "change_set_env c" "change_unset_env c"] assms(1,2)
    by (auto simp: spec_ok_def change_ok_def)
  moreover have "btree_map ?env" using assms(1) by (intro btree_map_env_changed) (simp add: spec_ok_def)
  moreover have "CommandLine_try_new (spec_command s') = Inr (spec_command s')"
    using assms(1,2) by (cases "change_command c") (auto simp: s' spec_ok_def change_ok_def)
  moreover have "case spec_description s' of None \<Rightarrow> True | Some d \<Rightarrow> Description_try_new d = Inr d"
    using assms(1,2) by (cases "change_description c") (auto simp: s' spec_ok_def change_ok_def apply_edit_def)
  moreover have "is_grace (grace_period (spec_stop s'))"
    using assms(1,2) by (cases "change_stop_grace c") (auto simp: s' spec_ok_def change_ok_def)
  moreover have "case spec_ready s' of None \<Rightarrow> True | Some r \<Rightarrow> probe_ok (probe r) \<and> is_positive (timeout r)"
    using assms(1,2) by (cases "change_ready c") (auto simp: s' spec_ok_def change_ok_def apply_edit_def)
  moreover have "btree_set (spec_ports s') \<and> (\<forall>p \<in> set (spec_ports s'). 0 < p \<and> p < 2 ^ 16)"
    using assms(1,2) by (cases "change_ports c") (auto simp: s' spec_ok_def change_ok_def)
  ultimately show "spec_ok w s'" using assms(1) by (simp add: spec_ok_def s')
qed

section \<open>Every operation refines its edit\<close>

lemma add_process_edited:
  assumes ok: "tables_ok w db" "is_absolute root" "spec_ok w spec"
    and add: "add_process w now db root spec author = Inr (registration, db')"
  shows "\<exists>pid. published w db root db' pid (reg_project registration) (specs_at w db root @ [spec])"
proof -
  from add obtain pid d1 d2 where
    reg: "register w (epoch_nanos_of (int now)) db root = Inr ((pid, registration), d1)"
    and ins: "insert_process w d1 pid spec = Inr d2"
    and rec: "record_edit w now (bump_revision d2 pid) pid (Edit_Added author spec) = Inr db'"
    by (auto simp: add_process_def and_then_Inr_iff)
  from register_edited[OF ok(1,2) reg] have "edited w db root d1 pid (reg_project registration) (specs_at w db root)" .
  from published_record[OF published_bump[OF edited_insert[OF this ok(3) ins]] rec] show ?thesis by blast
qed

lemma require_found:
  "require nfc st name = Inr s \<Longrightarrow>
   s \<in> set (stack_processes st) \<and> spec_key nfc s = name_key nfc name"
  by (auto simp: require_def dest: stack_process_SomeD simp: name_key_def)

text \<open>Changes and removals start from the stored definition of the name.\<close>

lemma required:
  assumes ok: "tables_ok w db" and "require_project w db root = Inr project"
    and "stack_of w db project = Inr st" "require (w_nfc w) st name = Inr s"
  shows "edited w db root db (fst project) (snd project) (specs_at w db root)"
    and "stack_processes st = specs_at w db root" "s \<in> set (specs_at w db root)"
    and "spec_key (w_nfc w) s = name_key (w_nfc w) name" "spec_ok w s"
    and "unique_keys (w_nfc w) (specs_at w db root)"
proof -
  from assms(2) have f: "find_project w db root = Inr (Some project)"
    by (auto simp: require_project_def and_then_Inr_iff)
  have "stack_at w db root = Inr (Some st)" by (simp add: stack_at_def f assms(3))
  then show st: "stack_processes st = specs_at w db root" by (simp add: specs_at_def)
  have rok: "rows_ok w db" using ok by (simp add: tables_ok_def)
  obtain specs where specs: "holds_all w db (fst project) specs" by (rule holds_all_exists[OF rok])
  have "stack_of w db (fst project, snd project) = Inr \<lparr>stack_project = snd project, stack_processes = specs\<rparr>"
    by (rule stack_of_rows[OF rok specs])
  with assms(3) st have eq: "specs = specs_at w db root" by simp
  show "edited w db root db (fst project) (snd project) (specs_at w db root)"
    using edited_start[OF ok] f specs eq by simp
  from require_found[OF assms(4)] st show s: "s \<in> set (specs_at w db root)"
    "spec_key (w_nfc w) s = name_key (w_nfc w) name" by simp_all
  show "spec_ok w s" using holds_all_spec_ok[OF specs] s(1) eq by simp
  show "unique_keys (w_nfc w) (specs_at w db root)" using holds_all_unique_keys[OF rok specs] eq by simp
qed

lemma no_difference: "differing_fields s s' = [] \<Longrightarrow> spec_name s' = spec_name s \<Longrightarrow> s' = s"
  by (cases s; cases s'; cases "spec_stop s"; cases "spec_stop s'")
    (simp add: differing_fields_def process_fields_def split: if_splits)

lemma unique_key_spec:
  "unique_keys nfc specs \<Longrightarrow> s \<in> set specs \<Longrightarrow> t \<in> set specs \<Longrightarrow> spec_key nfc s = spec_key nfc t \<Longrightarrow> s = t"
  by (auto simp: unique_keys_def distinct_map inj_on_def)

lemma change_process_edited:
  assumes ok: "tables_ok w db" and change: "change_ok change"
    and app: "change_process w now db root name change author = Inr (applied, db')"
  shows "\<exists>pid project. edited w db root db' pid project
       (edit_specs (w_nfc w) (Op_Change name change author) (specs_at w db root)) \<and>
     (if applied_changed applied then published w db root db' pid project
        (edit_specs (w_nfc w) (Op_Change name change author) (specs_at w db root)) else db' = db)"
proof -
  from app obtain project st before changed where
    p: "require_project w db root = Inr project" "stack_of w db project = Inr st"
      "require (w_nfc w) st name = Inr before"
    and changed: "with_change before change = Inr changed"
    and rest: "(if differing_fields before changed = [] then Inr (\<lparr>applied_spec = changed, applied_changed = False\<rparr>, db)
       else and_then (update_process w db (fst project) changed) (\<lambda>d.
            and_then (record_edit w now (bump_revision d (fst project)) (fst project)
              (Edit_Changed author (differing_fields before changed) changed)) (\<lambda>d.
            Inr (\<lparr>applied_spec = changed, applied_changed = True\<rparr>, d)))) = Inr (applied, db')"
    by (auto simp: change_process_def and_then_Inr_iff Let_def)
  note req = required[OF ok p]
  have valid: "spec_ok w changed" "spec_name changed = spec_name before"
    using with_change_spec_ok[OF req(5) change changed] by simp_all
  then have key: "spec_key (w_nfc w) changed = name_key (w_nfc w) name"
    using req(4) by (simp add: spec_key_def)
  have edit: "edit_specs (w_nfc w) (Op_Change name change author) (specs_at w db root) =
      put_spec (w_nfc w) changed (specs_at w db root)"
    using unique_key_spec[OF req(6) req(3)] req(4) changed key by (auto simp: put_spec_def)
  show ?thesis
  proof (cases "differing_fields before changed = []")
    case True
    with rest have "db' = db" "\<not> applied_changed applied" by auto
    moreover from no_difference[OF True valid(2)] have "changed = before" .
    then have "put_spec (w_nfc w) changed (specs_at w db root) = specs_at w db root"
      using unique_key_spec[OF req(6) req(3)] by (auto simp: put_spec_def intro!: map_idI)
    ultimately show ?thesis using req(1) unfolding edit by auto
  next
    case False
    with rest obtain d where upd: "update_process w db (fst project) changed = Inr d"
      and rec: "record_edit w now (bump_revision d (fst project)) (fst project)
        (Edit_Changed author (differing_fields before changed) changed) = Inr db'"
      by (auto simp: and_then_Inr_iff)
    from published_record[OF published_bump[OF edited_update[OF req(1) valid(1) upd]] rec]
    have "published w db root db' (fst project) (snd project) (put_spec (w_nfc w) changed (specs_at w db root))" .
    moreover have "applied_changed applied" using rest False by (auto simp: and_then_Inr_iff)
    ultimately show ?thesis unfolding edit published_def by auto
  qed
qed

lemma remove_process_edited:
  assumes ok: "tables_ok w db" and rem: "remove_process w now db root name author = Inr (s, db')"
  shows "\<exists>pid project. published w db root db' pid project
     (edit_specs (w_nfc w) (Op_Remove name author) (specs_at w db root))"
proof -
  from rem obtain project st where
    p: "require_project w db root = Inr project" "stack_of w db project = Inr st" "require (w_nfc w) st name = Inr s"
    and rec: "record_edit w now (bump_revision (delete_process w db (fst project) name) (fst project)) (fst project)
      (Edit_Removed author (spec_name s)) = Inr db'"
    by (auto simp: remove_process_def and_then_Inr_iff)
  from published_record[OF published_bump[OF edited_delete[OF required(1)[OF ok p]]] rec] show ?thesis by auto
qed

subsection \<open>Imports\<close>

lemma delete_each_edited:
  "edited w db root d pid project specs \<Longrightarrow>
   edited w db root (delete_each w d pid names) pid project
     (filter (\<lambda>s. spec_key (w_nfc w) s \<notin> name_key (w_nfc w) ` set names) specs)"
proof (induction names arbitrary: d specs)
  case (Cons name names)
  from Cons.IH[OF edited_delete[OF Cons.prems]] show ?case by (simp add: conj_commute)
qed simp

lemma named_own: "unique_keys (w_nfc w) incoming \<Longrightarrow> s \<in> set incoming \<Longrightarrow> named w incoming (spec_name s) = Some s"
  using find_unique_key[of "w_nfc w" incoming s] by (simp add: named_def spec_key_def[symmetric])

lemma update_each_edited:
  assumes "unique_keys (w_nfc w) incoming" "set us \<subseteq> set incoming" "\<forall>s \<in> set us. spec_ok w s"
    and "edited w db root d pid project specs"
    and "write_each (update_process w) w incoming d pid (names_of us) = Inr d'"
  shows "edited w db root d' pid project (fold (put_spec (w_nfc w)) us specs)"
  using assms(2-)
proof (induction us arbitrary: d specs)
  case (Cons u us)
  from Cons.prems(1,4) obtain d1 where upd: "update_process w d pid u = Inr d1"
    and rest: "write_each (update_process w) w incoming d1 pid (names_of us) = Inr d'"
    by (auto simp: names_of_def named_own[OF assms(1)] and_then_Inr_iff)
  from edited_update[OF Cons.prems(3) _ upd] Cons.prems(2)
  have "edited w db root d1 pid project (put_spec (w_nfc w) u specs)" by simp
  from Cons.IH[OF _ _ this rest] Cons.prems(1,2) show ?case by simp
qed (simp add: names_of_def)

lemma insert_each_edited:
  assumes "unique_keys (w_nfc w) incoming" "set us \<subseteq> set incoming" "\<forall>s \<in> set us. spec_ok w s"
    and "edited w db root d pid project specs"
    and "write_each (insert_process w) w incoming d pid (names_of us) = Inr d'"
  shows "edited w db root d' pid project (specs @ us)"
  using assms(2-)
proof (induction us arbitrary: d specs)
  case (Cons u us)
  from Cons.prems(1,4) obtain d1 where ins: "insert_process w d pid u = Inr d1"
    and rest: "write_each (insert_process w) w incoming d1 pid (names_of us) = Inr d'"
    by (auto simp: names_of_def named_own[OF assms(1)] and_then_Inr_iff)
  from edited_insert[OF Cons.prems(3) _ ins] Cons.prems(2)
  have "edited w db root d1 pid project (specs @ [u])" by simp
  from Cons.IH[OF _ _ this rest] Cons.prems(1,2) show ?case by simp
qed (simp add: names_of_def)

lemma fold_put_spec:
  "unique_keys nfc us \<Longrightarrow> fold (put_spec nfc) us specs = map (renewed nfc us) specs"
proof (induction us arbitrary: specs)
  case Nil
  then show ?case by (simp add: renewed_def)
next
  case (Cons u us)
  have other: "find (\<lambda>v. spec_key nfc v = spec_key nfc u) us = None"
    using Cons.prems by (auto simp: unique_keys_def find_None_iff_all image_iff)
  from Cons.prems have "fold (put_spec nfc) us (put_spec nfc u specs) = map (renewed nfc us) (put_spec nfc u specs)"
    by (intro Cons.IH) (simp add: unique_keys_def)
  also have "\<dots> = map (renewed nfc (u # us)) specs"
    using other by (auto simp: put_spec_def renewed_def)
  finally show ?case by simp
qed

lemma plan_import_parts:
  assumes "plan_import nfc st incoming mode = Inr plan"
  obtains adding updating where
    "unique_keys nfc incoming"
    "adding = filter (\<lambda>s. stack_process nfc st (spec_name s) = None) incoming"
    "updating = filter (\<lambda>s. stack_process nfc st (spec_name s) \<noteq> None \<and> stack_process nfc st (spec_name s) \<noteq> Some s) incoming"
    "added plan = names_of adding" "updated plan = names_of updating"
    "removed plan = (if mode = Replace
       then map spec_name (filter (\<lambda>s. spec_key nfc s \<notin> spec_key nfc ` set incoming) (stack_processes st)) else [])"
    "mode = Strict \<Longrightarrow> adding = incoming"
    "length (stack_processes st) + length adding - length (removed plan) \<le> PROCESSES_MAX"
    "\<forall>s \<in> set (adding @ updating). spec_over_cap s = None"
proof -
  define known where "known = (\<lambda>s :: process_spec. stack_process nfc st (spec_name s) \<noteq> None)"
  define existing where "existing = filter known incoming"
  define adding where "adding = filter (\<lambda>s. stack_process nfc st (spec_name s) = None) incoming"
  define updating where "updating = filter (\<lambda>s. stack_process nfc st (spec_name s) \<noteq> Some s) existing"
  define removing where "removing = (if mode = Replace
      then map spec_name (filter (\<lambda>s. spec_key nfc s \<notin> spec_key nfc ` set incoming) (stack_processes st)) else [])"
  have part: "partition (\<lambda>s. stack_process nfc st (spec_name s) \<noteq> None) incoming = (existing, adding)"
    by (simp add: existing_def adding_def known_def comp_def)
  have rem: "(case mode of Replace \<Rightarrow>
        map spec_name (filter (\<lambda>spec. spec_key nfc spec \<notin> set (map (spec_key nfc) incoming)) (stack_processes st))
      | Strict \<Rightarrow> [] | Merge \<Rightarrow> []) = removing"
    by (cases mode) (simp_all add: removing_def)
  from assms have unique: "unique_keys nfc incoming" and strict: "\<not> (mode = Strict \<and> existing \<noteq> [])"
    and count: "length (stack_processes st) + length adding - length removing \<le> PROCESSES_MAX"
    and caps: "\<forall>s \<in> set (adding @ updating). spec_over_cap s = None"
    and plan: "plan = \<lparr>added = names_of adding, updated = names_of updating, removed = removing\<rparr>"
    unfolding plan_import_def part Let_def prod.case rem updating_def[symmetric]
    by (auto simp: and_then_Inr_iff check_unique_Inr_iff check_count_Inr_iff check_all_caps_Inr_iff split: if_splits)
  show thesis
  proof (rule that[OF unique adding_def])
    show "updating = filter (\<lambda>s. stack_process nfc st (spec_name s) \<noteq> None \<and> stack_process nfc st (spec_name s) \<noteq> Some s) incoming"
      by (simp add: updating_def existing_def known_def conj_commute)
    show "adding = incoming" if "mode = Strict"
      using strict that by (auto simp: adding_def existing_def known_def filter_empty_conv intro: filter_True)
  qed (use count caps plan in \<open>simp_all add: removing_def\<close>)
qed

lemma renewed_updating:
  assumes unique: "unique_keys nfc incoming" "unique_keys nfc specs"
    and st: "stack_processes st = specs" and s: "s \<in> set specs"
  shows "renewed nfc (filter (\<lambda>u. stack_process nfc st (spec_name u) \<noteq> None \<and> stack_process nfc st (spec_name u) \<noteq> Some u) incoming) s =
     renewed nfc incoming s"
proof (cases "find (\<lambda>u. spec_key nfc u = spec_key nfc s) incoming")
  case None
  then have "find (\<lambda>u. spec_key nfc u = spec_key nfc s) (filter Q incoming) = None" for Q
    by (auto simp: find_None_iff_all)
  with None show ?thesis by (simp add: renewed_def)
next
  case (Some u)
  then have u: "u \<in> set incoming" "spec_key nfc u = spec_key nfc s" by (auto dest: find_SomeD)
  have "stack_process nfc st (spec_name s) = Some s" using stack_process_unique[of nfc st s] unique(2) s st by simp
  then have found: "stack_process nfc st (spec_name u) = Some s" using u(2) by (simp add: stack_process_def spec_key_def)
  let ?us = "filter (\<lambda>u. stack_process nfc st (spec_name u) \<noteq> None \<and> stack_process nfc st (spec_name u) \<noteq> Some u) incoming"
  show ?thesis
  proof (cases "u = s")
    case True
    have "find (\<lambda>v. spec_key nfc v = spec_key nfc s) ?us = None"
      using unique_key_spec[OF unique(1) _ u(1)] u(2) True found by (auto simp: find_None_iff_all)
    with Some True show ?thesis by (simp add: renewed_def)
  next
    case False
    with u found have "u \<in> set ?us" by simp
    moreover have "unique_keys nfc ?us" using unique(1) by (simp add: unique_keys_def distinct_map_filter)
    ultimately have "find (\<lambda>v. spec_key nfc v = spec_key nfc u) ?us = Some u" by (intro find_unique_key)
    with Some u(2) show ?thesis by (simp add: renewed_def)
  qed
qed

lemma import_edited:
  assumes ok: "tables_ok w db" "is_absolute root" "\<forall>s \<in> set incoming. spec_ok w s"
    and imp: "import w now db root incoming mode = Inr ((registration, plan), db')"
  shows "\<exists>pid project. published w db root db' pid project
     (edit_specs (w_nfc w) (Op_Import incoming mode) (specs_at w db root))"
proof -
  let ?nfc = "w_nfc w" and ?specs = "specs_at w db root"
  from imp obtain pid d1 st d2 d3 where
    reg: "register w (epoch_nanos_of (int now)) db root = Inr ((pid, registration), d1)"
    and st: "stack_of w d1 (pid, reg_project registration) = Inr st"
    and plan: "plan_import ?nfc st incoming mode = Inr plan"
    and upd: "write_each (update_process w) w incoming (delete_each w d1 pid (removed plan)) pid (updated plan) = Inr d2"
    and ins: "write_each (insert_process w) w incoming d2 pid (added plan) = Inr d3"
    and db': "db' = bump_revision d3 pid"
    by (auto simp: import_def and_then_Inr_iff)
  note start = register_edited[OF ok(1,2) reg]
  then have rok: "rows_ok w d1" and held: "holds_all w d1 pid ?specs" by (auto simp: edited_def tables_ok_def)
  have specs: "stack_processes st = ?specs" using stack_of_rows[OF rok held] st by auto
  have uniq: "unique_keys ?nfc ?specs" by (rule holds_all_unique_keys[OF rok held])
  obtain adding updating where unique: "unique_keys ?nfc incoming"
    and adding: "adding = filter (\<lambda>s. stack_process ?nfc st (spec_name s) = None) incoming"
    and updating: "updating = filter (\<lambda>s. stack_process ?nfc st (spec_name s) \<noteq> None \<and> stack_process ?nfc st (spec_name s) \<noteq> Some s) incoming"
    and names: "added plan = names_of adding" "updated plan = names_of updating"
    and rem: "removed plan = (if mode = Replace
       then map spec_name (filter (\<lambda>s. spec_key ?nfc s \<notin> spec_key ?nfc ` set incoming) (stack_processes st)) else [])"
    using plan by (elim plan_import_parts)
  have keys: "name_key ?nfc ` spec_name ` S = spec_key ?nfc ` S" for S by (auto simp: spec_key_def)
  have gone: "name_key ?nfc ` set (removed plan) = (if mode = Replace
      then spec_key ?nfc ` {s \<in> set ?specs. spec_key ?nfc s \<notin> spec_key ?nfc ` set incoming} else {})"
    by (simp add: rem specs keys)
  have kept: "filter (\<lambda>s. spec_key ?nfc s \<notin> name_key ?nfc ` set (removed plan)) ?specs =
      filter (\<lambda>s. mode = Replace \<longrightarrow> spec_key ?nfc s \<in> spec_key ?nfc ` set incoming) ?specs"
    unfolding gone by (rule filter_cong[OF refl]) auto
  have us: "set updating \<subseteq> set incoming" "set adding \<subseteq> set incoming" "unique_keys ?nfc updating"
    using unique by (auto simp: updating adding unique_keys_def distinct_map_filter)
  have e2: "edited w db root d2 pid (reg_project registration) (fold (put_spec ?nfc) updating
      (filter (\<lambda>s. spec_key ?nfc s \<notin> name_key ?nfc ` set (removed plan)) ?specs))"
    using ok(3) us(1) by (intro update_each_edited[OF unique us(1) _ delete_each_edited[OF start] upd[unfolded names]]) auto
  have e3: "edited w db root d3 pid (reg_project registration) (fold (put_spec ?nfc) updating
      (filter (\<lambda>s. spec_key ?nfc s \<notin> name_key ?nfc ` set (removed plan)) ?specs) @ adding)"
    using ok(3) us(2) by (intro insert_each_edited[OF unique us(2) _ e2 ins[unfolded names]]) auto
  have "fold (put_spec ?nfc) updating (filter (\<lambda>s. spec_key ?nfc s \<notin> name_key ?nfc ` set (removed plan)) ?specs) =
      map (renewed ?nfc incoming) (filter (\<lambda>s. mode = Replace \<longrightarrow> spec_key ?nfc s \<in> spec_key ?nfc ` set incoming) ?specs)"
    unfolding kept fold_put_spec[OF us(3)]
    by (rule map_cong[OF refl]) (use renewed_updating[OF unique uniq specs] in \<open>auto simp: updating\<close>)
  moreover have "adding = filter (\<lambda>s. spec_key ?nfc s \<notin> spec_key ?nfc ` set ?specs) incoming"
    unfolding adding stack_process_None_iff specs by (simp add: spec_key_def name_key_def)
  ultimately show ?thesis using published_bump[OF e3] by (auto simp: db')
qed

subsection \<open>Idle stops and removed projects\<close>

lemma project_from_row_idle:
  assumes "project_from_row w r = Inr (i, p)"
    and "case idle of None \<Rightarrow> kind = None \<and> ms = None
      | Some idle \<Rightarrow> \<exists>k. kind = Some k \<and> idle_stop_from_columns k ms = Inr idle"
  shows "project_from_row w (r\<lparr>jr_idle_kind := kind, jr_idle_ms := ms\<rparr>) = Inr (i, p\<lparr>project_idle_stop := idle\<rparr>)"
  using assms by (cases idle) (auto simp: project_from_row_def Let_def and_then_Inr_iff)

lemma store_idle_stop_rows:
  assumes "store_idle_stop db pid idle = Inr d" "case idle of None \<Rightarrow> True | Some i \<Rightarrow> idle_ok i"
  obtains kind ms where
    "d = db\<lparr>sd_projects := map (\<lambda>r. if jr_id r = pid then r\<lparr>jr_idle_kind := kind, jr_idle_ms := ms\<rparr> else r) (sd_projects db)\<rparr>"
    "case idle of None \<Rightarrow> kind = None \<and> ms = None
      | Some idle \<Rightarrow> \<exists>k. kind = Some k \<and> idle_stop_from_columns k ms = Inr idle"
proof (cases idle)
  case None
  with assms(1) that[of None None] show thesis by (simp add: store_idle_stop_def)
next
  case (Some i)
  with assms(1) obtain k ms where k: "idle_stop_columns i = Inr (k, ms)"
    and d: "d = db\<lparr>sd_projects := map (\<lambda>r. if jr_id r = pid
        then r\<lparr>jr_idle_kind := Some (idle_stop_kind_to_string k), jr_idle_ms := ms\<rparr> else r) (sd_projects db)\<rparr>"
    by (auto simp: store_idle_stop_def and_then_Inr_iff)
  from idle_stop_round_trip[OF _ k] assms(2) Some that[OF d] show thesis by simp
qed

lemma idle_stop_edited:
  assumes ok: "tables_ok w db" and idle: "case idle of None \<Rightarrow> True | Some i \<Rightarrow> idle_ok i"
    and set: "set_idle_stop_at w db root idle = Inr (project, db')"
  shows "\<exists>pid. published w db root db' pid project (specs_at w db root) \<and> project_idle_stop project = idle"
proof -
  have pok: "projects_ok w db" and rok: "rows_ok w db" using ok by (simp_all add: tables_ok_def)
  from set obtain pid before d q where f: "find_project w db root = Inr (Some (pid, before))"
    and store: "store_idle_stop db pid idle = Inr d"
    and after: "find_project w (bump_revision d pid) root = Inr (Some (q, project))" and db': "db' = bump_revision d pid"
    by (auto simp: set_idle_stop_at_def require_project_def and_then_Inr_iff Let_def)
  obtain r where r: "r \<in> set (sd_projects db)" "jr_root r = root" "jr_id r = pid" "project_from_row w r = Inr (pid, before)"
    by (rule find_projectD[OF pok f])
  obtain kind ms where
    d: "d = db\<lparr>sd_projects := map (\<lambda>r. if jr_id r = pid then r\<lparr>jr_idle_kind := kind, jr_idle_ms := ms\<rparr> else r) (sd_projects db)\<rparr>"
    and cols: "case idle of None \<Rightarrow> kind = None \<and> ms = None
      | Some idle \<Rightarrow> \<exists>k. kind = Some k \<and> idle_stop_from_columns k ms = Inr idle"
    using store idle by (elim store_idle_stop_rows)
  define g where "g = (\<lambda>r :: project_row. if jr_id r = pid then r\<lparr>jr_idle_kind := kind, jr_idle_ms := ms\<rparr> else r)"
  have rows: "sd_projects d = map g (sd_projects db)" by (simp add: d g_def)
  have g: "jr_id (g r) = jr_id r" "jr_root (g r) = jr_root r" "jr_revision (g r) = jr_revision r" for r
    by (simp_all add: g_def)
  have only: "r' = r" if "r' \<in> set (sd_projects db)" "jr_id r' = pid" for r'
    using pok r that unfolding projects_ok_def by (metis distinct_map inj_onD)
  have new: "project_from_row w (g r) = Inr (pid, before\<lparr>project_idle_stop := idle\<rparr>)"
    using project_from_row_idle[OF r(4) cols] r(3) by (simp add: g_def)
  have others: "g r' = r'" if "r' \<in> set (sd_projects db)" "r' \<noteq> r" for r'
    using only that by (auto simp: g_def)
  have read: "\<exists>p. project_from_row w (g r') = Inr (jr_id (g r'), p)" if r': "r' \<in> set (sd_projects db)" for r'
  proof (cases "r' = r")
    case True
    with new r(3) show ?thesis by (simp add: g)
  next
    case False
    with others[OF r'] r' pok show ?thesis by (auto simp: projects_ok_def)
  qed
  have counter: "sd_counter d = sd_counter db" by (simp add: d)
  have dok: "projects_ok w d"
    using pok read by (auto simp: projects_ok_def rows comp_def g counter)
  have here: "find_project w d root = Inr (Some (pid, before\<lparr>project_idle_stop := idle\<rparr>))"
    using find_project_stored[OF dok, of "g r"] new r by (simp add: rows g)
  have there: "find_project w d other = find_project w db other" if "other \<noteq> root" for other
  proof (rule find_project_frame)
    have "map g (filter (\<lambda>r. jr_root r = other) (sd_projects db)) = filter (\<lambda>r. jr_root r = other) (sd_projects db)"
      using others r(2) that by (intro map_idI) auto
    then show "map (project_from_row w) (filter (\<lambda>r. jr_root r = other) (sd_projects d)) =
        map (project_from_row w) (filter (\<lambda>r. jr_root r = other) (sd_projects db))"
      by (simp add: rows filter_map comp_def g)
  qed
  have same: "same_rows db d" by (simp add: d same_rows_def)
  obtain specs where specs: "holds_all w db pid specs" by (rule holds_all_exists[OF rok])
  have at: "specs_at w db root = specs" using stack_at_stored[OF rok f specs] by (simp add: specs_at_def)
  have ids: "jr_id ` set (sd_projects d) = jr_id ` set (sd_projects db)" by (simp add: rows image_image g)
  have revisions: "stack_revision d other = stack_revision db other" for other
    unfolding stack_revision_def rows by (simp add: find_map_row g option.map_comp comp_def)
  have "edited w db root d pid (before\<lparr>project_idle_stop := idle\<rparr>) specs"
    using ok dok here there specs same_rows_holds[OF same, of w] ids counter revisions
    by (simp add: edited_def tables_ok_def) (simp add: d)
  from published_bump[OF this] have e: "published w db root db' pid (before\<lparr>project_idle_stop := idle\<rparr>) specs" by (simp add: db')
  then have "project = before\<lparr>project_idle_stop := idle\<rparr>" using after by (simp add: published_def edited_def db')
  with e show ?thesis by (auto simp: at)
qed

section \<open>Forgetting a project\<close>

lemma remove_project_ok:
  assumes ok: "tables_ok w db" and d_def: "d = snd (remove_project db root)"
  shows "tables_ok w d" "stack_at w d root = Inr None" "stack_revision d root = None" "sd_counter d = sd_counter db"
    and "other \<noteq> root \<Longrightarrow> stack_at w d other = stack_at w db other"
    and "other \<noteq> root \<Longrightarrow> stack_revision d other = stack_revision db other"
proof -
  let ?gone = "jr_id ` set (filter (\<lambda>r. jr_root r = root) (sd_projects db))"
  let ?P = "\<lambda>r. pr_project r \<in> ?gone"
  let ?k = "delete_rows db ?P"
  have rok: "rows_ok w db" and pok: "projects_ok w db" and refs: "pr_project ` set (sd_processes db) \<subseteq> jr_id ` set (sd_projects db)"
    using ok by (simp_all add: tables_ok_def)
  have d: "d = ?k\<lparr>sd_projects := filter (\<lambda>r. jr_root r \<noteq> root) (sd_projects ?k),
      sd_edits := filter (\<lambda>r. er_project r \<notin> ?gone) (sd_edits ?k),
      sd_raised := filter (\<lambda>(p, _). p \<notin> ?gone) (sd_raised ?k),
      sd_pending := filter (\<lambda>(p, _). p \<notin> ?gone) (sd_pending ?k)\<rparr>"
    by (simp add: d_def remove_project_def delete_projects_def Let_def)
  have projects: "sd_projects d = filter (\<lambda>r. jr_root r \<noteq> root) (sd_projects db)"
    by (simp add: d delete_rows_def Let_def)
  show counter: "sd_counter d = sd_counter db" by (simp add: d delete_rows_def Let_def)
  have processes: "sd_processes d = filter (\<lambda>r. \<not> ?P r) (sd_processes db)"
    by (simp add: d delete_rows_def Let_def)
  have same: "same_rows ?k d" by (simp add: d same_rows_def)
  have "rows_ok w d" using delete_rows_ok(1)[OF rok, of ?P] same_rows_holds(3)[OF same] by blast
  moreover have "projects_ok w d"
    using pok unfolding projects_ok_def projects counter by (auto simp: distinct_map inj_on_def)
  moreover have "pr_project ` set (sd_processes d) \<subseteq> jr_id ` set (sd_projects d)"
    using refs unfolding processes projects by fastforce
  ultimately show dok: "tables_ok w d" by (simp add: tables_ok_def)
  show "stack_at w d root = Inr None"
    by (intro stack_at_none find_project_none) (auto simp: projects)
  show "stack_revision d root = None" by (auto simp: stack_revision_def projects find_None_iff)
  show "stack_revision d other = stack_revision db other" if "other \<noteq> root"
  proof -
    have "find (\<lambda>r. jr_root r = other) (filter (\<lambda>r. jr_root r \<noteq> root) rs) = find (\<lambda>r. jr_root r = other) rs"
      for rs :: "project_row list" using that by (induction rs) auto
    then show ?thesis by (simp add: stack_revision_def projects)
  qed
  show "stack_at w d other = stack_at w db other" if other: "other \<noteq> root"
  proof (rule stack_at_frame[OF ok dok])
    show "find_project w d other = find_project w db other"
      using other by (intro find_project_frame) (simp add: projects conj_commute cong: conj_cong)
    show "holds_all w d pid = holds_all w db pid" if f: "find_project w db other = Inr (Some (pid, project))" for pid project
    proof -
      obtain r where r: "r \<in> set (sd_projects db)" "jr_root r = other" "jr_id r = pid"
        by (rule find_projectD[OF pok f])
      then have "pid \<notin> ?gone" using pok other unfolding projects_ok_def by (auto simp: distinct_map dest: inj_onD)
      then have "holds_all w ?k pid = holds_all w db pid"
        by (intro delete_rows_other[OF rok]) (auto simp: rows_in_def)
      with same_rows_holds[OF same, of w] show ?thesis by simp
    qed
  qed
qed

section \<open>The store implements the specification\<close>

text \<open>What one operation does to everything a reader of the store can see.\<close>

definition stepped :: "store_world \<Rightarrow> stack_db \<Rightarrow> project_root \<Rightarrow> stack_db \<Rightarrow> process_spec list \<Rightarrow> bool" where
  "stepped w db root d specs \<longleftrightarrow>
     tables_ok w d \<and> specs_at w d root = specs \<and> sd_counter db \<le> sd_counter d \<and>
     (\<forall>other. other \<noteq> root \<longrightarrow> stack_at w d other = stack_at w db other \<and>
        stack_revision d other = stack_revision db other) \<and>
     (d = db \<or> (\<forall>v. stack_revision d root = Some v \<longrightarrow> sd_counter db < v))"

lemma published_stepped:
  assumes ok: "tables_ok w db" and p: "published w db root d pid project specs"
  shows "stepped w db root d specs"
proof -
  have e: "edited w db root d pid project specs" using p by (simp add: published_def)
  show ?thesis using edited_stack[OF ok e] p by (auto simp: stepped_def published_def edited_def specs_at_def)
qed

lemma edited_same_stepped:
  assumes ok: "tables_ok w db" and e: "edited w db root db pid project specs"
  shows "stepped w db root db specs"
  using edited_stack(1)[OF ok e] e by (simp add: stepped_def edited_def specs_at_def)

lemma store_step_stepped:
  assumes ok: "tables_ok w db" "is_absolute root" "op_ok w op"
    and step: "store_step w now db root op = Inr d"
  shows "stepped w db root d (edit_specs (w_nfc w) op (specs_at w db root))"
proof (cases op)
  case (Op_Add spec author)
  with step obtain registration where "add_process w now db root spec author = Inr (registration, d)"
    by (auto simp: map_ok_Inr_iff)
  from add_process_edited[OF ok(1,2) _ this] ok(3) Op_Add show ?thesis
    by (auto dest: published_stepped[OF ok(1)])
next
  case (Op_Change name change author)
  with step obtain applied where run: "change_process w now db root name change author = Inr (applied, d)"
    by (auto simp: map_ok_Inr_iff)
  have "change_ok change" using ok(3) Op_Change by simp
  from change_process_edited[OF ok(1) this run] Op_Change show ?thesis
    by (auto split: if_splits dest: published_stepped[OF ok(1)] edited_same_stepped[OF ok(1)] simp del: edit_specs.simps)
next
  case (Op_Remove name author)
  with step obtain s where "remove_process w now db root name author = Inr (s, d)" by (auto simp: map_ok_Inr_iff)
  from remove_process_edited[OF ok(1) this] Op_Remove show ?thesis
    by (auto dest: published_stepped[OF ok(1)] simp del: edit_specs.simps)
next
  case (Op_Import incoming mode)
  with step obtain registration plan where "import w now db root incoming mode = Inr ((registration, plan), d)"
    by (auto simp: map_ok_Inr_iff)
  from import_edited[OF ok(1,2) _ this] ok(3) Op_Import show ?thesis
    by (auto dest: published_stepped[OF ok(1)] simp del: edit_specs.simps)
next
  case (Op_IdleStop idle)
  with step obtain project where "set_idle_stop_at w db root idle = Inr (project, d)" by (auto simp: map_ok_Inr_iff)
  from idle_stop_edited[OF ok(1) _ this] ok(3) Op_IdleStop show ?thesis
    by (auto dest: published_stepped[OF ok(1)])
next
  case Op_Forget
  with step have "d = snd (remove_project db root)" by simp
  with remove_project_ok[OF ok(1), of d root] Op_Forget show ?thesis by (simp add: stepped_def specs_at_def)
qed

end
