(* ===== verification/StackHistory.thy ===== *)
theory StackHistory
  imports StackRefine
begin

text \<open>
  The promises of the stack store, over single operations and over histories: the refinement of the
  abstract edits, the stack revision as a witness of change, the round trip of a definition through
  its row, and the refusals of an addition.
\<close>

section \<open>Histories\<close>

text \<open>An operation that fails rolls its transaction back.\<close>

definition settled :: "stack_db \<Rightarrow> config_error + stack_db \<Rightarrow> stack_db" where
  "settled db r = (case r of Inl _ \<Rightarrow> db | Inr d \<Rightarrow> d)"

fun store_run :: "store_world \<Rightarrow> stack_db \<Rightarrow> (duration \<times> project_root \<times> stack_op) list \<Rightarrow> stack_db" where
  "store_run w db [] = db"
| "store_run w db ((now, root, op) # steps) = store_run w (settled db (store_step w now db root op)) steps"

definition steps_ok :: "store_world \<Rightarrow> (duration \<times> project_root \<times> stack_op) list \<Rightarrow> bool" where
  "steps_ok w steps \<longleftrightarrow> list_all (\<lambda>(_, root, op). is_absolute root \<and> op_ok w op) steps"

text \<open>
  What stays of a stack since a moment when the counter stood at \<open>c\<close>: either nothing a reader sees
  of it has changed, or its revision is above \<open>c\<close>.
\<close>

definition traced :: "store_world \<Rightarrow> stack_db \<Rightarrow> stack_db \<Rightarrow> bool" where
  "traced w db d \<longleftrightarrow> tables_ok w d \<and> sd_counter db \<le> sd_counter d \<and>
     (\<forall>root. stack_at w d root = stack_at w db root \<and> stack_revision d root = stack_revision db root \<or>
       (\<forall>v. stack_revision d root = Some v \<longrightarrow> sd_counter db < v))"

lemma traced_step:
  assumes t: "traced w db d" and "is_absolute root" "op_ok w op"
  shows "traced w db (settled d (store_step w now d root op))"
proof (cases "store_step w now d root op")
  case (Inr d')
  have "tables_ok w d" using t by (simp add: traced_def)
  from store_step_stepped[OF this assms(2,3) Inr]
  have s: "tables_ok w d'" "sd_counter d \<le> sd_counter d'"
    "\<And>other. other \<noteq> root \<Longrightarrow> stack_at w d' other = stack_at w d other \<and> stack_revision d' other = stack_revision d other"
    "d' = d \<or> (\<forall>v. stack_revision d' root = Some v \<longrightarrow> sd_counter d < v)"
    by (auto simp: stepped_def)
  have "stack_at w d' x = stack_at w db x \<and> stack_revision d' x = stack_revision db x \<or>
      (\<forall>v. stack_revision d' x = Some v \<longrightarrow> sd_counter db < v)" for x
    using t s(3)[of x] s(4) unfolding traced_def by (cases "x = root") (metis order_le_less_trans)+
  with t s(1,2) show ?thesis by (simp add: Inr settled_def traced_def)
qed (use t in \<open>simp add: settled_def\<close>)

lemma traced_run: "traced w db d \<Longrightarrow> steps_ok w steps \<Longrightarrow> traced w db (store_run w d steps)"
proof (induction w d steps rule: store_run.induct)
  case (2 w d now root op steps)
  then show ?case using traced_step[of w db d root op now] by (simp add: steps_ok_def)
qed simp

lemma revision_bounded: "tables_ok w db \<Longrightarrow> stack_revision db root = Some v \<Longrightarrow> v \<le> sd_counter db"
  by (auto simp: tables_ok_def projects_ok_def stack_revision_def dest: find_SomeD)

lemma traced_refl: "tables_ok w db \<Longrightarrow> traced w db db"
  by (simp add: traced_def)

section \<open>What an addition is refused for\<close>

text \<open>A definition has its columns when its timeout fits one; its grace always does.\<close>

definition storable :: "process_spec \<Rightarrow> bool" where
  "storable spec \<longleftrightarrow> (case spec_ready spec of None \<Rightarrow> True | Some c \<Rightarrow> timeout c div NANOS_PER_MILLI < 2 ^ 63)"

lemma trim_blanks_command:
  assumes "CommandLine_try_new c = Inr c"
  shows "trim_with (\<lambda>x. x = 32) c \<noteq> []"
proof -
  have "c = trim c" and ne: "c \<noteq> []"
    using assms by (auto simp: CommandLine_try_new_def trimmed_text_Inr_iff text_ok_def)
  then have "trimmed_with is_whitespace c" using trimmed_trim_with[of is_whitespace c] by (simp add: trim_def)
  then have "trimmed_with (\<lambda>x. x = 32) c" by (auto simp: trimmed_with_def is_whitespace_def)
  with ne show ?thesis by (simp add: trim_with_id)
qed

lemma whole_millis_column:
  assumes "is_whole_millis d" "d \<noteq> 0" "d div NANOS_PER_MILLI < 2 ^ 63"
  obtains ms where "duration_millis what d = Inr ms" "0 < ms"
proof -
  obtain k where k: "d = NANOS_PER_MILLI * k" using assms(1) unfolding whole_millis_dvd by (rule dvdE)
  with assms that[of "int k"] show thesis
    by (simp add: duration_millis_def column_integer_def NANOS_PER_MILLI_def)
qed

lemma process_params_total:
  assumes ok: "spec_ok w spec" and fits: "storable spec"
  obtains row where "process_params w i pid spec = Inr row" "process_row_checks row"
proof -
  have "is_grace (grace_period (spec_stop spec))" using ok by (simp add: spec_ok_def)
  then have "is_whole_millis (grace_period (spec_stop spec))" "grace_period (spec_stop spec) \<noteq> 0"
    "grace_period (spec_stop spec) div NANOS_PER_MILLI < 2 ^ 63"
    by (auto simp: is_grace_def MAX_STOP_GRACE_def NANOS_PER_SEC_def NANOS_PER_MILLI_def)
  then obtain g where g: "duration_millis STOP_GRACE (grace_period (spec_stop spec)) = Inr g" "0 < g"
    by (rule whole_millis_column)
  have blank: "trim_with (\<lambda>x. x = 32) (spec_command spec) \<noteq> []"
    using ok by (intro trim_blanks_command) (simp add: spec_ok_def)
  have words: "restart_policy_to_string p \<in> {utf ''never'', utf ''on-failure'', utf ''always''}"
    "stop_signal_to_string s \<in> {utf ''terminate'', utf ''interrupt''}"
    "ready_kind_to_string k \<in> {utf ''log'', utf ''regex'', utf ''port'', utf ''http''}" for p s k
    subgoal by (cases p) simp_all
    subgoal by (cases s) simp_all
    subgoal by (cases k) simp_all
    done
  show thesis
  proof (cases "spec_ready spec")
    case None
    with g blank words that show thesis by (simp add: process_params_def process_row_checks_def)
  next
    case (Some c)
    obtain kind target where s: "stored (probe c) = (kind, target)" by fastforce
    have "is_whole_millis (timeout c)" "timeout c \<noteq> 0" "timeout c div NANOS_PER_MILLI < 2 ^ 63"
      using ok fits Some by (simp_all add: spec_ok_def storable_def is_positive_def)
    then obtain t where "duration_millis READY_TIMEOUT (timeout c) = Inr t" "0 < t"
      by (rule whole_millis_column)
    with Some s g blank words that show thesis by (simp add: process_params_def process_row_checks_def)
  qed
qed

text \<open>
  The refusals, in the order the store looks for them: a cap of the definition, the number of
  processes, a readiness timeout longer than its column, a key that is taken and, where the edit is
  logged, a clock beyond its column.
\<close>

definition add_refusal :: "store_world \<Rightarrow> duration \<Rightarrow> author \<Rightarrow> process_spec list \<Rightarrow> process_spec \<Rightarrow> config_error option" where
  "add_refusal w now author specs spec =
     (case check_caps spec of
        Inl e \<Rightarrow> Some e
      | Inr _ \<Rightarrow>
          if PROCESSES_MAX \<le> length specs then Some (TooManyProcesses (Suc (length specs)))
          else if \<not> storable spec then Some (TooLarge READY_TIMEOUT)
          else if spec_key (w_nfc w) spec \<in> spec_key (w_nfc w) ` set specs then Some (DuplicateProcessName (spec_name spec))
          else if author \<noteq> Human \<and> (2 ^ 63 - 1) * NANOS_PER_MILLI < now then Some (TooLarge RECORDED_AT)
          else None)"

definition refusal_of :: "'e + 'a \<Rightarrow> 'e option" where
  "refusal_of r = (case r of Inl e \<Rightarrow> Some e | Inr _ \<Rightarrow> None)"

lemma refusal_of_iff [simp]: "refusal_of r = Some e \<longleftrightarrow> r = Inl e" "refusal_of r = None \<longleftrightarrow> (\<exists>x. r = Inr x)"
  by (cases r; simp add: refusal_of_def)+

lemma holds_all_keys: "holds_all w db pid specs \<Longrightarrow> map (spec_key (w_nfc w)) specs = map pr_name_key (rows_in db pid)"
  unfolding holds_all_def by (induction rule: list_all2_induct) (auto dest: holds_key)

lemma duration_millis_fits:
  "duration_millis what now =
     (if (2 ^ 63 - 1) * NANOS_PER_MILLI < now then Inl (TooLarge what)
      else Inr (int ((now + NANOS_PER_MILLI - 1) div NANOS_PER_MILLI)))"
proof -
  have "(999999 + now) div 1000000 < 9223372036854775808 \<longleftrightarrow> now \<le> 9223372036854775807000000"
    by (simp add: div_less_iff_less_mult) linarith
  then show ?thesis
    by (simp add: duration_millis_def column_integer_def NANOS_PER_MILLI_def not_less)
qed

lemma process_params_too_large:
  assumes "spec_ok w spec" and "\<not> storable spec"
  shows "process_params w i pid spec = Inl (TooLarge READY_TIMEOUT)"
proof -
  from assms(2) obtain c where c: "spec_ready spec = Some c" "\<not> timeout c div NANOS_PER_MILLI < 2 ^ 63"
    by (auto simp: storable_def split: option.splits)
  have "is_whole_millis (timeout c)" using assms(1) c by (simp add: spec_ok_def is_positive_def)
  then obtain k where k: "timeout c = NANOS_PER_MILLI * k" unfolding whole_millis_dvd by (rule dvdE)
  with c(2) have "duration_millis READY_TIMEOUT (timeout c) = Inl (TooLarge READY_TIMEOUT)"
    by (simp add: duration_millis_def column_integer_def NANOS_PER_MILLI_def)
  with c(1) show ?thesis by (simp add: process_params_def split_beta)
qed

lemma add_process_refused:
  assumes ok: "tables_ok w db" and known: "root \<in> jr_root ` set (sd_projects db)" and spec: "spec_ok w spec"
  shows "refusal_of (add_process w now db root spec author) = add_refusal w now author (specs_at w db root) spec"
  using ok
proof (cases rule: stack_at_cases[where root = root, consumes 1, case_names stored unknown])
  case (stored r project specs)
  let ?pid = "jr_id r" and ?i = "fresh_row_id (map pr_id (sd_processes db))"
  have reg: "register w n db root = Inr ((?pid, \<lparr>reg_project = project, reg_newly_registered = False\<rparr>), db)" for n
    by (simp add: register_def stored(4))
  have count: "process_count db ?pid = length specs"
    using stored(5) by (simp add: process_count_def holds_all_def rows_in_def list_all2_lengthD)
  have logged: "refusal_of (and_then (record_edit w now d ?pid (Edit_Added author spec)) (\<lambda>d. Inr (x, d))) =
      (if author \<noteq> Human \<and> (2 ^ 63 - 1) * NANOS_PER_MILLI < now then Some (TooLarge RECORDED_AT) else None)"
    for d and x :: registration
    by (cases author) (simp_all add: record_edit_def refusal_of_def Let_def is_logged_def is_human_def duration_millis_fits)
  show ?thesis
  proof (cases "storable spec")
    case True
    obtain row where row: "process_params w ?i ?pid spec = Inr row" "process_row_checks row"
      by (rule process_params_total[OF spec True])
    have key: "pr_name_key row = spec_key (w_nfc w) spec" using process_params_keys[OF row(1)] by simp
    have "list_ex (is_process ?pid (pr_name_key row)) (sd_processes db) \<longleftrightarrow>
        spec_key (w_nfc w) spec \<in> set (map pr_name_key (rows_in db ?pid))"
      by (auto simp: list_ex_iff is_process_def rows_in_def key image_iff)
    then have taken: "list_ex (is_process ?pid (pr_name_key row)) (sd_processes db) \<longleftrightarrow>
        spec_key (w_nfc w) spec \<in> spec_key (w_nfc w) ` set specs"
      unfolding holds_all_keys[OF stored(5), symmetric] by simp
    show ?thesis
      unfolding stored(7) add_process_def add_refusal_def
      using row taken logged True
      by (cases "check_caps spec") (auto simp: reg count check_count_def insert_process_def refusal_of_def Let_def)
  next
    case False
    show ?thesis
      unfolding stored(7) add_process_def add_refusal_def
      using process_params_too_large[OF spec False] False
      by (cases "check_caps spec") (auto simp: reg count check_count_def insert_process_def refusal_of_def Let_def)
  qed
next
  case unknown
  with known show ?thesis by simp
qed

section \<open>A sample store\<close>

text \<open>A world in which names are their own normal form, and a store with no project yet.\<close>

definition plain_world :: store_world where
  "plain_world = \<lparr>w_nfc = id, w_is_format = (\<lambda>_. False), w_quote = Some, w_show_path = (\<lambda>_. utf ''/shop''),
     w_format_duration = (\<lambda>_. utf ''1s''), w_lowercase = id\<rparr>"

definition empty_db :: stack_db where
  "empty_db = \<lparr>sd_projects = [], sd_processes = [], sd_env = [], sd_ports = [], sd_runs = [], sd_counter = 0,
     sd_edits = [], sd_raised = [], sd_pending = [], sd_settings = None\<rparr>"

definition shop :: project_root where
  "shop = [RootDir, Normal (utf ''shop'')]"

lemma empty_db_ok: "tables_ok w empty_db"
  by (simp add: tables_ok_def rows_ok_def projects_ok_def empty_db_def)

lemma web_spec_ok: "spec_ok plain_world web_spec"
  by (simp add: spec_ok_def web_spec_def plain_world_def ProcessName_try_new_def CommandLine_try_new_def
      trimmed_text_Inr_iff text_ok_def utf_def text_simps is_whitespace_def process_name_terminal_safe_def
      steers_the_terminal_def is_control_def COMMAND_MAX_CHARS_def btree_map_def btree_set_def is_env_name_def
      is_env_value_def is_grace_def is_positive_def is_whole_millis_def from_secs_def NANOS_PER_SEC_def
      NANOS_PER_MILLI_def MAX_STOP_GRACE_def probe_ok_def)

lemma shop_absolute: "is_absolute shop"
  by code_simp

definition shop_row :: project_row where
  "shop_row = \<lparr>jr_id = 1, jr_root = shop, jr_name = utf ''shop'', jr_idle_kind = None, jr_idle_ms = None,
     jr_registered_ns = 0, jr_revision = 1\<rparr>"

definition web_row :: process_row where
  "web_row = \<lparr>pr_id = 1, pr_project = 1, pr_name_key = utf ''web'', pr_name = utf ''web'',
     pr_command = utf ''npm start'', pr_working_dir = None, pr_description = None, pr_autostart = True,
     pr_restart = utf ''on-failure'', pr_stop_signal = utf ''terminate'', pr_stop_grace_ms = 5000,
     pr_ready_kind = Some (utf ''port''), pr_ready_target = Some (utf ''8080''), pr_ready_timeout_ms = Some 30000\<rparr>"

definition shop_db :: stack_db where
  "shop_db = empty_db\<lparr>sd_projects := [shop_row], sd_processes := [web_row],
     sd_env := [(1, utf ''HOST'', utf ''localhost'')], sd_ports := [(1, 3000), (1, 9000)], sd_counter := 1\<rparr>"

lemma web_params: "process_params plain_world 1 1 web_spec = Inr web_row"
  by (simp add: process_params_def web_spec_def web_row_def plain_world_def stored_def duration_millis_def
      column_integer_def from_secs_def NANOS_PER_SEC_def NANOS_PER_MILLI_def spec_key_def name_key_def utf_def
      show_nat.simps)

lemma web_checks: "process_row_checks web_row"
  by (simp add: process_row_checks_def web_row_def utf_def text_simps)

lemma first_add: "add_process plain_world 0 empty_db shop web_spec Human =
    Inr (\<lparr>reg_project = \<lparr>project_root = shop, project_name = utf ''shop'', project_idle_stop = None\<rparr>,
          reg_newly_registered = True\<rparr>, shop_db)"
proof -
  have "free_name plain_world empty_db shop = Some (utf ''shop'')"
    by (simp add: free_name_def empty_db_def root_file_name_def shop_def plain_world_def candidate_accepted
        collision_name_def candidate_base_def printable_def steers_the_terminal_def is_control_def utf_def text_simps is_whitespace_def)
  moreover have "check_caps web_spec = Inr ()"
    by (simp add: check_caps_def web_spec_within)
  ultimately show ?thesis
    using web_params web_checks
    by (simp add: add_process_def register_def find_project_def one_where_def stored_where_def readable_where_def
        empty_db_def insert_process_def pop_def fresh_row_id_def process_count_def check_count_def
        PROCESSES_MAX_def insert_ports_def insert_environment_def bump_revision_def record_edit_def is_logged_def
        is_human_def epoch_nanos_of_def nanos_param_def shop_db_def shop_row_def Let_def)
      (simp add: web_spec_def web_row_def)
qed

lemma shop_db_ok: "tables_ok plain_world shop_db"
  using store_step_stepped[OF empty_db_ok shop_absolute, of plain_world "Op_Add web_spec Human" 0 shop_db]
  by (simp add: first_add web_spec_ok map_ok_def stepped_def)

lemma shop_specs: "specs_at plain_world shop_db shop = [web_spec]"
proof -
  have "specs_at plain_world empty_db shop = []"
    by (simp add: specs_at_def stack_at_none find_project_none empty_db_def)
  then show ?thesis
    using store_step_stepped[OF empty_db_ok shop_absolute, of plain_world "Op_Add web_spec Human" 0 shop_db]
    by (simp add: first_add web_spec_ok map_ok_def stepped_def)
qed

lemma shop_registered: "shop \<in> jr_root ` set (sd_projects shop_db)"
  by (simp add: shop_db_def shop_row_def)

lemma web_storable: "storable web_spec"
  by (simp add: storable_def web_spec_def from_secs_def NANOS_PER_SEC_def NANOS_PER_MILLI_def)

lemma add_again: "add_process plain_world 0 shop_db shop web_spec Human = Inl (DuplicateProcessName (utf ''web''))"
proof -
  have "web_spec \<in> set (specs_at plain_world shop_db shop)" by (simp add: shop_specs)
  then have "add_refusal plain_world 0 Human (specs_at plain_world shop_db shop) web_spec = Some (DuplicateProcessName (utf ''web''))"
    using web_storable
    by (simp add: add_refusal_def check_caps_def web_spec_within shop_specs PROCESSES_MAX_def check_count_def)
      (simp add: web_spec_def)
  then show ?thesis
    using add_process_refused[OF shop_db_ok shop_registered web_spec_ok, of 0 Human] by simp
qed

section \<open>The promises\<close>

text \<open>C18. The stack store implements the abstract edits. On tables in good order, an operation that
  succeeds (an addition, a change, a removal, an import in any mode, a new idle stop or forgetting the
  project) leaves the tables in good order; a reader of the project finds the definitions the abstract
  edit makes of those that were there, in the same order; and a reader of any other project finds the
  same stack as before.\<close>

theorem stack_store_refines:
  assumes "tables_ok w db" and "is_absolute root" and "op_ok w op"
    and "store_step w now db root op = Inr db'"
  shows "tables_ok w db' \<and> specs_at w db' root = edit_specs (w_nfc w) op (specs_at w db root) \<and>
    (\<forall>other. other = root \<or> stack_at w db' other = stack_at w db other)"
  using store_step_stepped[OF assms] by (auto simp: stepped_def)

theorem stack_store_refines_witness:
  "specs_at plain_world shop_db shop = edit_specs id (Op_Add web_spec Human) (specs_at plain_world empty_db shop)"
  using stack_store_refines[OF empty_db_ok shop_absolute, of plain_world "Op_Add web_spec Human" 0 shop_db]
  by (simp add: first_add web_spec_ok map_ok_def)

text \<open>C19. The stack revision tells stacks apart. Take a store in good order and any later history of
  additions, changes, removals, imports, idle stop changes and forgotten projects, failed ones
  included. When the project at a root has the same revision before and after, a reader gets the same
  stack: no edit, and no forgetting and registering again, goes unnoticed by a reader who compares
  revisions.\<close>

theorem stack_revision_tells:
  assumes "tables_ok w db" and "steps_ok w steps"
    and "stack_revision db root = Some v" and "stack_revision (store_run w db steps) root = Some v"
  shows "stack_at w (store_run w db steps) root = stack_at w db root"
proof -
  have "traced w db (store_run w db steps)" by (intro traced_run traced_refl assms)
  then show ?thesis using revision_bounded[OF assms(1,3)] assms(4) by (auto simp: traced_def)
qed

theorem stack_revision_tells_witness:
  "stack_at plain_world (store_run plain_world shop_db [(0, shop, Op_Add web_spec Human)]) shop =
   stack_at plain_world shop_db shop"
proof (rule stack_revision_tells[OF shop_db_ok])
  show "steps_ok plain_world [(0, shop, Op_Add web_spec Human)]"
    by (simp add: steps_ok_def web_spec_ok shop_absolute)
  show "stack_revision shop_db shop = Some 1" by (simp add: stack_revision_def shop_db_def shop_row_def)
  then show "stack_revision (store_run plain_world shop_db [(0, shop, Op_Add web_spec Human)]) shop = Some 1"
    by (simp add: add_again settled_def map_ok_def)
qed

text \<open>C26. An addition of a definition of the domain to a registered project is refused for exactly five reasons,
  looked for in this order: the definition is over a cap, the project already has as many processes as
  it may, the readiness timeout is more milliseconds than its column holds, the name's key is taken, or
  the edit is one that is logged and the clock is beyond what the log's column holds. Otherwise it
  succeeds, and the definition stands last in the stack, whose length is within the cap. It is never
  refused by a condition of the tables themselves.\<close>

theorem add_process_outcome:
  assumes "tables_ok w db" and "is_absolute root" and "root \<in> jr_root ` set (sd_projects db)" and "spec_ok w spec"
  shows "case add_process w now db root spec author of
      Inl e \<Rightarrow> add_refusal w now author (specs_at w db root) spec = Some e
    | Inr (_, db') \<Rightarrow> add_refusal w now author (specs_at w db root) spec = None \<and>
        specs_at w db' root = specs_at w db root @ [spec] \<and> length (specs_at w db' root) \<le> PROCESSES_MAX"
proof (cases "add_process w now db root spec author")
  case (Inl e)
  with add_process_refused[OF assms(1,3,4), of now author] show ?thesis by (simp add: refusal_of_def)
next
  case (Inr r)
  then obtain registration db' where r: "add_process w now db root spec author = Inr (registration, db')"
    by (cases r) simp
  have none: "add_refusal w now author (specs_at w db root) spec = None"
    using add_process_refused[OF assms(1,3,4), of now author] r by (simp add: refusal_of_def)
  then have "length (specs_at w db root) < PROCESSES_MAX"
    by (auto simp: add_refusal_def split: sum.splits if_splits)
  moreover have "specs_at w db' root = specs_at w db root @ [spec]"
    using store_step_stepped[OF assms(1,2), of "Op_Add spec author" now db'] assms(4) r
    by (simp add: map_ok_def stepped_def)
  ultimately show ?thesis using r none by simp
qed

theorem add_process_outcome_witness:
  "add_process plain_world 0 shop_db shop web_spec Human = Inl (DuplicateProcessName (utf ''web'')) \<and>
   add_refusal plain_world 0 Human (specs_at plain_world shop_db shop) web_spec = Some (DuplicateProcessName (utf ''web''))"
  using add_process_outcome[OF shop_db_ok shop_absolute shop_registered web_spec_ok, of 0 Human] by (simp add: add_again)

text \<open>C27. A definition survives its row. Every definition of the domain whose readiness timeout fits a
  column has its row; the row meets the conditions of its table; and read back with the variables and
  ports stored beside it, it is the same definition.\<close>

theorem process_row_round_trip:
  assumes "spec_ok w spec" and "storable spec"
  shows "\<exists>row. process_params w i pid spec = Inr row \<and> process_row_checks row \<and>
    process_from_row w [i \<mapsto> spec_environment spec] [i \<mapsto> spec_ports spec] row = Inr spec"
proof -
  obtain row where "process_params w i pid spec = Inr row" "process_row_checks row"
    by (rule process_params_total[OF assms])
  with process_row_read[OF assms(1)] show ?thesis by auto
qed

theorem process_row_round_trip_witness:
  "process_from_row plain_world [1 \<mapsto> spec_environment web_spec] [1 \<mapsto> spec_ports web_spec] web_row = Inr web_spec"
  using process_row_round_trip[OF web_spec_ok web_storable, of 1 1] by (simp add: web_params)

text \<open>C28. Registering a folder always ends, and finds a name. On tables in good order the walk over the
  candidate names reaches a free one within as many candidates as there are projects and one more, so a
  registration either answers the project or is refused because the folder holds a registered project.\<close>

theorem register_ends:
  assumes "tables_ok w db" and "\<And>c. 32 \<le> c \<Longrightarrow> c \<le> 126 \<Longrightarrow> \<not> w_is_format w c"
  shows "(\<exists>r. register w now db root = Inr r) \<or> (\<exists>held. register w now db root = Inl (HoldsProject root held))"
  using assms(1)
proof (cases rule: stack_at_cases[where root = root, consumes 1, case_names stored unknown])
  case (stored r project specs)
  then show ?thesis by (simp add: register_def)
next
  case unknown
  have "finite (jr_name ` set (sd_projects db))" by simp
  from free_candidate_exists[of "w_is_format w", OF assms(2) this, of "root_file_name root"]
  obtain i name where i: "i \<le> card (jr_name ` set (sd_projects db))"
    "candidate (w_is_format w) (root_file_name root) i = Inr name" "name \<notin> jr_name ` set (sd_projects db)"
    by blast
  have "card (jr_name ` set (sd_projects db)) \<le> length (sd_projects db)"
    using card_length[of "map jr_name (sd_projects db)"] by simp
  with i(1) have "i \<in> set [0..<Suc (length (sd_projects db))]" by (simp del: upt_Suc)
  with i(2,3) have "free_name w db root \<noteq> None"
    unfolding free_name_def find_map_None_iff by (fastforce simp del: upt_Suc set_upt)
  with unknown show ?thesis by (auto simp: register_def Let_def split: option.splits)
qed

theorem register_ends_witness:
  "(\<exists>r. register plain_world 0 shop_db [RootDir] = Inr r) \<or>
   (\<exists>held. register plain_world 0 shop_db [RootDir] = Inl (HoldsProject [RootDir] held))"
  by (rule register_ends[OF shop_db_ok]) (simp add: plain_world_def)

end
