(* ===== verification/StackEditor.thy ===== *)
theory StackEditor
  imports StackHistory
begin

text \<open>
  The stack editor (\<open>muster-application/src/stack_editor.rs\<close>): the use case through which the command
  line and agents edit stored state. Each operation writes through the stack store or the settings
  store and, once the write committed, tells a notifier. An operation answers its result, the tables
  as they are afterwards and the notices it sent, in order.

  The locale \<open>announced_store\<close> is the contract a listener relies on: a failed operation changes and
  announces nothing, and whatever changes is announced. A listener who reads again what is announced
  is then never out of date.
\<close>

section \<open>The editor\<close>

datatype notice = ProjectRegistered project_root | StackChanged project_root | SettingsChanged

definition told :: "project_root \<Rightarrow> registration \<Rightarrow> notice list" where
  "told root registration =
     (if reg_newly_registered registration then [ProjectRegistered root] else []) @ [StackChanged root]"

text \<open>
  A write and the notices that follow it. Every write of the store is one SQLite transaction, which
  rolls back when the write fails, and the editor returns at the error before it reaches the notifier;
  both are taken as given here, so that a failed write leaves the tables and sends nothing.
\<close>

definition written ::
    "stack_db \<Rightarrow> config_error + 'r \<times> stack_db \<Rightarrow> ('r \<Rightarrow> notice list) \<Rightarrow> (config_error + 'r) \<times> stack_db \<times> notice list" where
  "written db r notices =
     (case r of Inl e \<Rightarrow> (Inl e, db, []) | Inr (x, db') \<Rightarrow> (Inr x, db', notices x))"

definition editor_add ::
    "store_world \<Rightarrow> duration \<Rightarrow> stack_db \<Rightarrow> project_root \<Rightarrow> process_draft \<Rightarrow> author \<Rightarrow>
     (config_error + registration \<times> process_spec) \<times> stack_db \<times> notice list" where
  "editor_add w now db root draft author =
     (case load_settings w db of
        Inl e \<Rightarrow> (Inl e, db, [])
      | Inr s \<Rightarrow>
          (let spec = complete draft (settings_process_defaults s)
           in written db (map_ok (\<lambda>(registration, db). ((registration, spec), db)) (add_process w now db root spec author))
                (\<lambda>(registration, _). told root registration)))"

definition editor_change ::
    "store_world \<Rightarrow> duration \<Rightarrow> stack_db \<Rightarrow> project_root \<Rightarrow> ustring \<Rightarrow> process_change \<Rightarrow> author \<Rightarrow>
     (config_error + applied_change) \<times> stack_db \<times> notice list" where
  "editor_change w now db root name change author =
     written db (change_process w now db root name change author)
       (\<lambda>applied. if applied_changed applied then [StackChanged root] else [])"

definition editor_remove ::
    "store_world \<Rightarrow> duration \<Rightarrow> stack_db \<Rightarrow> project_root \<Rightarrow> ustring \<Rightarrow> author \<Rightarrow>
     (config_error + process_spec) \<times> stack_db \<times> notice list" where
  "editor_remove w now db root name author =
     written db (remove_process w now db root name author) (\<lambda>_. [StackChanged root])"

definition editor_import ::
    "store_world \<Rightarrow> duration \<Rightarrow> stack_db \<Rightarrow> project_root \<Rightarrow> process_spec list \<Rightarrow> import_mode \<Rightarrow>
     (config_error + registration \<times> import_plan) \<times> stack_db \<times> notice list" where
  "editor_import w now db root processes mode =
     written db (import w now db root processes mode) (\<lambda>(registration, _). told root registration)"

definition editor_set_idle_stop ::
    "store_world \<Rightarrow> stack_db \<Rightarrow> project_root \<Rightarrow> idle_stop option \<Rightarrow>
     (config_error + project) \<times> stack_db \<times> notice list" where
  "editor_set_idle_stop w db root idle = written db (set_idle_stop_at w db root idle) (\<lambda>_. [StackChanged root])"

definition editor_configure ::
    "store_world \<Rightarrow> duration \<Rightarrow> stack_db \<Rightarrow> setting_change \<Rightarrow> author \<Rightarrow>
     (config_error + settings) \<times> stack_db \<times> notice list" where
  "editor_configure w now db change author =
     (case written db (apply_setting w now db change author)
             (\<lambda>applied. if settings_changed applied then [SettingsChanged] else []) of
        (r, db, notices) \<Rightarrow> (map_ok settings_after r, db, notices))"

section \<open>Requests\<close>

datatype edit_request =
    Request_Add project_root process_draft author
  | Request_Change project_root ustring process_change author
  | Request_Remove project_root ustring author
  | Request_Import project_root "process_spec list" import_mode
  | Request_IdleStop project_root "idle_stop option"
  | Request_Configure setting_change author

definition failure :: "(config_error + 'r) \<times> stack_db \<times> notice list \<Rightarrow> config_error option \<times> stack_db \<times> notice list" where
  "failure = (\<lambda>(r, db, notices). (refusal_of r, db, notices))"

fun edit :: "store_world \<Rightarrow> duration \<Rightarrow> stack_db \<Rightarrow> edit_request \<Rightarrow> config_error option \<times> stack_db \<times> notice list" where
  "edit w now db (Request_Add root draft author) = failure (editor_add w now db root draft author)"
| "edit w now db (Request_Change root name change author) = failure (editor_change w now db root name change author)"
| "edit w now db (Request_Remove root name author) = failure (editor_remove w now db root name author)"
| "edit w now db (Request_Import root processes mode) = failure (editor_import w now db root processes mode)"
| "edit w now db (Request_IdleStop root idle) = failure (editor_set_idle_stop w db root idle)"
| "edit w now db (Request_Configure change author) = failure (editor_configure w now db change author)"

text \<open>What a notice is about: whether a project is registered, its stack, the settings.\<close>

datatype reading = Seen_Registered bool | Seen_Stack "config_error + stack option" | Seen_Settings "config_error + settings"

fun view :: "store_world \<Rightarrow> stack_db \<Rightarrow> notice \<Rightarrow> reading" where
  "view w db (ProjectRegistered root) = Seen_Registered (stack_revision db root \<noteq> None)"
| "view w db (StackChanged root) = Seen_Stack (stack_at w db root)"
| "view w db SettingsChanged = Seen_Settings (load_settings w db)"

section \<open>A store that announces its changes\<close>

text \<open>A listener keeps what it last saw and looks again at what each operation announces.\<close>

fun listen ::
    "('s \<Rightarrow> 'q \<Rightarrow> 'e option \<times> 's \<times> 'n list) \<Rightarrow> ('s \<Rightarrow> 'n \<Rightarrow> 'v) \<Rightarrow> ('n \<Rightarrow> 'v) \<Rightarrow> 's \<Rightarrow> 'q list \<Rightarrow> ('n \<Rightarrow> 'v) \<times> 's" where
  "listen handle look cache s [] = (cache, s)"
| "listen handle look cache s (q # qs) =
     (case handle s q of
        (_, s', ns) \<Rightarrow> listen handle look (\<lambda>n. if n \<in> set ns then look s' n else cache n) s' qs)"

locale announced_store =
  fixes good :: "'s \<Rightarrow> bool" and allowed :: "'q \<Rightarrow> bool" and look :: "'s \<Rightarrow> 'n \<Rightarrow> 'v"
    and handle :: "'s \<Rightarrow> 'q \<Rightarrow> 'e option \<times> 's \<times> 'n list"
  assumes keeps: "good s \<Longrightarrow> allowed q \<Longrightarrow> handle s q = (e, s', ns) \<Longrightarrow> good s'"
    and announces: "good s \<Longrightarrow> allowed q \<Longrightarrow> handle s q = (e, s', ns) \<Longrightarrow> look s' n \<noteq> look s n \<Longrightarrow> n \<in> set ns"
    and silent: "handle s q = (Some err, s', ns) \<Longrightarrow> s' = s \<and> ns = []"
begin

lemma listener_up_to_date:
  "good s \<Longrightarrow> list_all allowed qs \<Longrightarrow> listen handle look (look s) s qs = (cache', s') \<Longrightarrow> cache' = look s' \<and> good s'"
proof (induction qs arbitrary: s)
  case (Cons q qs)
  obtain e t ns where h: "handle s q = (e, t, ns)" by (cases "handle s q")
  have "look t n = look s n" if "n \<notin> set ns" for n using announces[OF _ _ h] Cons.prems(1,2) that by auto
  then have "(\<lambda>n. if n \<in> set ns then look t n else look s n) = look t" by auto
  moreover have "good t" using keeps[OF _ _ h] Cons.prems(1,2) by simp
  ultimately show ?case using Cons h by simp
qed simp

end

section \<open>The editor announces its changes\<close>

definition draft_ok :: "store_world \<Rightarrow> process_draft \<Rightarrow> bool" where
  "draft_ok w d \<longleftrightarrow>
     ProcessName_try_new (w_is_format w) (draft_name d) = Inr (draft_name d) \<and>
     CommandLine_try_new (draft_command d) = Inr (draft_command d) \<and>
     (case draft_description d of None \<Rightarrow> True | Some x \<Rightarrow> Description_try_new x = Inr x) \<and>
     btree_map (draft_environment d) \<and>
     (\<forall>(name, v) \<in> set (draft_environment d). is_env_name name \<and> is_env_value v) \<and>
     (case draft_stop_grace d of None \<Rightarrow> True | Some g \<Rightarrow> is_grace g) \<and>
     (case draft_ready d of None \<Rightarrow> True | Some c \<Rightarrow> probe_ok (probe c) \<and> is_positive (timeout c)) \<and>
     btree_set (draft_ports d) \<and> (\<forall>p \<in> set (draft_ports d). 0 < p \<and> p < 2 ^ 16)"

fun request_ok :: "store_world \<Rightarrow> edit_request \<Rightarrow> bool" where
  "request_ok w (Request_Add root draft _) = (is_absolute root \<and> draft_ok w draft)"
| "request_ok w (Request_Change root _ change _) = (is_absolute root \<and> change_ok change)"
| "request_ok w (Request_Remove root _ _) = is_absolute root"
| "request_ok w (Request_Import root processes _) = (is_absolute root \<and> (\<forall>s \<in> set processes. spec_ok w s))"
| "request_ok w (Request_IdleStop root idle) = (is_absolute root \<and> (case idle of None \<Rightarrow> True | Some i \<Rightarrow> idle_ok i))"
| "request_ok w (Request_Configure _ _) = True"

lemma load_settings_grace: "load_settings w db = Inr s \<Longrightarrow> is_grace (set_default_stop_grace s)"
  by (auto simp: load_settings_def settings_from_row_def and_then_Inr_iff grace_from_millis_def
      StopGrace_try_new_def split: option.splits if_splits)

lemma complete_ok:
  assumes "draft_ok w draft" "load_settings w db = Inr s"
  shows "spec_ok w (complete draft (settings_process_defaults s))"
  using assms(1) load_settings_grace[OF assms(2)]
  by (cases "draft_stop_grace draft")
    (simp_all add: draft_ok_def spec_ok_def complete_def settings_process_defaults_def)

text \<open>The stack operations leave the settings alone.\<close>

lemma insert_process_settings: "insert_process w db pid spec = Inr d \<Longrightarrow> sd_settings d = sd_settings db"
  by (auto simp: insert_process_def Let_def and_then_Inr_iff insert_ports_def insert_environment_def split: if_splits)

lemma update_process_settings: "update_process w db pid spec = Inr d \<Longrightarrow> sd_settings d = sd_settings db"
  by (auto simp: update_process_def Let_def and_then_Inr_iff insert_ports_def insert_environment_def
      split: if_splits option.splits)

lemma record_edit_settings: "record_edit w now db pid e = Inr d \<Longrightarrow> sd_settings d = sd_settings db"
  by (auto simp: record_edit_def Let_def and_then_Inr_iff split: if_splits)

lemma delete_process_settings [simp]: "sd_settings (delete_process w db pid name) = sd_settings db"
  by (simp add: delete_process_def delete_rows_def Let_def)

lemma bump_revision_settings [simp]: "sd_settings (bump_revision db pid) = sd_settings db"
  by (simp add: bump_revision_def Let_def)

lemma register_settings: "register w now db root = Inr (x, d) \<Longrightarrow> sd_settings d = sd_settings db"
  by (auto simp: register_def Let_def and_then_Inr_iff split: option.splits)

lemma delete_each_settings [simp]: "sd_settings (delete_each w db pid names) = sd_settings db"
  by (induction w db pid names rule: delete_each.induct) simp_all

lemma write_each_settings:
  assumes "\<And>db spec d. write db pid spec = Inr d \<Longrightarrow> sd_settings d = sd_settings db"
  shows "write_each write w specs db pid names = Inr d \<Longrightarrow> sd_settings d = sd_settings db"
  by (induction names arbitrary: db) (auto simp: and_then_Inr_iff dest: assms split: option.splits)

lemma update_each_settings: "write_each (update_process w) w specs db pid names = Inr d \<Longrightarrow> sd_settings d = sd_settings db"
  by (rule write_each_settings) (rule update_process_settings)

lemma insert_each_settings: "write_each (insert_process w) w specs db pid names = Inr d \<Longrightarrow> sd_settings d = sd_settings db"
  by (rule write_each_settings) (rule insert_process_settings)

lemma store_idle_stop_settings: "store_idle_stop db pid idle = Inr d \<Longrightarrow> sd_settings d = sd_settings db"
  by (auto simp: store_idle_stop_def and_then_Inr_iff split: option.splits)

lemma store_operations_settings:
  "add_process w now db root spec author = Inr (x, d) \<Longrightarrow> sd_settings d = sd_settings db"
  "change_process w now db root name change author = Inr (y, d) \<Longrightarrow> sd_settings d = sd_settings db"
  "remove_process w now db root name author = Inr (z, d) \<Longrightarrow> sd_settings d = sd_settings db"
  "import w now db root specs mode = Inr (u, d) \<Longrightarrow> sd_settings d = sd_settings db"
  "set_idle_stop_at w db root idle = Inr (v, d) \<Longrightarrow> sd_settings d = sd_settings db"
  subgoal
    by (auto simp: add_process_def and_then_Inr_iff
        dest!: register_settings insert_process_settings record_edit_settings)
  subgoal
    by (auto simp: change_process_def and_then_Inr_iff Let_def
        dest!: update_process_settings record_edit_settings split: if_splits)
  subgoal by (auto simp: remove_process_def and_then_Inr_iff dest!: record_edit_settings)
  subgoal
    by (auto simp: import_def and_then_Inr_iff dest!: register_settings update_each_settings insert_each_settings)
  subgoal by (auto simp: set_idle_stop_at_def and_then_Inr_iff Let_def dest!: store_idle_stop_settings)
  done

lemma known_revision:
  assumes "tables_ok w db"
  shows "find_project w db root = Inr None \<longleftrightarrow> stack_revision db root = None"
  using assms
proof (cases rule: stack_at_cases[where root = root, consumes 1, case_names stored unknown])
  case (stored r project specs)
  then show ?thesis by (auto simp: stack_revision_def find_None_iff_all)
next
  case unknown
  then show ?thesis by (auto simp: stack_revision_def find_None_iff_all)
qed

lemma register_newly:
  assumes "register w now db root = Inr ((pid, registration), d)"
  shows "reg_newly_registered registration \<longleftrightarrow> find_project w db root = Inr None"
proof (cases "find_project w db root")
  case (Inr x)
  with assms show ?thesis
    by (cases x) (auto simp: register_def Let_def and_then_Inr_iff split: option.splits)
qed (use assms in \<open>simp add: register_def\<close>)

lemma stepped_view:
  assumes "stepped w db root d specs" "sd_settings d = sd_settings db" "view w d n \<noteq> view w db n"
  shows "n = StackChanged root \<or> n = ProjectRegistered root \<and> (stack_revision d root = None) \<noteq> (stack_revision db root = None)"
proof (cases n)
  case (ProjectRegistered other)
  with assms(1,3) show ?thesis by (cases "other = root") (auto simp: stepped_def)
next
  case (StackChanged other)
  with assms(1,3) show ?thesis by (cases "other = root") (auto simp: stepped_def)
next
  case SettingsChanged
  with assms(2,3) show ?thesis by (simp add: load_settings_def)
qed

lemma published_view:
  assumes ok: "tables_ok w db" and p: "published w db root d pid project specs" and "sd_settings d = sd_settings db"
    and "view w d n \<noteq> view w db n"
  shows "n = StackChanged root \<or> n = ProjectRegistered root \<and> find_project w db root = Inr None"
  using stepped_view[OF published_stepped[OF ok p] assms(3,4)] p by (auto simp: known_revision[OF ok] published_def)

lemma record_edit_in_fields:
  "record_edit_in w now db pids e = Inr d \<Longrightarrow>
   sd_processes d = sd_processes db \<and> sd_env d = sd_env db \<and> sd_ports d = sd_ports db \<and>
   sd_projects d = sd_projects db \<and> sd_counter d = sd_counter db \<and> sd_settings d = sd_settings db"
proof (induction pids arbitrary: db)
  case (Cons pid pids)
  then obtain x where "record_edit w now db pid e = Inr x" "record_edit_in w now x pids e = Inr d"
    by (auto simp: and_then_Inr_iff)
  with Cons.IH[of x] record_edit_fields record_edit_settings show ?case by metis
qed simp

lemma apply_setting_fields:
  assumes "apply_setting w now db change author = Inr (applied, d)"
  shows "sd_processes d = sd_processes db \<and> sd_env d = sd_env db \<and> sd_ports d = sd_ports db \<and>
      sd_projects d = sd_projects db \<and> sd_counter d = sd_counter db"
    and "load_settings w d = Inr (settings_after applied)"
    and "settings_changed applied \<longleftrightarrow> load_settings w d \<noteq> load_settings w db"
proof -
  from assms obtain before row x after where
    before: "load_settings w db = Inr before" and row: "settings_to_row (settings_with_change before change) = Inr row"
    and x: "x = db\<lparr>sd_settings := map_option (\<lambda>_. row) (sd_settings db)\<rparr>" and after: "load_settings w x = Inr after"
    and applied: "applied = \<lparr>settings_after = after, settings_changed = after \<noteq> before\<rparr>"
    and rest: "(if after \<noteq> before then record_edit_everywhere w now x
        (Edit_Configured author (setting_change_key change) (value_text (w_format_duration w) after (setting_change_key change)))
      else Inr x) = Inr d"
    unfolding apply_setting_def store_settings_def and_then_Inr_iff Let_def by blast
  from rest have same: "sd_processes d = sd_processes x \<and> sd_env d = sd_env x \<and> sd_ports d = sd_ports x \<and>
      sd_projects d = sd_projects x \<and> sd_counter d = sd_counter x \<and> sd_settings d = sd_settings x"
    by (auto simp: record_edit_everywhere_def split: if_splits dest!: record_edit_in_fields)
  then show "sd_processes d = sd_processes db \<and> sd_env d = sd_env db \<and> sd_ports d = sd_ports db \<and>
      sd_projects d = sd_projects db \<and> sd_counter d = sd_counter db" by (simp add: x)
  have "load_settings w d = load_settings w x" using same by (simp add: load_settings_def)
  then show "load_settings w d = Inr (settings_after applied)"
    and "settings_changed applied \<longleftrightarrow> load_settings w d \<noteq> load_settings w db"
    using after before by (auto simp: applied)
qed

lemma same_tables:
  assumes "tables_ok w db" "sd_processes d = sd_processes db \<and> sd_env d = sd_env db \<and> sd_ports d = sd_ports db \<and>
      sd_projects d = sd_projects db \<and> sd_counter d = sd_counter db"
  shows "tables_ok w d" "stack_at w d root = stack_at w db root" "stack_revision d root = stack_revision db root"
proof -
  have rows: "same_rows db d" using assms(2) by (simp add: same_rows_def)
  show ok: "tables_ok w d"
    using assms same_rows_holds(3)[OF rows, of w] projects_ok_same[of d db w] by (simp add: tables_ok_def)
  show "stack_revision d root = stack_revision db root" using assms(2) by (simp add: stack_revision_def)
  show "stack_at w d root = stack_at w db root"
    using find_project_same[of d db w] same_rows_holds(2)[OF rows, of w] assms(2)
    by (intro stack_at_frame[OF assms(1) ok]) simp_all
qed

definition announced :: "store_world \<Rightarrow> stack_db \<Rightarrow> stack_db \<Rightarrow> notice list \<Rightarrow> bool" where
  "announced w db d ns \<longleftrightarrow> tables_ok w d \<and> (\<forall>n. view w d n \<noteq> view w db n \<longrightarrow> n \<in> set ns)"

lemma announced_same: "tables_ok w db \<Longrightarrow> announced w db db ns"
  by (simp add: announced_def)

lemma published_announced:
  assumes "tables_ok w db" "published w db root d pid project specs" "sd_settings d = sd_settings db"
    and "StackChanged root \<in> set ns" "find_project w db root = Inr None \<Longrightarrow> ProjectRegistered root \<in> set ns"
  shows "announced w db d ns"
  using published_stepped[OF assms(1,2)] published_view[OF assms(1-3)] assms(4,5)
  by (auto simp: announced_def stepped_def)

lemma written_announced:
  assumes "tables_ok w db" "written db r notices = (y, d, ns)"
    and "\<And>x d. r = Inr (x, d) \<Longrightarrow> announced w db d (notices x)"
  shows "announced w db d ns"
  using assms by (auto simp: written_def announced_same split: sum.splits)

lemma required_known: "require_project w db root = Inr p \<Longrightarrow> find_project w db root \<noteq> Inr None"
  by (auto simp: require_project_def)

lemma add_announced:
  assumes ok: "tables_ok w db" "is_absolute root" "spec_ok w spec"
    and add: "add_process w now db root spec author = Inr (registration, d)"
  shows "announced w db d (told root registration)"
proof -
  from add_process_edited[OF ok add] obtain pid where
    p: "published w db root d pid (reg_project registration) (specs_at w db root @ [spec])" ..
  from add have "reg_newly_registered registration \<longleftrightarrow> find_project w db root = Inr None"
    by (auto simp: add_process_def and_then_Inr_iff dest: register_newly)
  then show ?thesis
    by (intro published_announced[OF ok(1) p store_operations_settings(1)[OF add]]) (auto simp: told_def)
qed

lemma change_announced:
  assumes ok: "tables_ok w db" "change_ok change"
    and c: "change_process w now db root name change author = Inr (applied, d)"
  shows "announced w db d (if applied_changed applied then [StackChanged root] else [])"
proof (cases "applied_changed applied")
  case True
  with change_process_edited[OF ok c] obtain pid project specs where
    p: "published w db root d pid project specs" by auto
  from c have "find_project w db root \<noteq> Inr None"
    by (auto simp: change_process_def and_then_Inr_iff dest: required_known)
  then show ?thesis
    by (intro published_announced[OF ok(1) p store_operations_settings(2)[OF c]]) (auto simp: True)
next
  case False
  with change_process_edited[OF ok c] show ?thesis by (auto simp: announced_same[OF ok(1)])
qed

lemma remove_announced:
  assumes ok: "tables_ok w db" and c: "remove_process w now db root name author = Inr (s, d)"
  shows "announced w db d [StackChanged root]"
proof -
  from remove_process_edited[OF ok c] obtain pid project specs where p: "published w db root d pid project specs" by auto
  from c have "find_project w db root \<noteq> Inr None"
    by (auto simp: remove_process_def and_then_Inr_iff dest: required_known)
  then show ?thesis by (intro published_announced[OF ok p store_operations_settings(3)[OF c]]) auto
qed

lemma import_announced:
  assumes ok: "tables_ok w db" "is_absolute root" "\<forall>s \<in> set processes. spec_ok w s"
    and c: "import w now db root processes mode = Inr ((registration, plan), d)"
  shows "announced w db d (told root registration)"
proof -
  from import_edited[OF ok c] obtain pid project specs where p: "published w db root d pid project specs" by auto
  from c have "reg_newly_registered registration \<longleftrightarrow> find_project w db root = Inr None"
    by (auto simp: import_def and_then_Inr_iff dest: register_newly)
  then show ?thesis
    by (intro published_announced[OF ok(1) p store_operations_settings(4)[OF c]]) (auto simp: told_def)
qed

lemma idle_stop_announced:
  assumes ok: "tables_ok w db" "case idle of None \<Rightarrow> True | Some i \<Rightarrow> idle_ok i"
    and c: "set_idle_stop_at w db root idle = Inr (s, d)"
  shows "announced w db d [StackChanged root]"
proof -
  from idle_stop_edited[OF ok c] obtain pid specs where p: "published w db root d pid s specs" by auto
  from c have "find_project w db root \<noteq> Inr None"
    by (auto simp: set_idle_stop_at_def and_then_Inr_iff dest: required_known)
  then show ?thesis by (intro published_announced[OF ok(1) p store_operations_settings(5)[OF c]]) auto
qed

lemma configure_announced:
  assumes ok: "tables_ok w db" and c: "apply_setting w now db change author = Inr (applied, d)"
  shows "announced w db d (if settings_changed applied then [SettingsChanged] else [])"
proof -
  have n: "n = SettingsChanged \<and> settings_changed applied" if "view w d n \<noteq> view w db n" for n
    using that same_tables[OF ok apply_setting_fields(1)[OF c]] apply_setting_fields(3)[OF c] by (cases n) auto
  with same_tables(1)[OF ok apply_setting_fields(1)[OF c]] show ?thesis by (auto simp: announced_def)
qed

lemma edit_announced:
  assumes ok: "tables_ok w db" and req: "request_ok w q" and run: "edit w now db q = (e, d, ns)"
  shows "announced w db d ns"
proof (cases q)
  case (Request_Add root draft author)
  show ?thesis
  proof (cases "load_settings w db")
    case (Inl e)
    with ok run Request_Add show ?thesis by (auto simp: editor_add_def failure_def announced_same)
  next
    case (Inr s)
    with req Request_Add have valid: "is_absolute root" "spec_ok w (complete draft (settings_process_defaults s))"
      by (simp_all add: complete_ok)
    from run Request_Add Inr show ?thesis
      by (auto simp: editor_add_def failure_def Let_def split: prod.splits
          elim!: written_announced[OF ok] intro: add_announced[OF ok valid])
  qed
next
  case (Request_Change root name change author)
  with req run show ?thesis
    by (auto simp: editor_change_def failure_def split: prod.splits
        elim!: written_announced[OF ok] dest: change_announced[OF ok])
next
  case (Request_Remove root name author)
  with req run show ?thesis
    by (auto simp: editor_remove_def failure_def split: prod.splits
        elim!: written_announced[OF ok] remove_announced[OF ok])
next
  case (Request_Import root processes mode)
  with req run show ?thesis
    by (auto simp: editor_import_def failure_def split: prod.splits
        elim!: written_announced[OF ok] import_announced[OF ok])
next
  case (Request_IdleStop root idle)
  with req run show ?thesis
    by (auto simp: editor_set_idle_stop_def failure_def split: prod.splits
        elim!: written_announced[OF ok] intro: idle_stop_announced[OF ok])
next
  case (Request_Configure change author)
  with req run show ?thesis
    by (auto simp: editor_configure_def failure_def split: prod.splits
        elim!: written_announced[OF ok] dest: configure_announced[OF ok])
qed

lemma map_ok_Inl_iff [simp]: "map_ok f r = Inl e \<longleftrightarrow> r = Inl e"
  by (cases r) (simp_all add: map_ok_def)

lemma written_silent: "written db r notices = (Inl e, d, ns) \<Longrightarrow> d = db \<and> ns = []"
  by (auto simp: written_def split: sum.splits)

lemma edit_silent: "edit w now db q = (Some e, d, ns) \<Longrightarrow> d = db \<and> ns = []"
  by (cases q)
    (auto simp: failure_def editor_add_def editor_change_def editor_remove_def editor_import_def
      editor_set_idle_stop_def editor_configure_def Let_def dest!: written_silent split: prod.splits sum.splits)

text \<open>A request with the time it is made at.\<close>

definition edit_at :: "store_world \<Rightarrow> stack_db \<Rightarrow> duration \<times> edit_request \<Rightarrow> config_error option \<times> stack_db \<times> notice list" where
  "edit_at w db = (\<lambda>(now, q). edit w now db q)"

interpretation editor: announced_store "tables_ok w" "\<lambda>(_, q). request_ok w q" "view w" "edit_at w" for w
  by unfold_locales (auto simp: edit_at_def announced_def dest: edit_announced edit_silent)

text \<open>C20. No stored change goes unannounced. A listener starts with what the tables hold and, after each
  request to the editor, looks again only at what was announced: a project registered, a stack changed,
  the settings changed. After any sequence of requests, refused ones included, what it holds is what the
  tables hold, for every project and for the settings.\<close>

theorem editor_listener_up_to_date:
  assumes "tables_ok w db" and "list_all (\<lambda>(_, q). request_ok w q) requests"
    and "listen (edit_at w) (view w) (view w db) db requests = (cache, db')"
  shows "cache = view w db' \<and> tables_ok w db'"
  by (rule editor.listener_up_to_date[OF assms])

theorem editor_listener_up_to_date_witness:
  "fst (listen (edit_at plain_world) (view plain_world) (view plain_world shop_db) shop_db
     [(0, Request_Remove shop (utf ''web'') Human), (1, Request_Import shop [web_spec] Replace)]) =
   view plain_world (snd (listen (edit_at plain_world) (view plain_world) (view plain_world shop_db) shop_db
     [(0, Request_Remove shop (utf ''web'') Human), (1, Request_Import shop [web_spec] Replace)]))"
  by (rule editor_listener_up_to_date[OF shop_db_ok, THEN conjunct1, OF _ prod.collapse[symmetric]])
    (simp add: shop_absolute web_spec_ok)

end
