(* ===== verification/Occupancy.thy ===== *)
theory Occupancy
  imports Paths "HOL-Library.Product_Lexorder" "HOL-Library.Multiset"
begin

text \<open>
  Which shells sit in which projects: \<open>muster-domain/src/occupancy/\<close>. A shell reports its folder
  with a stamp; the table \<open>Occupancy\<close> keeps the newest report of every shell and counts the shells
  per project, and reports a change when a project gains its first shell or loses its last. The
  folder a shell stands in is resolved to a project before it is reported, and
  \<open>following\<close> decides which enclosing projects the shell goes on holding.

  The two \<open>HashMap\<close>s are kept as sorted maps: the table only looks up, inserts and removes, and the two
  listings sort what they collect, so the order of a \<open>HashMap\<close> is never seen. Process ids, start
  tokens, load starts and sequence numbers are naturals; they are only compared.
\<close>

section \<open>Shells and stamps\<close>

datatype shell_id = ShellId (shell_pid: nat) (shell_start: nat)

datatype load_id = LoadId (load_started: nat) (load_pid: nat)

datatype report_stamp = ReportStamp (stamp_load: load_id) (stamp_seq: nat)

text \<open>The derived orders: field by field, in the order of declaration.\<close>

definition shell_key :: "shell_id \<Rightarrow> nat \<times> nat" where
  "shell_key s = (shell_pid s, shell_start s)"

definition stamp_key :: "report_stamp \<Rightarrow> (nat \<times> nat) \<times> nat" where
  "stamp_key s = ((load_started (stamp_load s), load_pid (stamp_load s)), stamp_seq s)"

lemma shell_key_inject [simp]: "shell_key a = shell_key b \<longleftrightarrow> a = b"
  by (cases a; cases b) (auto simp: shell_key_def)

lemma stamp_key_inject [simp]: "stamp_key a = stamp_key b \<longleftrightarrow> a = b"
  by (auto simp: stamp_key_def intro: report_stamp.expand load_id.expand)

instantiation shell_id :: linorder
begin

definition less_eq_shell_id :: "shell_id \<Rightarrow> shell_id \<Rightarrow> bool" where
  "less_eq_shell_id a b \<longleftrightarrow> shell_key a \<le> shell_key b"

definition less_shell_id :: "shell_id \<Rightarrow> shell_id \<Rightarrow> bool" where
  "less_shell_id a b \<longleftrightarrow> shell_key a < shell_key b"

instance
  by standard (auto simp: less_eq_shell_id_def less_shell_id_def not_le dest: order_antisym)

end

instantiation report_stamp :: linorder
begin

definition less_eq_report_stamp :: "report_stamp \<Rightarrow> report_stamp \<Rightarrow> bool" where
  "less_eq_report_stamp a b \<longleftrightarrow> stamp_key a \<le> stamp_key b"

definition less_report_stamp :: "report_stamp \<Rightarrow> report_stamp \<Rightarrow> bool" where
  "less_report_stamp a b \<longleftrightarrow> stamp_key a < stamp_key b"

instance
  by standard (auto simp: less_eq_report_stamp_def less_report_stamp_def not_le dest: order_antisym)

end

definition supersedes :: "report_stamp \<Rightarrow> report_stamp \<Rightarrow> bool" where
  "supersedes self earlier \<longleftrightarrow> earlier < self"

section \<open>Records\<close>

record shell_record =
  rec_shell :: shell_id
  rec_stamp :: report_stamp
  rec_folder :: path
  rec_arrived :: nat
  rec_project :: "project_root option"
  rec_held :: "project_root list"

definition registered_since :: "shell_record \<Rightarrow> shell_record \<Rightarrow> bool \<Rightarrow> bool" where
  "registered_since self previous around =
     (case rec_project self of
        None \<Rightarrow> False
      | Some project \<Rightarrow>
          (around \<or> contains project (rec_folder previous)) \<and>
          (case rec_project previous of
             None \<Rightarrow> True
           | Some before \<Rightarrow> before \<noteq> project \<and> contains before project))"

definition following :: "shell_record \<Rightarrow> shell_record option \<Rightarrow> bool \<Rightarrow> shell_record" where
  "following self previous around =
     (case previous of
        None \<Rightarrow> self
      | Some previous \<Rightarrow>
          (let held = rec_held previous @
                        (if registered_since self previous around
                         then (case rec_project previous of None \<Rightarrow> [] | Some p \<Rightarrow> [p]) else []);
               held = filter (\<lambda>root. case rec_project self of
                                None \<Rightarrow> False
                              | Some project \<Rightarrow> project \<noteq> root \<and> contains root project) held
           in self\<lparr>rec_held := remdups_adj (sort held)\<rparr>))"

definition registered_around :: "shell_record \<Rightarrow> project_root \<Rightarrow> shell_record" where
  "registered_around self root = following (self\<lparr>rec_project := Some root\<rparr>) (Some self) True"

definition may_enter :: "shell_record \<Rightarrow> shell_record option \<Rightarrow> bool \<Rightarrow> bool" where
  "may_enter self previous around \<longleftrightarrow>
     rec_project self \<noteq> None \<and> \<not> around \<and>
     (case previous of
        None \<Rightarrow> True
      | Some previous \<Rightarrow>
          rec_project previous \<noteq> rec_project self \<and> \<not> registered_since self previous around)"

text \<open>A project with the time it was registered at, \<open>registered_project.rs\<close>.\<close>

definition registered_after :: "nat option \<Rightarrow> nat \<Rightarrow> bool" where
  "registered_after registered arrived = (case registered of None \<Rightarrow> False | Some at \<Rightarrow> arrived < at)"

record seen =
  seen_stamp :: report_stamp
  seen_projects :: "project_root list"

definition seen_of :: "shell_record \<Rightarrow> seen" where
  "seen_of record =
     \<lparr>seen_stamp = rec_stamp record,
      seen_projects = bset_extend [] ((case rec_project record of None \<Rightarrow> [] | Some p \<Rightarrow> [p]) @ rec_held record)\<rparr>"

section \<open>The table\<close>

datatype occupancy_change = Entered project_root | Left project_root

record occupancy =
  occ_shells :: "(shell_id, seen) bmap"
  occ_counts :: "(project_root, nat) bmap"

definition Occupancy_new :: occupancy where
  "Occupancy_new = \<lparr>occ_shells = [], occ_counts = []\<rparr>"

fun recount_left ::
    "(project_root, nat) bmap \<Rightarrow> project_root list \<Rightarrow> (project_root, nat) bmap \<times> occupancy_change list" where
  "recount_left counts [] = (counts, [])"
| "recount_left counts (root # roots) =
     (case map_of counts root of
        None \<Rightarrow> recount_left counts roots
      | Some n \<Rightarrow>
          (let n' = n - 1 in
           if n' = 0 then
             (let (counts', changes) = recount_left (bmap_remove root counts) roots
              in (counts', Left root # changes))
           else recount_left (bmap_insert root n' counts) roots))"

fun recount_entered ::
    "(project_root, nat) bmap \<Rightarrow> project_root list \<Rightarrow> (project_root, nat) bmap \<times> occupancy_change list" where
  "recount_entered counts [] = (counts, [])"
| "recount_entered counts (root # roots) =
     (let n = unwrap_or (map_of counts root) 0 + 1;
          (counts', changes) = recount_entered (bmap_insert root n counts) roots
      in (counts', if n = 1 then Entered root # changes else changes))"

definition recount ::
    "(project_root, nat) bmap \<Rightarrow> project_root list \<Rightarrow> project_root list \<Rightarrow>
     (project_root, nat) bmap \<times> occupancy_change list" where
  "recount counts before after =
     (let (counts, left) = recount_left counts (filter (\<lambda>root. root \<notin> set after) before);
          (counts, entered) = recount_entered counts (filter (\<lambda>root. root \<notin> set before) after)
      in (counts, left @ entered))"

definition projects_of :: "occupancy \<Rightarrow> shell_id \<Rightarrow> project_root list" where
  "projects_of self shell =
     (case map_of (occ_shells self) shell of None \<Rightarrow> [] | Some seen \<Rightarrow> seen_projects seen)"

definition is_newer :: "occupancy \<Rightarrow> shell_record \<Rightarrow> bool" where
  "is_newer self record =
     (case map_of (occ_shells self) (rec_shell record) of
        None \<Rightarrow> True
      | Some seen \<Rightarrow> supersedes (rec_stamp record) (seen_stamp seen))"

definition put :: "occupancy \<Rightarrow> shell_record \<Rightarrow> occupancy \<times> occupancy_change list" where
  "put self record =
     (let seen = seen_of record;
          after = seen_projects seen;
          before = projects_of self (rec_shell record);
          (counts, changes) = recount (occ_counts self) before after
      in (\<lparr>occ_shells = bmap_insert (rec_shell record) seen (occ_shells self), occ_counts = counts\<rparr>, changes))"

definition report :: "occupancy \<Rightarrow> shell_record \<Rightarrow> occupancy \<times> occupancy_change list" where
  "report self record = (if is_newer self record then put self record else (self, []))"

definition restore :: "occupancy \<Rightarrow> shell_record \<Rightarrow> occupancy" where
  "restore self record = (if is_newer self record then fst (put self record) else self)"

definition remove :: "occupancy \<Rightarrow> shell_id \<Rightarrow> occupancy \<times> occupancy_change list" where
  "remove self shell =
     (let before = projects_of self shell;
          (counts, changes) = recount (occ_counts self) before []
      in (\<lparr>occ_shells = bmap_remove shell (occ_shells self), occ_counts = counts\<rparr>, changes))"

definition occupants :: "occupancy \<Rightarrow> project_root \<Rightarrow> nat" where
  "occupants self project = unwrap_or (map_of (occ_counts self) project) 0"

definition shells_in :: "occupancy \<Rightarrow> project_root \<Rightarrow> shell_id list" where
  "shells_in self project =
     sort (map fst (filter (\<lambda>(_, seen). project \<in> set (seen_projects seen)) (occ_shells self)))"

definition shells :: "occupancy \<Rightarrow> shell_id list" where
  "shells self = sort (map fst (occ_shells self))"

definition knows :: "occupancy \<Rightarrow> shell_id \<Rightarrow> bool" where
  "knows self shell \<longleftrightarrow> map_of (occ_shells self) shell \<noteq> None"


section \<open>The counts are the shells\<close>

text \<open>
  The number of shells in a project, by the shells themselves, and the invariant of the table: both
  maps are sorted, the projects of a shell are a set, and the count of a project is the number of
  shells in it, with no entry for a project without shells.
\<close>

definition members :: "occupancy \<Rightarrow> project_root \<Rightarrow> shell_id set" where
  "members self project = {shell. project \<in> set (projects_of self shell)}"

definition count_entry :: "nat \<Rightarrow> nat option" where
  "count_entry n = (if n = 0 then None else Some n)"

definition occupancy_ok :: "occupancy \<Rightarrow> bool" where
  "occupancy_ok self \<longleftrightarrow>
     btree_map (occ_shells self) \<and> btree_map (occ_counts self) \<and>
     (\<forall>(_, seen) \<in> set (occ_shells self). btree_set (seen_projects seen)) \<and>
     map_of (occ_counts self) = (\<lambda>p. count_entry (card (members self p)))"

lemma count_entry_0 [simp]: "count_entry 0 = None"
  by (simp add: count_entry_def)

lemma unwrap_count_entry [simp]: "unwrap_or (count_entry n) 0 = n"
  by (simp add: count_entry_def)

text \<open>What the two loops do to counts without zero entries.\<close>

lemma recount_left_counts:
  assumes "btree_map counts" and "map_of counts = (\<lambda>p. count_entry (f p))" and "distinct roots"
    and "\<forall>p \<in> set roots. 0 < f p"
  shows "btree_map (fst (recount_left counts roots)) \<and>
    map_of (fst (recount_left counts roots)) = (\<lambda>p. count_entry (if p \<in> set roots then f p - 1 else f p)) \<and>
    snd (recount_left counts roots) = map Left (filter (\<lambda>p. f p = 1) roots)"
  using assms
proof (induction roots arbitrary: counts f)
  case (Cons root roots)
  let ?f = "f(root := f root - 1)"
  have entry: "map_of counts root = Some (f root)"
    using Cons.prems by (simp add: count_entry_def)
  have rest: "\<forall>p \<in> set roots. 0 < ?f p"
    using Cons.prems by auto
  have same: "filter (\<lambda>p. ?f p = 1) roots = filter (\<lambda>p. f p = 1) roots"
    using Cons.prems by (intro filter_cong) auto
  show ?case
  proof (cases "f root = 1")
    case True
    have "map_of (bmap_remove root counts) = (\<lambda>p. count_entry (?f p))"
      using Cons.prems True by (auto simp: map_of_bmap_remove fun_eq_iff)
    from Cons.IH[OF btree_map_remove this _ rest, unfolded same] Cons.prems True entry show ?thesis
      by (auto simp: fun_eq_iff split: prod.split)
  next
    case False
    then have more: "1 < f root"
      using Cons.prems by (cases "f root") auto
    have "map_of (bmap_insert root (f root - 1) counts) = (\<lambda>p. count_entry (?f p))"
      using Cons.prems more by (auto simp: map_of_bmap_insert fun_eq_iff count_entry_def)
    from Cons.IH[OF btree_map_insert this _ rest, unfolded same] Cons.prems more entry show ?thesis
      by (auto simp: fun_eq_iff split: prod.split)
  qed
qed simp

lemma recount_entered_counts:
  assumes "btree_map counts" and "map_of counts = (\<lambda>p. count_entry (f p))" and "distinct roots"
  shows "btree_map (fst (recount_entered counts roots)) \<and>
    map_of (fst (recount_entered counts roots)) = (\<lambda>p. count_entry (if p \<in> set roots then f p + 1 else f p)) \<and>
    snd (recount_entered counts roots) = map Entered (filter (\<lambda>p. f p = 0) roots)"
  using assms
proof (induction roots arbitrary: counts f)
  case (Cons root roots)
  let ?f = "f(root := f root + 1)"
  have "map_of (bmap_insert root (f root + 1) counts) = (\<lambda>p. count_entry (?f p))"
    using Cons.prems by (auto simp: map_of_bmap_insert fun_eq_iff count_entry_def)
  moreover have same: "filter (\<lambda>p. ?f p = 0) roots = filter (\<lambda>p. f p = 0) roots"
    using Cons.prems by (intro filter_cong) auto
  moreover have "unwrap_or (map_of counts root) 0 = f root"
    using Cons.prems by simp
  ultimately show ?case
    using Cons.IH[OF btree_map_insert[of counts root "f root + 1"], where f = ?f, unfolded same] Cons.prems
    by (auto simp: fun_eq_iff Let_def split: prod.split)
qed simp

lemma recount_counts:
  assumes "btree_map counts" and "map_of counts = (\<lambda>p. count_entry (f p))"
    and "btree_set before" and "btree_set after" and "\<forall>p \<in> set before. 0 < f p"
  shows "btree_map (fst (recount counts before after)) \<and>
    map_of (fst (recount counts before after)) =
      (\<lambda>p. count_entry (f p + of_bool (p \<in> set after) - of_bool (p \<in> set before))) \<and>
    snd (recount counts before after) =
      map Left (filter (\<lambda>p. p \<notin> set after \<and> f p = 1) before) @
      map Entered (filter (\<lambda>p. p \<notin> set before \<and> f p = 0) after)"
proof -
  let ?out = "filter (\<lambda>root. root \<notin> set after) before" and ?in = "filter (\<lambda>root. root \<notin> set before) after"
  let ?g = "\<lambda>p. if p \<in> set ?out then f p - 1 else f p"
  have dist: "distinct ?out" "distinct ?in"
    using assms(3,4) by (simp_all add: btree_set_def)
  have "\<forall>p \<in> set ?out. 0 < f p"
    using assms(5) by simp
  note left = recount_left_counts[OF assms(1,2) dist(1) this]
  have "map_of (fst (recount_left counts ?out)) = (\<lambda>p. count_entry (?g p))"
    and "btree_map (fst (recount_left counts ?out))"
    using left by auto
  note entered = recount_entered_counts[OF this(2,1) dist(2)]
  have same: "filter (\<lambda>p. ?g p = 0) ?in = filter (\<lambda>p. f p = 0) ?in"
    by (rule filter_cong) auto
  have "(if p \<in> set ?in then ?g p + 1 else ?g p) = f p + of_bool (p \<in> set after) - of_bool (p \<in> set before)" for p
    using assms(5) by auto
  then show ?thesis
    using left entered unfolding recount_def same
    by (simp add: filter_filter conj_commute case_prod_beta Let_def)
qed

section \<open>One step of the table\<close>

lemma projects_of_sorted: "occupancy_ok self \<Longrightarrow> btree_set (projects_of self shell)"
  by (auto simp: occupancy_ok_def projects_of_def split: option.splits dest!: map_of_SomeD)

lemma finite_members [simp]: "finite (members self p)"
proof (rule finite_subset)
  show "members self p \<subseteq> fst ` set (occ_shells self)"
    by (auto simp: members_def projects_of_def split: option.splits) (metis map_of_eq_None_iff option.simps(3))
qed simp

lemma seen_projects_sorted: "btree_set (seen_projects (seen_of record))"
  by (simp add: seen_of_def btree_set_extend)

lemma card_members_moved:
  assumes "members self' p = (if inside then insert shell (members self p) else members self p - {shell})"
  shows "card (members self' p) = card (members self p) + of_bool inside - of_bool (shell \<in> members self p)"
  using assms by (auto simp: card_insert_if card_Diff_singleton Suc_diff_Suc card_gt_0_iff)

text \<open>
  Replacing the projects of one shell, which both \<^const>\<open>put\<close> and \<^const>\<open>remove\<close> do.
\<close>

lemma recount_step:
  assumes ok: "occupancy_ok self" and after: "btree_set after"
    and shells: "btree_map (occ_shells self')"
      "\<forall>(_, seen) \<in> set (occ_shells self'). btree_set (seen_projects seen)"
    and moved: "\<And>s. projects_of self' s = (if s = shell then after else projects_of self s)"
    and counts: "recount (occ_counts self) (projects_of self shell) after = (occ_counts self', changes)"
  shows "occupancy_ok self' \<and>
    changes =
      map Left (filter (\<lambda>p. p \<notin> set after \<and> card (members self p) = 1) (projects_of self shell)) @
      map Entered (filter (\<lambda>p. p \<notin> set (projects_of self shell) \<and> card (members self p) = 0) after)"
proof -
  have inside: "shell \<in> members self p \<longleftrightarrow> p \<in> set (projects_of self shell)" for p
    by (simp add: members_def)
  have pos: "\<forall>p \<in> set (projects_of self shell). 0 < card (members self p)"
    using inside by (auto simp: card_gt_0_iff)
  have ok_counts: "btree_map (occ_counts self)"
      "map_of (occ_counts self) = (\<lambda>p. count_entry (card (members self p)))"
    using ok by (simp_all add: occupancy_ok_def)
  note result = recount_counts[OF ok_counts projects_of_sorted[OF ok] after pos, unfolded counts]
  have "members self' p = (if p \<in> set after then insert shell (members self p) else members self p - {shell})" for p
    using moved by (auto simp: members_def)
  note card_members_moved[OF this, unfolded inside]
  then show ?thesis
    using result shells by (simp add: occupancy_ok_def)
qed

lemma put_step:
  assumes ok: "occupancy_ok self"
  shows "occupancy_ok (fst (put self record)) \<and>
    projects_of (fst (put self record)) =
      (projects_of self)(rec_shell record := seen_projects (seen_of record)) \<and>
    snd (put self record) =
      map Left (filter (\<lambda>p. p \<notin> set (seen_projects (seen_of record)) \<and> card (members self p) = 1)
                 (projects_of self (rec_shell record))) @
      map Entered (filter (\<lambda>p. p \<notin> set (projects_of self (rec_shell record)) \<and> card (members self p) = 0)
                    (seen_projects (seen_of record)))"
proof -
  let ?shell = "rec_shell record" and ?seen = "seen_of record"
  let ?self' = "fst (put self record)"
  have shells: "occ_shells ?self' = bmap_insert ?shell ?seen (occ_shells self)"
    and counts: "recount (occ_counts self) (projects_of self ?shell) (seen_projects ?seen) =
      (occ_counts ?self', snd (put self record))"
    by (simp_all add: put_def Let_def case_prod_beta)
  have sorted: "btree_map (occ_shells self)"
    using ok by (simp add: occupancy_ok_def)
  have moved: "projects_of ?self' s = (if s = ?shell then seen_projects ?seen else projects_of self s)" for s
    by (simp add: projects_of_def shells map_of_bmap_insert[OF sorted])
  have "\<forall>(_, seen) \<in> set (occ_shells ?self'). btree_set (seen_projects seen)"
    using set_bmap_insert[of ?shell ?seen "occ_shells self"] seen_projects_sorted ok
    by (auto simp: shells occupancy_ok_def)
  then show ?thesis
    using recount_step[OF ok seen_projects_sorted _ _ moved counts] moved btree_map_insert[OF sorted]
    by (simp add: shells fun_eq_iff)
qed

lemma remove_step:
  assumes ok: "occupancy_ok self"
  shows "occupancy_ok (fst (remove self shell)) \<and>
    projects_of (fst (remove self shell)) = (projects_of self)(shell := []) \<and>
    snd (remove self shell) = map Left (filter (\<lambda>p. card (members self p) = 1) (projects_of self shell))"
proof -
  let ?self' = "fst (remove self shell)"
  have shells: "occ_shells ?self' = bmap_remove shell (occ_shells self)"
    and counts: "recount (occ_counts self) (projects_of self shell) [] = (occ_counts ?self', snd (remove self shell))"
    by (simp_all add: remove_def Let_def case_prod_beta)
  have sorted: "btree_map (occ_shells self)"
    using ok by (simp add: occupancy_ok_def)
  have moved: "projects_of ?self' s = (if s = shell then [] else projects_of self s)" for s
    by (simp add: projects_of_def shells map_of_bmap_remove)
  have "\<forall>(_, seen) \<in> set (occ_shells ?self'). btree_set (seen_projects seen)"
    using ok by (auto simp: shells occupancy_ok_def bmap_remove_def)
  then show ?thesis
    using recount_step[OF ok btree_set_Nil _ _ moved counts] moved btree_map_remove[OF sorted]
    by (simp add: shells fun_eq_iff)
qed

lemma occupants_members: "occupancy_ok self \<Longrightarrow> occupants self p = card (members self p)"
  by (simp add: occupancy_ok_def occupants_def)

lemma occupied_iff: "occupancy_ok self \<Longrightarrow> 0 < occupants self p \<longleftrightarrow> members self p \<noteq> {}"
  by (simp add: occupants_members card_gt_0_iff)

lemma shells_in_members:
  assumes "occupancy_ok self"
  shows "set (shells_in self p) = members self p \<and> distinct (shells_in self p) \<and> sorted (shells_in self p)"
proof -
  have dist: "distinct (map fst (occ_shells self))"
    using assms by (simp add: occupancy_ok_def btree_map_def)
  have "members self p = {s. \<exists>seen. (s, seen) \<in> set (occ_shells self) \<and> p \<in> set (seen_projects seen)}"
    by (auto simp: members_def projects_of_def map_of_eq_Some_iff[OF dist, symmetric] split: option.splits)
      metis
  also have "\<dots> = set (shells_in self p)"
    by (auto simp: shells_in_def intro: rev_image_eqI)
  finally have "set (shells_in self p) = members self p" ..
  then show ?thesis
    using dist by (simp add: shells_in_def distinct_map_filter)
qed

lemma Occupancy_new_ok [simp]: "occupancy_ok Occupancy_new"
  by (simp add: occupancy_ok_def Occupancy_new_def members_def projects_of_def fun_eq_iff)

section \<open>Listeners of the changes\<close>

text \<open>
  What a listener believes that starts from a set of occupied projects and follows the changes, and
  the interface it relies on: a table whose every step announces exactly the projects that became
  occupied or empty.
\<close>

fun heard :: "project_root set \<Rightarrow> occupancy_change list \<Rightarrow> project_root set" where
  "heard H [] = H"
| "heard H (Entered p # cs) = heard (insert p H) cs"
| "heard H (Left p # cs) = heard (H - {p}) cs"

fun run_events :: "('st \<Rightarrow> 'ev \<Rightarrow> 'st \<times> occupancy_change list) \<Rightarrow> 'st \<Rightarrow> 'ev list \<Rightarrow> 'st \<times> occupancy_change list" where
  "run_events step st [] = (st, [])"
| "run_events step st (ev # evs) =
     (let (st', cs) = step st ev; (st'', cs') = run_events step st' evs in (st'', cs @ cs'))"

lemma heard_append: "heard H (cs @ cs') = heard (heard H cs) cs'"
  by (induction H cs rule: heard.induct) auto

lemma heard_exact:
  assumes "\<And>p. \<not> (Entered p \<in> set cs \<and> Left p \<in> set cs)"
  shows "heard H cs = H - {p. Left p \<in> set cs} \<union> {p. Entered p \<in> set cs}"
  using assms
proof (induction H cs rule: heard.induct)
  case (2 H p cs)
  then have "heard (insert p H) cs = insert p H - {p. Left p \<in> set cs} \<union> {p. Entered p \<in> set cs}"
    by (metis list.set_intros(2))
  moreover have "Left p \<notin> set cs"
    using 2(2)[of p] by auto
  ultimately show ?case by auto
next
  case (3 H p cs)
  then have "heard (H - {p}) cs = H - {p} - {p. Left p \<in> set cs} \<union> {p. Entered p \<in> set cs}"
    by (metis list.set_intros(2))
  then show ?case by auto
qed simp

locale announced_occupancy =
  fixes step :: "'st \<Rightarrow> 'ev \<Rightarrow> 'st \<times> occupancy_change list"
    and ok :: "'st \<Rightarrow> bool"
    and occupied :: "'st \<Rightarrow> project_root set"
  assumes step_ok: "ok st \<Longrightarrow> ok (fst (step st ev))"
    and step_entered: "ok st \<Longrightarrow>
      Entered p \<in> set (snd (step st ev)) \<longleftrightarrow> p \<in> occupied (fst (step st ev)) - occupied st"
    and step_left: "ok st \<Longrightarrow>
      Left p \<in> set (snd (step st ev)) \<longleftrightarrow> p \<in> occupied st - occupied (fst (step st ev))"
begin

lemma heard_step:
  assumes "ok st"
  shows "heard (occupied st) (snd (step st ev)) = occupied (fst (step st ev))"
  using heard_exact[of "snd (step st ev)" "occupied st"] by (auto simp: step_entered[OF assms] step_left[OF assms])

lemma run_ok_heard:
  "ok st \<Longrightarrow> ok (fst (run_events step st evs)) \<and>
    heard (occupied st) (snd (run_events step st evs)) = occupied (fst (run_events step st evs))"
proof (induction evs arbitrary: st)
  case (Cons ev evs)
  from Cons.IH[OF step_ok[OF Cons.prems, of ev]] heard_step[OF Cons.prems, of ev] show ?case
    by (simp add: case_prod_beta Let_def heard_append)
qed simp

end

datatype shell_event = Reported shell_record | Gone shell_id

fun on_shell_event :: "occupancy \<Rightarrow> shell_event \<Rightarrow> occupancy \<times> occupancy_change list" where
  "on_shell_event self (Reported rec) = report self rec"
| "on_shell_event self (Gone shell) = remove self shell"

definition occupied :: "occupancy \<Rightarrow> project_root set" where
  "occupied self = {p. 0 < occupants self p}"

lemma members_moved:
  "projects_of self' = (projects_of self)(shell := after) \<Longrightarrow>
   members self' p = (if p \<in> set after then insert shell (members self p) else members self p - {shell})"
  by (auto simp: members_def)

lemma in_members [simp]: "shell \<in> members self p \<longleftrightarrow> p \<in> set (projects_of self shell)"
  by (simp add: members_def)

lemma sole_member:
  "x \<in> A \<Longrightarrow> finite A \<Longrightarrow> card A = 1 \<longleftrightarrow> A - {x} = {}"
  by (auto simp: card_1_singleton_iff)

lemma moved_changes:
  assumes ok: "occupancy_ok self" "occupancy_ok self'"
    and moved: "projects_of self' = (projects_of self)(shell := after)"
    and changes: "changes =
      map Left (filter (\<lambda>p. p \<notin> set after \<and> card (members self p) = 1) (projects_of self shell)) @
      map Entered (filter (\<lambda>p. p \<notin> set (projects_of self shell) \<and> card (members self p) = 0) after)"
  shows "Entered p \<in> set changes \<longleftrightarrow> p \<in> occupied self' - occupied self"
    and "Left p \<in> set changes \<longleftrightarrow> p \<in> occupied self - occupied self'"
proof -
  note occ = occupied_def occupied_iff[OF ok(1)] occupied_iff[OF ok(2)] members_moved[OF moved]
  have empty: "p \<notin> set (projects_of self shell)" if "members self p = {}"
    using that in_members by blast
  show "Entered p \<in> set changes \<longleftrightarrow> p \<in> occupied self' - occupied self"
    using empty by (auto simp: changes occ)
  have left: "Left p \<in> set changes \<longleftrightarrow> p \<in> set (projects_of self shell) \<and> p \<notin> set after \<and> card (members self p) = 1"
    by (auto simp: changes)
  show "Left p \<in> set changes \<longleftrightarrow> p \<in> occupied self - occupied self'"
  proof (cases "shell \<in> members self p")
    case True
    then show ?thesis
      using sole_member[OF True finite_members] unfolding left by (auto simp: occ)
  next
    case False
    then have "members self p - {shell} = members self p"
      by blast
    then show ?thesis
      using False unfolding left by (auto simp: occ)
  qed
qed

lemma on_shell_event_step:
  assumes ok: "occupancy_ok st"
  shows "on_shell_event st ev = (st, []) \<or>
    occupancy_ok (fst (on_shell_event st ev)) \<and>
    (\<exists>shell after. projects_of (fst (on_shell_event st ev)) = (projects_of st)(shell := after) \<and>
      snd (on_shell_event st ev) =
        map Left (filter (\<lambda>p. p \<notin> set after \<and> card (members st p) = 1) (projects_of st shell)) @
        map Entered (filter (\<lambda>p. p \<notin> set (projects_of st shell) \<and> card (members st p) = 0) after))"
proof (cases ev)
  case (Reported rec)
  show ?thesis
  proof (cases "is_newer st rec")
    case True
    then have put: "on_shell_event st ev = put st rec"
      by (simp add: Reported report_def)
    show ?thesis
      using put_step[OF ok, of rec] unfolding put by blast
  qed (simp add: Reported report_def)
next
  case (Gone shell)
  have none: "(\<lambda>p. p \<notin> set [] \<and> card (members st p) = 1) = (\<lambda>p. card (members st p) = 1)"
    by simp
  show ?thesis
    using remove_step[OF ok, of shell] unfolding Gone on_shell_event.simps
    by (intro disjI2 conjI exI[of _ shell] exI[of _ "[]"]) (simp_all only: none filter.simps list.map append_Nil2)
qed

interpretation occupancy_table: announced_occupancy on_shell_event occupancy_ok occupied
proof
  fix st ev p
  assume ok: "occupancy_ok st"
  show step: "occupancy_ok (fst (on_shell_event st ev))"
    using on_shell_event_step[OF ok, of ev] ok by auto
  show "Entered p \<in> set (snd (on_shell_event st ev)) \<longleftrightarrow> p \<in> occupied (fst (on_shell_event st ev)) - occupied st"
    and "Left p \<in> set (snd (on_shell_event st ev)) \<longleftrightarrow> p \<in> occupied st - occupied (fst (on_shell_event st ev))"
    using on_shell_event_step[OF ok, of ev] moved_changes[OF ok step] by auto
qed

section \<open>Reports in any order\<close>

definition after_report :: "shell_record \<Rightarrow> occupancy \<Rightarrow> occupancy" where
  "after_report rec self = fst (report self rec)"

lemma restore_after_report: "restore self rec = after_report rec self"
  by (simp add: restore_def after_report_def report_def)

lemma after_report_ok: "occupancy_ok self \<Longrightarrow> occupancy_ok (after_report rec self)"
  using occupancy_table.step_ok[of self "Reported rec"] by (simp add: after_report_def)

lemma occupancy_eqI:
  assumes "occupancy_ok a" "occupancy_ok b" and shells: "map_of (occ_shells a) = map_of (occ_shells b)"
  shows "a = b"
proof -
  have "occ_shells a = occ_shells b"
    using assms by (auto simp: occupancy_ok_def intro: btree_map_eqI)
  moreover have "members a = members b"
    by (simp add: members_def projects_of_def shells fun_eq_iff)
  then have "occ_counts a = occ_counts b"
    using assms(1,2) by (auto simp: occupancy_ok_def intro: btree_map_eqI)
  ultimately show ?thesis
    by simp
qed

text \<open>The latest report of a shell, as the table holds it after one more report.\<close>

definition newest :: "seen option \<Rightarrow> shell_record \<Rightarrow> seen option" where
  "newest held rec =
     (case held of
        None \<Rightarrow> Some (seen_of rec)
      | Some seen \<Rightarrow> if seen_stamp seen < rec_stamp rec then Some (seen_of rec) else Some seen)"

lemma shells_after_report:
  assumes "occupancy_ok self"
  shows "map_of (occ_shells (after_report rec self)) =
    (map_of (occ_shells self))(rec_shell rec := newest (map_of (occ_shells self) (rec_shell rec)) rec)"
proof -
  have "btree_map (occ_shells self)"
    using assms by (simp add: occupancy_ok_def)
  then show ?thesis
    by (auto simp: after_report_def report_def put_def is_newer_def supersedes_def newest_def Let_def
        case_prod_beta map_of_bmap_insert fun_eq_iff split: option.splits)
qed

lemma seen_stamp_of [simp]: "seen_stamp (seen_of rec) = rec_stamp rec"
  by (simp add: seen_of_def)

lemma newest_commute:
  "rec_stamp a \<noteq> rec_stamp b \<or> a = b \<Longrightarrow> newest (newest held a) b = newest (newest held b) a"
  by (auto simp: newest_def split: option.splits)

lemma after_report_commute:
  assumes ok: "occupancy_ok self"
    and stamps: "rec_shell a = rec_shell b \<and> rec_stamp a = rec_stamp b \<longrightarrow> a = b"
  shows "after_report a (after_report b self) = after_report b (after_report a self)"
proof (rule occupancy_eqI)
  show "map_of (occ_shells (after_report a (after_report b self))) =
      map_of (occ_shells (after_report b (after_report a self)))"
    using stamps newest_commute[of a b]
    by (auto simp: shells_after_report[OF after_report_ok[OF ok]] shells_after_report[OF ok] fun_eq_iff)
qed (simp_all add: after_report_ok ok)

lemma fold_after_report_ok: "occupancy_ok self \<Longrightarrow> occupancy_ok (fold after_report recs self)"
  by (induction recs arbitrary: self) (simp_all add: after_report_ok)

text \<open>The same fold with every step guarded by the invariant, so that steps commute everywhere.\<close>

lemma fold_after_report_guarded:
  "occupancy_ok self \<Longrightarrow>
   fold after_report recs self = fold (\<lambda>rec st. if occupancy_ok st then after_report rec st else st) recs self"
  by (induction recs arbitrary: self) (simp_all add: after_report_ok)

text \<open>The table after a history of reports and departures, and all it announced.\<close>

definition table_after :: "shell_event list \<Rightarrow> occupancy" where
  "table_after evs = fst (run_events on_shell_event Occupancy_new evs)"

definition announced :: "shell_event list \<Rightarrow> occupancy_change list" where
  "announced evs = snd (run_events on_shell_event Occupancy_new evs)"

lemma table_after_ok: "occupancy_ok (table_after evs)"
  using occupancy_table.run_ok_heard[of Occupancy_new evs] by (simp add: table_after_def)

lemma distinct_remdups_adj: "sorted (xs :: 'a::linorder list) \<Longrightarrow> distinct (remdups_adj xs)"
  by (induction xs rule: remdups_adj.induct) (auto simp: order_le_less)

section \<open>What a history says of a shell\<close>

text \<open>
  The report a shell stands by, read off the history alone: it came after the shell was last gone, no
  report since has a later stamp, and none between the shell's last departure and it has one as late.
\<close>

definition stands_by :: "shell_event list \<Rightarrow> shell_id \<Rightarrow> shell_record \<Rightarrow> bool" where
  "stands_by evs shell rec \<longleftrightarrow>
     (\<exists>before after. evs = before @ Reported rec # after \<and> rec_shell rec = shell \<and> Gone shell \<notin> set after \<and>
        (\<forall>later. Reported later \<in> set after \<and> rec_shell later = shell \<longrightarrow> rec_stamp later \<le> rec_stamp rec) \<and>
        (\<forall>before' earlier between. before = before' @ Reported earlier # between \<and> rec_shell earlier = shell \<and>
            Gone shell \<notin> set between \<longrightarrow> rec_stamp earlier < rec_stamp rec))"

lemma stands_byE:
  assumes "stands_by evs shell rec"
  obtains b a where "evs = b @ Reported rec # a" "rec_shell rec = shell" "Gone shell \<notin> set a"
    "\<And>r. Reported r \<in> set a \<Longrightarrow> rec_shell r = shell \<Longrightarrow> rec_stamp r \<le> rec_stamp rec"
    "\<And>b' r u. b = b' @ Reported r # u \<Longrightarrow> rec_shell r = shell \<Longrightarrow> Gone shell \<notin> set u \<Longrightarrow> rec_stamp r < rec_stamp rec"
  using assms unfolding stands_by_def by blast

lemma stands_byI:
  assumes "evs = b @ Reported rec # a" "rec_shell rec = shell" "Gone shell \<notin> set a"
    "\<And>r. Reported r \<in> set a \<Longrightarrow> rec_shell r = shell \<Longrightarrow> rec_stamp r \<le> rec_stamp rec"
    "\<And>b' r u. b = b' @ Reported r # u \<Longrightarrow> rec_shell r = shell \<Longrightarrow> Gone shell \<notin> set u \<Longrightarrow> rec_stamp r < rec_stamp rec"
  shows "stands_by evs shell rec"
  using assms unfolding stands_by_def by blast

lemma stands_by_max:
  assumes "stands_by evs shell rec" and "evs = before @ Reported r # between" and "rec_shell r = shell" and "Gone shell \<notin> set between"
  shows "rec_stamp r \<le> rec_stamp rec"
  using assms(1)
proof (cases rule: stands_byE)
  case (1 b a)
  with assms(2) consider "b = before" "rec = r" | us where "b = before @ Reported r # us" "between = us @ Reported rec # a"
    | us where "a = us @ Reported r # between"
    by (auto simp: append_eq_append_conv2 Cons_eq_append_conv append_eq_Cons_conv)
  then show ?thesis
  proof cases
    case (2 us)
    then show ?thesis using 1(5)[OF 2(1) assms(3)] assms(4) by simp
  qed (use 1(4) assms(3) in auto)
qed

lemma stands_by_kept:
  assumes "stands_by evs shell rec" and "e \<noteq> Gone shell"
    and "\<And>r. e = Reported r \<Longrightarrow> rec_shell r = shell \<Longrightarrow> rec_stamp r \<le> rec_stamp rec"
  shows "stands_by (evs @ [e]) shell rec"
  using assms(1)
proof (cases rule: stands_byE)
  case (1 b a)
  then show ?thesis using assms(2,3) by (intro stands_byI[of _ b rec "a @ [e]"]) auto
qed

lemma stands_by_new:
  assumes "rec_shell r = shell"
    and "\<And>b u q. evs = b @ Reported q # u \<Longrightarrow> rec_shell q = shell \<Longrightarrow> Gone shell \<notin> set u \<Longrightarrow> rec_stamp q < rec_stamp r"
  shows "stands_by (evs @ [Reported r]) shell r"
  using assms by (intro stands_byI[of _ evs r "[]"]) auto

lemma stands_by_unique:
  assumes "stands_by evs shell a" and "stands_by evs shell b"
  shows "a = b"
proof -
  from assms(1) obtain b1 a1 where a: "evs = b1 @ Reported a # a1" "rec_shell a = shell" "Gone shell \<notin> set a1"
      "\<And>b' r u. b1 = b' @ Reported r # u \<Longrightarrow> rec_shell r = shell \<Longrightarrow> Gone shell \<notin> set u \<Longrightarrow> rec_stamp r < rec_stamp a"
    by (rule stands_byE) blast
  from assms(2) obtain b2 a2 where b: "evs = b2 @ Reported b # a2" "rec_shell b = shell" "Gone shell \<notin> set a2"
      "\<And>b' r u. b2 = b' @ Reported r # u \<Longrightarrow> rec_shell r = shell \<Longrightarrow> Gone shell \<notin> set u \<Longrightarrow> rec_stamp r < rec_stamp b"
    by (rule stands_byE) blast
  have same: "rec_stamp a = rec_stamp b"
    using stands_by_max[OF assms(1) b(1-3)] stands_by_max[OF assms(2) a(1-3)] by (rule antisym[rotated])
  from a(1) b(1) consider "a = b" | us where "b1 = b2 @ Reported b # us" "a2 = us @ Reported a # a1"
    | us where "b2 = b1 @ Reported a # us" "a1 = us @ Reported b # a2"
    by (auto simp: append_eq_append_conv2 Cons_eq_append_conv append_eq_Cons_conv)
  then show ?thesis
  proof cases
    case (2 us)
    then show ?thesis using a(4)[OF 2(1) b(2)] b(3) same by simp
  next
    case (3 us)
    then show ?thesis using b(4)[OF 3(1) a(2)] a(3) same by simp
  qed simp
qed

lemma table_after_snoc: "table_after (evs @ [e]) = fst (on_shell_event (table_after evs) e)"
proof -
  have "fst (run_events on_shell_event st (evs @ [e])) = fst (on_shell_event (fst (run_events on_shell_event st evs)) e)" for st
    by (induction evs arbitrary: st) (simp_all add: case_prod_beta Let_def)
  then show ?thesis by (simp add: table_after_def)
qed

text \<open>No report of the shell since it was last gone.\<close>

definition unheard :: "shell_event list \<Rightarrow> shell_id \<Rightarrow> bool" where
  "unheard evs shell \<longleftrightarrow>
     (\<forall>before r after. evs = before @ Reported r # after \<longrightarrow> rec_shell r = shell \<longrightarrow> Gone shell \<in> set after)"

lemma unheard_gone: "unheard (evs @ [Gone shell]) shell"
  by (auto simp: unheard_def snoc_split)

lemma unheard_other:
  assumes "unheard evs shell" and "\<And>r. e = Reported r \<Longrightarrow> rec_shell r \<noteq> shell"
  shows "unheard (evs @ [e]) shell"
  unfolding unheard_def
proof (intro allI impI)
  fix before r after
  assume "evs @ [e] = before @ Reported r # after" and r: "rec_shell r = shell"
  with assms(2) obtain after' where "after = after' @ [e]" "evs = before @ Reported r # after'"
    by (auto simp: snoc_split)
  with assms(1) r show "Gone shell \<in> set after" by (simp add: unheard_def)
qed

lemma unheard_stands: "unheard evs shell \<Longrightarrow> \<not> stands_by evs shell rec"
  unfolding unheard_def by (auto elim!: stands_byE)

definition known_as :: "shell_event list \<Rightarrow> shell_id \<Rightarrow> seen option \<Rightarrow> bool" where
  "known_as evs shell held \<longleftrightarrow>
     (case held of None \<Rightarrow> unheard evs shell | Some seen \<Rightarrow> \<exists>rec. stands_by evs shell rec \<and> seen = seen_of rec)"

lemma known_as_other:
  assumes "known_as evs shell held" and "e \<noteq> Gone shell" and "\<And>r. e = Reported r \<Longrightarrow> rec_shell r \<noteq> shell"
  shows "known_as (evs @ [e]) shell held"
  using assms(1) stands_by_kept[OF _ assms(2)] unheard_other[OF _ assms(3)] assms(3)
  unfolding known_as_def by (cases held) auto

lemma known_as_report:
  assumes "known_as evs shell held" and "rec_shell r = shell"
  shows "known_as (evs @ [Reported r]) shell (newest held r)"
proof (cases held)
  case None
  then have "stands_by (evs @ [Reported r]) shell r"
    using assms by (intro stands_by_new) (auto simp: known_as_def unheard_def)
  with None show ?thesis by (auto simp: known_as_def newest_def)
next
  case (Some seen)
  then obtain rec where rec: "stands_by evs shell rec" "seen = seen_of rec" using assms(1) by (auto simp: known_as_def)
  show ?thesis
  proof (cases "rec_stamp rec < rec_stamp r")
    case True
    then have "stands_by (evs @ [Reported r]) shell r"
      by (intro stands_by_new assms(2)) (rule le_less_trans[OF stands_by_max[OF rec(1)]]; assumption)
    with True Some rec show ?thesis by (auto simp: known_as_def newest_def)
  next
    case False
    then have "stands_by (evs @ [Reported r]) shell rec" by (intro stands_by_kept[OF rec(1)]) auto
    with False Some rec show ?thesis by (auto simp: known_as_def newest_def)
  qed
qed

lemma table_knows: "known_as evs shell (map_of (occ_shells (table_after evs)) shell)"
proof (induction evs rule: rev_induct)
  case Nil
  show ?case by (simp add: table_after_def Occupancy_new_def known_as_def unheard_def)
next
  case (snoc e evs)
  let ?t = "table_after evs"
  show ?case
  proof (cases e)
    case (Gone gone)
    have "map_of (occ_shells (table_after (evs @ [e]))) shell = ((map_of (occ_shells ?t))(gone := None)) shell"
      by (simp add: table_after_snoc Gone remove_def Let_def case_prod_beta map_of_bmap_remove)
    then show ?thesis
      using known_as_other[OF snoc, of e] by (cases "gone = shell") (simp_all add: Gone known_as_def[of _ _ None] unheard_gone)
  next
    case (Reported r)
    have "map_of (occ_shells (table_after (evs @ [e]))) shell =
        ((map_of (occ_shells ?t))(rec_shell r := newest (map_of (occ_shells ?t) (rec_shell r)) r)) shell"
      using shells_after_report[OF table_after_ok, of r evs] by (simp add: table_after_snoc Reported after_report_def)
    then show ?thesis
      using known_as_other[OF snoc, of e] known_as_report[OF snoc, of r] by (cases "rec_shell r = shell") (simp_all add: Reported)
  qed
qed

lemma projects_of_history:
  "p \<in> set (projects_of (table_after evs) shell) \<longleftrightarrow>
     (\<exists>rec. stands_by evs shell rec \<and> (rec_project rec = Some p \<or> p \<in> set (rec_held rec)))"
proof (cases "map_of (occ_shells (table_after evs)) shell")
  case None
  have "\<not> stands_by evs shell rec" for rec
    using table_knows[of evs shell] unheard_stands by (simp add: None known_as_def)
  with None show ?thesis by (simp add: projects_of_def)
next
  case (Some seen)
  with table_knows[of evs shell] obtain rec where rec: "stands_by evs shell rec" "seen = seen_of rec"
    by (auto simp: known_as_def)
  then have only: "stands_by evs shell r \<longleftrightarrow> r = rec" for r using stands_by_unique[of evs shell] by blast
  have "p \<in> set (projects_of (table_after evs) shell) \<longleftrightarrow> rec_project rec = Some p \<or> p \<in> set (rec_held rec)"
    using Some by (cases "rec_project rec") (auto simp: projects_of_def rec(2) seen_of_def set_insort_insert)
  then show ?thesis by (simp add: only)
qed

section \<open>Properties\<close>

text \<open>C14. The table's counts are exact, measured on the events alone. After any sequence of shell reports and
  departures, in any order and with any number of stale or repeated reports, take the shells that
  stand by a report which puts them in the project, as its own or as a held one: a report made since
  the shell was last gone, of the highest stamp since then, and the first to have it. The occupant
  count of the project is the number of these shells, and the listing of the project is exactly these
  shells, sorted and without repeats.\<close>

theorem occupants_exact:
  "let inside = {shell. \<exists>rec. stands_by evs shell rec \<and> (rec_project rec = Some p \<or> p \<in> set (rec_held rec))}
   in finite inside \<and> occupants (table_after evs) p = card inside \<and>
      shells_in (table_after evs) p = sorted_list_of_set inside"
proof -
  have m: "{shell. \<exists>rec. stands_by evs shell rec \<and> (rec_project rec = Some p \<or> p \<in> set (rec_held rec))} =
      members (table_after evs) p"
    by (auto simp: members_def projects_of_history)
  have "shells_in (table_after evs) p = sorted_list_of_set (set (shells_in (table_after evs) p))"
    by (rule sorted_list_of_set.idem_if_sorted_distinct[symmetric]) (simp_all add: shells_in_members[OF table_after_ok])
  then show ?thesis
    unfolding m Let_def
    using occupants_members[OF table_after_ok, of evs p] shells_in_members[OF table_after_ok, of evs p] by simp
qed

text \<open>C15. A listener is never misled: one that starts with no occupied project and follows the
  announced changes believes, after any sequence of reports and departures, exactly
  the set of projects that have at least one shell. So no arrival or departure is announced twice or missed.\<close>

theorem listener_knows_occupied:
  "heard {} (announced evs) = {p. 0 < occupants (table_after evs) p}"
proof -
  have "occupied Occupancy_new = {}"
    by (simp add: occupied_def occupants_def Occupancy_new_def)
  then show ?thesis
    using occupancy_table.run_ok_heard[of Occupancy_new evs]
    by (simp add: announced_def table_after_def occupied_def)
qed

text \<open>C16. Reports may arrive in any order: two tables that took the same reports in different
  orders are equal, provided a stamp names one report of its shell.\<close>

theorem reports_in_any_order:
  assumes "occupancy_ok self" and "mset recs = mset recs'"
    and "\<forall>a \<in> set recs. \<forall>b \<in> set recs. rec_shell a = rec_shell b \<and> rec_stamp a = rec_stamp b \<longrightarrow> a = b"
  shows "fold (\<lambda>rec st. fst (report st rec)) recs self = fold (\<lambda>rec st. fst (report st rec)) recs' self"
proof -
  let ?guarded = "\<lambda>rec st. if occupancy_ok st then after_report rec st else st"
  have "fold ?guarded recs = fold ?guarded recs'"
  proof (rule fold_multiset_equiv[OF _ assms(2)])
    fix a b
    assume "a \<in> set recs" "b \<in> set recs"
    then have "rec_shell a = rec_shell b \<and> rec_stamp a = rec_stamp b \<longrightarrow> a = b"
      using assms(3) by blast
    from after_report_commute[OF _ this] show "?guarded a \<circ> ?guarded b = ?guarded b \<circ> ?guarded a"
      by (auto simp: fun_eq_iff after_report_ok)
  qed
  moreover have "(\<lambda>rec st. fst (report st rec)) = after_report"
    by (simp add: fun_eq_iff after_report_def)
  ultimately show ?thesis
    using fold_after_report_guarded[OF assms(1)] by simp
qed

definition sample_record :: "nat \<Rightarrow> nat \<Rightarrow> project_root option \<Rightarrow> shell_record" where
  "sample_record pid seq project =
     \<lparr>rec_shell = ShellId pid 0, rec_stamp = ReportStamp (LoadId 0 1) seq, rec_folder = [RootDir, Normal (utf ''a'')],
      rec_arrived = 0, rec_project = project, rec_held = []\<rparr>"

theorem reports_in_any_order_witness:
  "fold (\<lambda>rec st. fst (report st rec))
     [sample_record 1 1 (Some [RootDir]), sample_record 1 2 None] Occupancy_new =
   fold (\<lambda>rec st. fst (report st rec))
     [sample_record 1 2 None, sample_record 1 1 (Some [RootDir])] Occupancy_new"
proof (rule reports_in_any_order)
  show "mset [sample_record 1 1 (Some [RootDir]), sample_record 1 2 None] =
      mset [sample_record 1 2 None, sample_record 1 1 (Some [RootDir])]"
    by (simp add: add_mset_commute)
qed (simp_all add: sample_record_def)

text \<open>C17. What a shell goes on holding: the record that follows an earlier one holds, in order and
  without repeats, only registered roots that strictly enclose the shell's
  project; it holds none when the shell stands in no project, and it never invents one, every
  held root was held before or was the project the shell was in when the inner one was registered.\<close>

theorem following_holds_enclosing:
  assumes "following self (Some previous) around = rec"
  shows "sorted (rec_held rec) \<and> distinct (rec_held rec) \<and>
    (\<forall>root \<in> set (rec_held rec). \<exists>project. rec_project rec = Some project \<and> strict_prefix root project) \<and>
    set (rec_held rec) \<subseteq> set (rec_held previous) \<union>
      (if registered_since self previous around then set_option (rec_project previous) else {}) \<and>
    rec_project rec = rec_project self"
proof -
  define was where "was = (if registered_since self previous around
    then (case rec_project previous of None \<Rightarrow> [] | Some p \<Rightarrow> [p]) else [])"
  let ?encloses = "\<lambda>root. case rec_project self of
    None \<Rightarrow> False | Some project \<Rightarrow> project \<noteq> root \<and> contains root project"
  define kept where "kept = filter ?encloses (rec_held previous @ was)"
  have rec: "rec = self\<lparr>rec_held := remdups_adj (sort kept)\<rparr>"
    using assms unfolding following_def option.case Let_def was_def[symmetric] kept_def[symmetric] by (rule sym)
  have set_was: "set was = (if registered_since self previous around then set_option (rec_project previous) else {})"
    by (cases "registered_since self previous around"; cases "rec_project previous") (simp_all add: was_def)
  have held: "set (rec_held rec) = set kept"
    by (simp add: rec)
  have "set kept \<subseteq> set (rec_held previous) \<union> set was"
    by (auto simp: kept_def)
  moreover have "\<exists>project. rec_project self = Some project \<and> strict_prefix root project" if "root \<in> set kept" for root
    using that by (cases "rec_project self") (auto simp: kept_def strict_prefix_def contains_def)
  moreover have "sorted (rec_held rec)" "distinct (rec_held rec)"
    by (simp_all add: rec distinct_remdups_adj)
  moreover have "rec_project rec = rec_project self"
    by (simp add: rec)
  ultimately show ?thesis
    unfolding held set_was[symmetric] by metis
qed
theorem following_holds_enclosing_witness:
  "rec_held (registered_around (sample_record 1 1 (Some [RootDir])) [RootDir, Normal (utf ''a'')]) = [[RootDir]] \<and>
   strict_prefix [RootDir] [RootDir, Normal (utf ''a'')]"
proof -
  let ?previous = "sample_record 1 1 (Some [RootDir])"
  let ?self = "?previous\<lparr>rec_project := Some [RootDir, Normal (utf ''a'')]\<rparr>"
  have "rec_held (registered_around ?previous [RootDir, Normal (utf ''a'')]) = [[RootDir]]"
    by (simp add: registered_around_def following_def registered_since_def sample_record_def contains_def)
  then show ?thesis
    using following_holds_enclosing[of ?self ?previous True "following ?self (Some ?previous) True"]
    by (auto simp: registered_around_def)
qed

end
