(* ===== verification/Books.thy ===== *)
theory Books
  imports Application Settings "HOL-Library.AList"
begin

text \<open>
  The books of the supervisor (\<open>muster-service/src/supervisor\<close>): state that is not about one pane's
  lifecycle, each with its own operations. The launch book holds the launches in flight and what was
  asked of them meanwhile; the restart book the attempts, exits and streaks; the attach book the
  attached clients and the finished runs not yet acknowledged; the retry book the attempts to adopt a
  process again; the metrics book usage, ports and blocks.

  Instants are nanoseconds since some start and system times nanoseconds since the epoch, both
  unbounded; generations and retry ids are the 64-bit words of the source and wrap as they do there,
  counters of restarts and attempts are 32-bit words.
\<close>

section \<open>Generations\<close>

type_synonym spawn_generation = u64
type_synonym shutdown_generation = u64
type_synonym retry_id = u64
type_synonym instant = nat
type_synonym system_time = nat
type_synonym pid = nat
type_synonym start_token = nat

definition SpawnGeneration_initial :: spawn_generation where
  "SpawnGeneration_initial = 0"

definition SpawnGeneration_next :: "spawn_generation \<Rightarrow> spawn_generation" where
  "SpawnGeneration_next self = self + 1"

definition ShutdownGeneration_initial :: shutdown_generation where
  "ShutdownGeneration_initial = 0"

definition ShutdownGeneration_next :: "shutdown_generation \<Rightarrow> shutdown_generation" where
  "ShutdownGeneration_next self = self + 1"

definition RetryId_next :: "retry_id \<Rightarrow> retry_id" where
  "RetryId_next self = self + 1"

section \<open>Output and handles\<close>

datatype process_output =
    Chunk "nat list"
  | Placed output_cursor "nat list"
  | Unlogged "nat list"
  | Repaint "nat list" pty_size
  | Output_Exited exit_outcome
  | Unreadable ustring
  | Output_Warning ustring
  | Attached u32

text \<open>
  A handle to a running process: what the supervisor reads of it. The results of the signals it sends
  through one are not part of it; they are answers of the world.
\<close>

record process_handle =
  handle_id :: nat
  handle_process_id :: "pid option"
  handle_initial_screen :: "nat list option"
  handle_backlog :: "(output_cursor \<times> nat list) option"
  handle_screen_size :: "pty_size option"
  handle_attached_clients :: u32
  handle_started_at :: "system_time option"
  handle_run_start :: "output_cursor option"
  handle_output_end :: "output_cursor option"

section \<open>Launches in flight\<close>

datatype config_membership = Tracked | RetireOnExit

datatype pending_intent = Intent_Stop | Intent_Kill | Intent_Restart

record carried_pane =
  carried_intent :: exit_intent
  carried_membership :: config_membership
  carried_started_at :: instant
  carried_state :: "process_state option"
  carried_pid :: "pid option"

definition with_membership :: "carried_pane \<Rightarrow> config_membership option \<Rightarrow> carried_pane" where
  "with_membership self membership =
     (case membership of Some m \<Rightarrow> self\<lparr>carried_membership := m\<rparr> | None \<Rightarrow> self)"

datatype launch_purpose = Purpose_Spawn bool | Purpose_Adopt "carried_pane option"

record pending_launch =
  launch_generation :: spawn_generation
  launch_prior_state :: process_state
  launch_purpose :: launch_purpose
  launch_early :: "process_output list"
  launch_intent :: "pending_intent option"
  launch_suspend :: "bool option"
  launch_membership :: "config_membership option"

definition EARLY_OUTPUT_CAP :: nat where
  "EARLY_OUTPUT_CAP = 256"

definition PendingLaunch_new :: "spawn_generation \<Rightarrow> process_state \<Rightarrow> launch_purpose \<Rightarrow> pending_launch" where
  "PendingLaunch_new generation prior_state purpose =
     \<lparr>launch_generation = generation, launch_prior_state = prior_state, launch_purpose = purpose,
      launch_early = [], launch_intent = None, launch_suspend = None, launch_membership = None\<rparr>"

definition is_droppable :: "process_output \<Rightarrow> bool" where
  "is_droppable kept =
     (case kept of Chunk _ \<Rightarrow> True | Output_Warning _ \<Rightarrow> True | Attached _ \<Rightarrow> True | Unlogged _ \<Rightarrow> True | _ \<Rightarrow> False)"

definition keep :: "pending_launch \<Rightarrow> process_output \<Rightarrow> pending_launch" where
  "keep self output =
     (let early =
        (if EARLY_OUTPUT_CAP \<le> length (launch_early self) then
           (case position is_droppable (launch_early self) of
              Some oldest \<Rightarrow> take oldest (launch_early self) @ drop (Suc oldest) (launch_early self)
            | None \<Rightarrow> launch_early self)
         else launch_early self)
      in self\<lparr>launch_early := early @ [output]\<rparr>)"

definition mark_restarting :: "pending_launch \<Rightarrow> pending_launch" where
  "mark_restarting self =
     (case launch_purpose self of
        Purpose_Spawn _ \<Rightarrow> self\<lparr>launch_purpose := Purpose_Spawn True\<rparr>
      | Purpose_Adopt _ \<Rightarrow> self)"

type_synonym launch_environment = "(ustring, ustring) bmap"

record launch_book =
  lb_pending :: "pane_id \<rightharpoonup> pending_launch"
  lb_detaching :: bool
  lb_stopped_adoptions :: "pane_id \<rightharpoonup> spawn_generation"
  lb_environments :: "pane_id \<rightharpoonup> launch_environment"

definition LaunchBook_begin :: "launch_book \<Rightarrow> pane_id \<Rightarrow> pending_launch \<Rightarrow> launch_book" where
  "LaunchBook_begin self pane launch = self\<lparr>lb_pending := (lb_pending self)(pane \<mapsto> launch)\<rparr>"

definition LaunchBook_is_starting :: "launch_book \<Rightarrow> pane_id \<Rightarrow> bool" where
  "LaunchBook_is_starting self pane \<longleftrightarrow> lb_pending self pane \<noteq> None"

definition LaunchBook_is_spawning :: "launch_book \<Rightarrow> pane_id \<Rightarrow> bool" where
  "LaunchBook_is_spawning self pane =
     (case lb_pending self pane of
        Some launch \<Rightarrow> (case launch_purpose launch of Purpose_Spawn _ \<Rightarrow> True | Purpose_Adopt _ \<Rightarrow> False)
      | None \<Rightarrow> False)"

definition keep_early ::
    "launch_book \<Rightarrow> pane_id \<Rightarrow> spawn_generation \<Rightarrow> process_output \<Rightarrow> launch_book \<times> process_output option" where
  "keep_early self pane generation output =
     (case lb_pending self pane of
        Some launch \<Rightarrow>
          if launch_generation launch = generation
          then (self\<lparr>lb_pending := (lb_pending self)(pane \<mapsto> keep launch output)\<rparr>, None)
          else (self, Some output)
      | None \<Rightarrow> (self, Some output))"

text \<open>A change of the launch in flight, and whether there is one.\<close>

definition on_launch :: "(pending_launch \<Rightarrow> pending_launch) \<Rightarrow> launch_book \<Rightarrow> pane_id \<Rightarrow> launch_book \<times> bool" where
  "on_launch f self pane =
     (case lb_pending self pane of
        Some launch \<Rightarrow> (self\<lparr>lb_pending := (lb_pending self)(pane \<mapsto> f launch)\<rparr>, True)
      | None \<Rightarrow> (self, False))"

definition LaunchBook_mark_restarting :: "launch_book \<Rightarrow> pane_id \<Rightarrow> launch_book" where
  "LaunchBook_mark_restarting self pane = fst (on_launch mark_restarting self pane)"

definition record_intent :: "launch_book \<Rightarrow> pane_id \<Rightarrow> pending_intent \<Rightarrow> launch_book \<times> bool" where
  "record_intent self pane intent = on_launch (\<lambda>launch. launch\<lparr>launch_intent := Some intent\<rparr>) self pane"

definition record_suspend :: "launch_book \<Rightarrow> pane_id \<Rightarrow> bool \<Rightarrow> launch_book \<times> bool" where
  "record_suspend self pane pause = on_launch (\<lambda>launch. launch\<lparr>launch_suspend := Some pause\<rparr>) self pane"

definition record_membership :: "launch_book \<Rightarrow> pane_id \<Rightarrow> config_membership \<Rightarrow> launch_book" where
  "record_membership self pane membership =
     fst (on_launch (\<lambda>launch. launch\<lparr>launch_membership := Some membership\<rparr>) self pane)"

definition LaunchBook_take ::
    "launch_book \<Rightarrow> pane_id \<Rightarrow> spawn_generation \<Rightarrow> launch_book \<times> pending_launch option" where
  "LaunchBook_take self pane generation =
     (case lb_pending self pane of
        Some launch \<Rightarrow>
          if launch_generation launch = generation
          then (self\<lparr>lb_pending := (lb_pending self)(pane := None)\<rparr>, Some launch) else (self, None)
      | None \<Rightarrow> (self, None))"

definition LaunchBook_cancel :: "launch_book \<Rightarrow> pane_id \<Rightarrow> launch_book" where
  "LaunchBook_cancel self pane = self\<lparr>lb_pending := (lb_pending self)(pane := None)\<rparr>"

definition supersede_by_stop :: "launch_book \<Rightarrow> pane_id \<Rightarrow> launch_book" where
  "supersede_by_stop self pane =
     (case lb_pending self pane of
        Some launch \<Rightarrow>
          self\<lparr>lb_pending := (lb_pending self)(pane := None),
               lb_stopped_adoptions := (lb_stopped_adoptions self)(pane \<mapsto> launch_generation launch)\<rparr>
      | None \<Rightarrow> self)"

definition take_stopped_adoption :: "launch_book \<Rightarrow> pane_id \<Rightarrow> spawn_generation \<Rightarrow> launch_book \<times> bool" where
  "take_stopped_adoption self pane generation =
     (if lb_stopped_adoptions self pane = Some generation
      then (self\<lparr>lb_stopped_adoptions := (lb_stopped_adoptions self)(pane := None)\<rparr>, True)
      else (self, False))"

definition LaunchBook_forget :: "launch_book \<Rightarrow> pane_id \<Rightarrow> launch_book" where
  "LaunchBook_forget self pane =
     self\<lparr>lb_environments := (lb_environments self)(pane := None),
          lb_stopped_adoptions := (lb_stopped_adoptions self)(pane := None)\<rparr>"

section \<open>Restarts\<close>

datatype exit_reason = Reason_Exited | Reason_Crashed | Reason_Killed | Reason_Stopped | FailedToStart

definition ExitReason_of :: "exit_outcome \<Rightarrow> bool \<Rightarrow> exit_reason" where
  "ExitReason_of outcome requested =
     (if requested then Reason_Stopped
      else (case outcome of
              Succeeded \<Rightarrow> Reason_Exited
            | Failed (Signal _) \<Rightarrow> Reason_Killed
            | Failed _ \<Rightarrow> Reason_Crashed))"

record run_end =
  end_generation :: spawn_generation
  end_at :: system_time
  end_reason :: exit_reason

record last_exit =
  le_reason :: exit_reason
  le_outcome :: exit_outcome
  le_at :: "system_time option"

record restart_book =
  rb_attempts :: "pane_id \<rightharpoonup> u32"
  rb_restarts :: "pane_id \<rightharpoonup> u32"
  rb_last_exits :: "pane_id \<rightharpoonup> exit_outcome"
  rb_run_ends :: "pane_id \<rightharpoonup> run_end"
  rb_stored_ends :: "pane_id \<rightharpoonup> system_time"
  rb_crash_streaks :: "pane_id set"
  rb_failing_spawns :: "pane_id set"

definition restarts_of :: "restart_book \<Rightarrow> pane_id \<Rightarrow> u32" where
  "restarts_of self pane = unwrap_or (rb_restarts self pane) 0"

definition count_restart :: "restart_book \<Rightarrow> pane_id \<Rightarrow> restart_book" where
  "count_restart self pane = self\<lparr>rb_restarts := (rb_restarts self)(pane \<mapsto> restarts_of self pane + 1)\<rparr>"

definition history :: "restart_book \<Rightarrow> pane_id \<Rightarrow> bool \<Rightarrow> spawn_history" where
  "history self pane restarting =
     \<lparr>history_restarts = restarts_of self pane + (if restarting then 1 else 0),
      history_last_exit = rb_last_exits self pane\<rparr>"

definition take_history :: "restart_book \<Rightarrow> pane_id \<Rightarrow> spawn_history \<Rightarrow> restart_book" where
  "take_history self pane past =
     (let self = (if 0 < history_restarts past
                  then self\<lparr>rb_restarts := (rb_restarts self)(pane \<mapsto> history_restarts past)\<rparr> else self)
      in case history_last_exit past of
           Some last_exit \<Rightarrow> self\<lparr>rb_last_exits := (rb_last_exits self)(pane \<mapsto> last_exit)\<rparr>
         | None \<Rightarrow> self)"

definition record_exit :: "restart_book \<Rightarrow> pane_id \<Rightarrow> exit_outcome \<Rightarrow> restart_book" where
  "record_exit self pane outcome = self\<lparr>rb_last_exits := (rb_last_exits self)(pane \<mapsto> outcome)\<rparr>"

definition take_stored_end :: "restart_book \<Rightarrow> pane_id \<Rightarrow> exit_outcome \<Rightarrow> system_time \<Rightarrow> restart_book" where
  "take_stored_end self pane outcome at =
     self\<lparr>rb_last_exits := (rb_last_exits self)(pane \<mapsto> outcome),
          rb_stored_ends := (rb_stored_ends self)(pane \<mapsto> at)\<rparr>"

definition RestartBook_end_run :: "restart_book \<Rightarrow> pane_id \<Rightarrow> run_end \<Rightarrow> restart_book" where
  "RestartBook_end_run self pane e = self\<lparr>rb_run_ends := (rb_run_ends self)(pane \<mapsto> e)\<rparr>"

definition last_exit_of :: "restart_book \<Rightarrow> pane_id \<Rightarrow> last_exit option" where
  "last_exit_of self pane =
     (let ended = rb_run_ends self pane in
      case (case ended of
              Some e \<Rightarrow> if end_reason e = FailedToStart then Some FAILED_UNKNOWN else rb_last_exits self pane
            | None \<Rightarrow> rb_last_exits self pane) of
        None \<Rightarrow> None
      | Some outcome \<Rightarrow>
          Some \<lparr>le_reason = (case ended of None \<Rightarrow> ExitReason_of outcome False | Some e \<Rightarrow> end_reason e),
                le_outcome = outcome,
                le_at = or_else (map_option end_at ended) (rb_stored_ends self pane)\<rparr>)"

definition next_attempt :: "restart_book \<Rightarrow> pane_id \<Rightarrow> bool \<Rightarrow> restart_book \<times> u32" where
  "next_attempt self pane lasted =
     (let attempts = (if lasted then 0 else unwrap_or (rb_attempts self pane) 0)
      in (self\<lparr>rb_attempts := (rb_attempts self)(pane \<mapsto> attempts + 1)\<rparr>, attempts))"

definition reset_backoff :: "restart_book \<Rightarrow> pane_id \<Rightarrow> restart_book" where
  "reset_backoff self pane = self\<lparr>rb_attempts := (rb_attempts self)(pane := None)\<rparr>"

definition end_crash_streak :: "restart_book \<Rightarrow> pane_id \<Rightarrow> restart_book" where
  "end_crash_streak self pane = self\<lparr>rb_crash_streaks := rb_crash_streaks self - {pane}\<rparr>"

definition end_streaks :: "restart_book \<Rightarrow> pane_id \<Rightarrow> restart_book" where
  "end_streaks self pane =
     self\<lparr>rb_failing_spawns := rb_failing_spawns self - {pane},
          rb_crash_streaks := rb_crash_streaks self - {pane}\<rparr>"

definition crashed :: "restart_book \<Rightarrow> pane_id \<Rightarrow> restart_book \<times> bool" where
  "crashed self pane =
     (self\<lparr>rb_crash_streaks := insert pane (rb_crash_streaks self)\<rparr>, pane \<notin> rb_crash_streaks self)"

definition spawned :: "restart_book \<Rightarrow> pane_id \<Rightarrow> restart_book" where
  "spawned self pane = self\<lparr>rb_failing_spawns := rb_failing_spawns self - {pane}\<rparr>"

definition spawn_failed :: "restart_book \<Rightarrow> pane_id \<Rightarrow> restart_book \<times> bool" where
  "spawn_failed self pane =
     (self\<lparr>rb_failing_spawns := insert pane (rb_failing_spawns self)\<rparr>, pane \<notin> rb_failing_spawns self)"

definition RestartBook_forget :: "restart_book \<Rightarrow> pane_id \<Rightarrow> restart_book" where
  "RestartBook_forget self pane =
     self\<lparr>rb_attempts := (rb_attempts self)(pane := None), rb_restarts := (rb_restarts self)(pane := None),
          rb_last_exits := (rb_last_exits self)(pane := None), rb_run_ends := (rb_run_ends self)(pane := None),
          rb_crash_streaks := rb_crash_streaks self - {pane},
          rb_failing_spawns := rb_failing_spawns self - {pane}\<rparr>"

section \<open>Attached clients and finished runs\<close>

text \<open>The finished runs are listed in some order, each pane once.\<close>

record attach_book =
  ab_attached :: "pane_id \<rightharpoonup> u32"
  ab_held_exits :: "(pane_id \<times> process_handle) list"

definition attached_of :: "attach_book \<Rightarrow> pane_id \<Rightarrow> u32" where
  "attached_of self pane = unwrap_or (ab_attached self pane) 0"

definition set_attached :: "attach_book \<Rightarrow> pane_id \<Rightarrow> u32 \<Rightarrow> attach_book" where
  "set_attached self pane writable_clients =
     self\<lparr>ab_attached := (ab_attached self)(pane := if writable_clients = 0 then None else Some writable_clients)\<rparr>"

definition hold_exit :: "attach_book \<Rightarrow> pane_id \<Rightarrow> process_handle \<Rightarrow> attach_book \<times> process_handle option" where
  "hold_exit self pane finished =
     (self\<lparr>ab_held_exits := AList.update pane finished (ab_held_exits self)\<rparr>, map_of (ab_held_exits self) pane)"

definition AttachBook_release :: "attach_book \<Rightarrow> pane_id \<Rightarrow> attach_book \<times> process_handle option" where
  "AttachBook_release self pane =
     (self\<lparr>ab_held_exits := AList.delete pane (ab_held_exits self)\<rparr>, map_of (ab_held_exits self) pane)"

definition holding :: "attach_book \<Rightarrow> pane_id list" where
  "holding self = map fst (ab_held_exits self)"

definition keep_held :: "attach_book \<Rightarrow> (pane_id \<Rightarrow> bool) \<Rightarrow> attach_book" where
  "keep_held self kept = self\<lparr>ab_held_exits := filter (\<lambda>(pane, _). kept pane) (ab_held_exits self)\<rparr>"

section \<open>Adopting again\<close>

record pane_retry =
  retry_told :: "pid option"
  retry_delay :: duration
  retry_current :: retry_id

definition PaneRetry_new :: "duration \<Rightarrow> pane_retry" where
  "PaneRetry_new delay = \<lparr>retry_told = None, retry_delay = delay, retry_current = 0\<rparr>"

definition tell :: "pane_retry \<Rightarrow> pid \<Rightarrow> pane_retry \<times> bool" where
  "tell self holder = (self\<lparr>retry_told := Some holder\<rparr>, retry_told self \<noteq> Some holder)"

text \<open>\<open>Duration::saturating_mul\<close>: at most the longest duration there is.\<close>

definition DURATION_MAX :: duration where
  "DURATION_MAX = (2 ^ 64 - 1) * NANOS_PER_SEC + (NANOS_PER_SEC - 1)"

definition PaneRetry_schedule :: "pane_retry \<Rightarrow> retry_id \<Rightarrow> duration \<Rightarrow> pane_retry \<times> duration" where
  "PaneRetry_schedule self i cap =
     (self\<lparr>retry_delay := min (min (retry_delay self * 2) DURATION_MAX) cap, retry_current := i\<rparr>, retry_delay self)"

definition FIRST_RETRY :: duration where
  "FIRST_RETRY = 30 * NANOS_PER_SEC"

definition MAX_RETRY :: duration where
  "MAX_RETRY = 10 * 60 * NANOS_PER_SEC"

record adoption_retries =
  ar_panes :: "pane_id \<rightharpoonup> pane_retry"
  ar_next :: retry_id

definition retry_entry :: "adoption_retries \<Rightarrow> pane_id \<Rightarrow> pane_retry" where
  "retry_entry self pane = unwrap_or (ar_panes self pane) (PaneRetry_new FIRST_RETRY)"

definition first_failure :: "adoption_retries \<Rightarrow> pane_id \<Rightarrow> pid \<Rightarrow> adoption_retries \<times> bool" where
  "first_failure self pane holder =
     (case tell (retry_entry self pane) holder of
        (retry, news) \<Rightarrow> (self\<lparr>ar_panes := (ar_panes self)(pane \<mapsto> retry)\<rparr>, news))"

definition AdoptionRetries_begin :: "adoption_retries \<Rightarrow> pane_id \<Rightarrow> adoption_retries \<times> retry_id" where
  "AdoptionRetries_begin self pane =
     (let i = RetryId_next (ar_next self)
      in (self\<lparr>ar_next := i, ar_panes := (ar_panes self)(pane \<mapsto> (retry_entry self pane)\<lparr>retry_current := i\<rparr>)\<rparr>, i))"

definition AdoptionRetries_schedule :: "adoption_retries \<Rightarrow> pane_id \<Rightarrow> adoption_retries \<times> retry_id \<times> duration" where
  "AdoptionRetries_schedule self pane =
     (let i = RetryId_next (ar_next self) in
      case PaneRetry_schedule (retry_entry self pane) i MAX_RETRY of
        (retry, delay) \<Rightarrow> (self\<lparr>ar_next := i, ar_panes := (ar_panes self)(pane \<mapsto> retry)\<rparr>, i, delay))"

definition is_current :: "adoption_retries \<Rightarrow> pane_id \<Rightarrow> retry_id \<Rightarrow> bool" where
  "is_current self pane i = (case ar_panes self pane of Some retry \<Rightarrow> retry_current retry = i | None \<Rightarrow> False)"

definition AdoptionRetries_forget :: "adoption_retries \<Rightarrow> pane_id \<Rightarrow> adoption_retries" where
  "AdoptionRetries_forget self pane = self\<lparr>ar_panes := (ar_panes self)(pane := None)\<rparr>"

section \<open>Metrics\<close>

record port_holder =
  holder_project :: ustring
  holder_process :: ustring

definition port_holder_to_string :: "port_holder \<Rightarrow> ustring" where
  "port_holder_to_string self =
     utf ''project '' @ [39] @ holder_project self @ [39] @ utf '', process '' @ [39] @ holder_process self @ [39]"

record port_occupant =
  occupant_pid :: pid
  occupant_command :: ustring
  occupant_ancestors :: "pid list"

definition lineage :: "port_occupant \<Rightarrow> pid list" where
  "lineage self = occupant_pid self # occupant_ancestors self"

datatype port_owner = Supervised port_holder | Other port_occupant

definition port_owner_to_string :: "port_owner \<Rightarrow> ustring" where
  "port_owner_to_string self =
     (case self of
        Supervised holder \<Rightarrow> port_holder_to_string holder
      | Other occupant \<Rightarrow>
          utf ''pid '' @ show_nat (occupant_pid occupant) @ utf '' ('' @ occupant_command occupant @ utf '')'')"

record port_block =
  block_port :: local_port
  block_holder :: port_owner

definition port_block_to_string :: "port_block \<Rightarrow> ustring" where
  "port_block_to_string self =
     utf ''did not start: port '' @ show_nat (block_port self) @ utf '' is held by '' @
     port_owner_to_string (block_holder self)"

text \<open>
  A sample of what a process uses; the share of the processor, a float of the source, is kept as its
  bits. The field \<open>mb_probes_ports\<close> says whether the supervisor can ask who listens on a port.
\<close>

record process_usage =
  usage_pid :: pid
  usage_cpu_percent :: u32
  usage_memory_bytes :: u64

record listening_socket =
  socket_port :: nat
  socket_address :: ustring
  socket_pid :: pid

record metrics_book =
  mb_usage :: "pane_id \<rightharpoonup> process_usage"
  mb_ports :: "pane_id \<rightharpoonup> listening_socket list"
  mb_held_ports :: "local_port \<rightharpoonup> port_holder"
  mb_blocks :: "pane_id \<rightharpoonup> port_block"
  mb_probes_ports :: bool

definition MetricsBook_forget :: "metrics_book \<Rightarrow> pane_id \<Rightarrow> metrics_book" where
  "MetricsBook_forget self pane =
     self\<lparr>mb_usage := (mb_usage self)(pane := None), mb_ports := (mb_ports self)(pane := None)\<rparr>"

end
