(* ===== verification/Supervisor.thy ===== *)
theory Supervisor
  imports Books
begin

text \<open>
  The state of one project's supervisor (\<open>muster-service/src/supervisor\<close>), what it asks of the world
  around it and what it sends out, with the lookups and notices every operation uses. The operations
  are in the theories that import this one.

  Every operation takes the \<open>world\<close> of the moment it runs in, which answers what the code asks of the
  operating system and of other crates, and passes the supervisor on. What the code sends out (a
  notice, a signal, a thread that will answer with an event, a timer) is appended to \<open>sup_out\<close> in
  order. The runner and the adopter of the service always run detached, so a launch is a thread whose
  answer comes as a later event.

  The output taps, the registered waits and the log reads are another component of the supervisor:
  a call into it is an effect too, and no operation here reads its state.
\<close>

section \<open>The world\<close>

record world =
  world_now :: instant
  world_time :: system_time
  world_nfc :: "ustring \<Rightarrow> ustring"
  world_quote :: "ustring \<Rightarrow> ustring option"
  world_show_path :: "path \<Rightarrow> ustring"
  world_uppercase :: "ustring \<Rightarrow> ustring"
  world_pattern_error :: "log_pattern \<Rightarrow> ustring option"
  world_terminates :: "process_handle \<Rightarrow> bool"
  world_kills :: "process_handle \<Rightarrow> bool"
  world_pauses :: "process_handle \<Rightarrow> bool"
  world_resumes :: "process_handle \<Rightarrow> bool"
  world_acknowledges :: "process_handle \<Rightarrow> bool"
  world_alive :: "pid \<Rightarrow> bool"
  world_exited :: "pid \<Rightarrow> bool"
  world_start_token :: "pid \<Rightarrow> start_token option"
  world_signals :: "pid \<Rightarrow> bool"
  world_alive_after :: "pid \<Rightarrow> bool"

text \<open>
  The handle operations and \<open>world_signals\<close> say whether a signal was delivered;
  \<open>world_alive_after\<close> whether the process is still there once it was.
\<close>

definition same_start :: "start_token option \<Rightarrow> start_token option \<Rightarrow> bool" where
  "same_start recorded current \<longleftrightarrow>
     (case (recorded, current) of (Some r, Some c) \<Rightarrow> r = c | _ \<Rightarrow> True)"

definition is_same_process :: "world \<Rightarrow> pid \<Rightarrow> start_token option \<Rightarrow> bool" where
  "is_same_process w pid expected_token \<longleftrightarrow>
     world_alive w pid \<and> same_start expected_token (world_start_token w pid)"

datatype unix_signal = SIG_TERM | SIG_INT | SIG_KILL

fun unix_signal_of :: "stop_signal \<Rightarrow> unix_signal" where
  "unix_signal_of Terminate = SIG_TERM"
| "unix_signal_of Interrupt = SIG_INT"

section \<open>The text of a stored problem\<close>

definition unconfined_dir_to_string ::
    "(ustring \<Rightarrow> ustring option) \<Rightarrow> (path \<Rightarrow> ustring) \<Rightarrow> unconfined_dir \<Rightarrow> ustring" where
  "unconfined_dir_to_string quote show_path self =
     (let name = shell_quoted quote (unconfined_name self)
      in utf ''the stored working dir '' @ [39] @ show_path (unconfined_path self) @ [39] @ utf '' of '' @ name @
         utf '' leaves the project root, so it is never started; `muster set '' @ name @
         utf '' --no-cwd` or `muster rm '' @ name @ utf ''` fixes it'')"

definition stored_problem_to_string ::
    "(ustring \<Rightarrow> ustring option) \<Rightarrow> (path \<Rightarrow> ustring) \<Rightarrow> stored_problem \<Rightarrow> ustring" where
  "stored_problem_to_string quote show_path self =
     (case self of
        Problem_UnconfinedDir unconfined \<Rightarrow> unconfined_dir_to_string quote show_path unconfined
      | Problem_OverCap process over \<Rightarrow>
          (let name = shell_quoted quote process;
               remove = utf ''`muster rm '' @ name @ utf ''`'';
               never_started = utf ''so it is never started'';
               quoted = (\<lambda>var. unwrap_or (quote var) var)
           in case over of
                Cap_Name n \<Rightarrow>
                  utf ''the stored name of '' @ name @ utf '' is '' @ show_nat n @ utf '' characters, more than the '' @
                  show_nat PROCESS_NAME_MAX_CHARS @ utf '' muster allows, '' @ never_started @ utf ''; '' @ remove @
                  utf '' fixes it''
              | Cap_VarName var n \<Rightarrow>
                  utf ''a stored variable name of '' @ name @ utf '' is '' @ show_nat n @
                  utf '' characters, more than the '' @ show_nat ENV_NAME_MAX_CHARS @ utf '' muster allows, '' @
                  never_started @ utf ''; `muster set '' @ name @ utf '' --unset-env '' @ quoted var @ utf ''` or '' @
                  remove @ utf '' fixes it''
              | Cap_VarValue var n \<Rightarrow>
                  utf ''the stored variable '' @ quoted var @ utf '' of '' @ name @ utf '' is '' @ show_nat n @
                  utf '' characters, more than the '' @ show_nat ENV_VALUE_MAX_CHARS @ utf '' muster allows, '' @
                  never_started @ utf ''; `muster set '' @ name @ utf '' --unset-env '' @ quoted var @ utf ''` or '' @
                  remove @ utf '' fixes it''
              | Cap_Vars n \<Rightarrow>
                  name @ utf '' has '' @ show_nat n @ utf '' stored variables, more than the '' @
                  show_nat ENV_VARS_MAX @ utf '' muster allows, '' @ never_started @ utf ''; unsetting '' @
                  show_nat (n - ENV_VARS_MAX) @ utf '' of them with `muster set '' @ name @
                  utf '' --unset-env <NAME>` or '' @ remove @ utf '' fixes it''
              | Cap_Ports n \<Rightarrow>
                  name @ utf '' declares '' @ show_nat n @ utf '' stored ports, more than the '' @
                  show_nat DECLARED_PORTS_MAX @ utf '' muster allows, '' @ never_started @ utf ''; `muster set '' @
                  name @ utf ''` with at most '' @ show_nat DECLARED_PORTS_MAX @ utf '' `--port`s, `muster set '' @
                  name @ utf '' --no-ports` or '' @ remove @ utf '' fixes it''))"

section \<open>The state\<close>

record unsupervised_child =
  child_pid :: pid
  child_start_token :: "start_token option"
  child_kill_polls :: u32
  child_grace_deadline :: "instant option"

definition observe_expected :: "world \<Rightarrow> pid \<Rightarrow> start_token option \<Rightarrow> unsupervised_child option" where
  "observe_expected w pid expected_token =
     (if \<not> world_alive w pid \<or> world_exited w pid then None
      else let current = world_start_token w pid
           in if \<not> same_start expected_token current then None
              else Some \<lparr>child_pid = pid, child_start_token = or_else expected_token current,
                         child_kill_polls = 0, child_grace_deadline = None\<rparr>)"

definition child_is_running :: "world \<Rightarrow> unsupervised_child \<Rightarrow> bool" where
  "child_is_running w self \<longleftrightarrow>
     is_same_process w (child_pid self) (child_start_token self) \<and> \<not> world_exited w (child_pid self)"

definition count_kill :: "unsupervised_child \<Rightarrow> unsupervised_child \<times> u32" where
  "count_kill self =
     (let polls = child_kill_polls self + 1 in (self\<lparr>child_kill_polls := polls\<rparr>, polls))"

definition begin_stop :: "instant option \<Rightarrow> unsupervised_child \<Rightarrow> unsupervised_child" where
  "begin_stop grace_deadline self = self\<lparr>child_kill_polls := 0, child_grace_deadline := grace_deadline\<rparr>"

definition end_grace :: "unsupervised_child \<Rightarrow> unsupervised_child" where
  "end_grace self = self\<lparr>child_grace_deadline := None\<rparr>"

text \<open>
  The screen of a pane is the repaint it was drawn from and the size it was drawn at; the text on it
  is what a terminal emulator shows for them, and it is empty for \<open>None\<close>.
\<close>

record pane =
  pane_screen :: "(nat list \<times> pty_size) option"
  pane_handle :: "process_handle option"
  pane_unsupervised :: "unsupervised_child option"
  pane_started_at :: instant
  pane_intent :: exit_intent
  pane_shutdown :: shutdown_generation
  pane_membership :: config_membership

definition take_handle :: "pane \<Rightarrow> pane" where
  "take_handle self = self\<lparr>pane_handle := None\<rparr>"

definition advance_shutdown :: "pane \<Rightarrow> pane" where
  "advance_shutdown self = self\<lparr>pane_shutdown := ShutdownGeneration_next (pane_shutdown self)\<rparr>"

definition change_intent :: "(exit_intent \<Rightarrow> exit_intent) \<Rightarrow> pane \<Rightarrow> pane" where
  "change_intent change self = self\<lparr>pane_intent := change (pane_intent self)\<rparr>"

definition carry_over :: "process_state option \<Rightarrow> pane \<Rightarrow> carried_pane option" where
  "carry_over state self =
     map_option (\<lambda>handle. \<lparr>carried_intent = pane_intent self, carried_membership = pane_membership self,
                           carried_started_at = pane_started_at self, carried_state = state,
                           carried_pid = handle_process_id handle\<rparr>) (pane_handle self)"

definition restore :: "carried_pane \<Rightarrow> pane \<Rightarrow> pane" where
  "restore carried self =
     self\<lparr>pane_intent := carried_intent carried, pane_membership := carried_membership carried,
          pane_started_at := carried_started_at carried\<rparr>"

datatype probe_target = Target_Port local_port | Target_Http ustring "nat option"

text \<open>The matcher of a run's readiness is the pattern it was compiled from.\<close>

record run_readiness =
  ready_state :: readiness
  ready_check_of :: ready_check
  ready_since :: instant
  ready_deadline :: instant
  ready_matcher :: "log_pattern option"

definition readiness_probe :: "run_readiness \<Rightarrow> probe_target option" where
  "readiness_probe self =
     (case probe (ready_check_of self) of
        Probe_Log _ \<Rightarrow> None
      | Probe_Port port \<Rightarrow> Some (Target_Port port)
      | Probe_Http url \<Rightarrow> Some (Target_Http url None))"

definition settle_readiness :: "readiness \<Rightarrow> run_readiness \<Rightarrow> run_readiness" where
  "settle_readiness state self = self\<lparr>ready_state := state, ready_matcher := None\<rparr>"

record holder_record =
  hr_id :: ustring
  hr_project :: project_root
  hr_process :: ustring
  hr_command :: ustring
  hr_stop :: stop_policy
  hr_launch_environment :: "(ustring \<times> ustring) list"
  hr_socket :: path
  hr_holder_pid :: pid
  hr_child_pid :: pid
  hr_child_start_token :: "start_token option"
  hr_log :: path
  hr_child_started_at :: system_time
  hr_history :: spawn_history

record spawn_request =
  req_process :: ustring
  req_command :: ustring
  req_working_dir :: "path option"
  req_project :: "path option"
  req_launch_environment :: launch_environment
  req_environment :: environment
  req_size :: pty_size
  req_scrollback :: nat
  req_log_max_size :: nat
  req_color_scheme :: color_scheme
  req_stop :: stop_policy
  req_history :: spawn_history

section \<open>What goes out\<close>

datatype notice_level = Level_Warning | Level_Error

datatype event_kind =
    Event_Started | Event_Ready | Event_ReadyTimeout | Event_Exited | Event_Crashed | Event_Restarting
  | Event_Stopped | Event_Blocked | Event_Notice | Event_IdleStopped

datatype wait_status =
    Wait_Matched | Wait_Waiting | Wait_Exited | Wait_Crashed | Wait_Stopped | Wait_NotRunning
  | Wait_ReadyTimeout

definition exit_wait_status :: "exit_reason \<Rightarrow> wait_status" where
  "exit_wait_status self =
     (case self of
        Reason_Exited \<Rightarrow> Wait_Exited
      | Reason_Crashed \<Rightarrow> Wait_Crashed
      | Reason_Killed \<Rightarrow> Wait_Crashed
      | FailedToStart \<Rightarrow> Wait_Crashed
      | Reason_Stopped \<Rightarrow> Wait_Stopped)"

record refusal =
  refusal_name :: ustring
  refusal_reason :: ustring
  refusal_block :: "port_block option"

text \<open>Where a handle to a process that may still run is dropped.\<close>

datatype drop_site =
  At_Shutdown | At_Stale_Release | At_Stopped_Adoption | At_Reconnect | At_Deactivate | At_Install
  | At_Retire

text \<open>
  Threads that answer: a launch answers that it was blocked by an occupied port or how the spawn went,
  a search for a holder with its record, an adoption with its handle, a probe of a retry with the
  record of a holder that serves. Timers answer with what they carry. The adoption of a reconnect asks
  for the output since the tap's position (\<open>True\<close>), any other for all of it.
\<close>

datatype effect =
    Launching pane_id spawn_generation spawn_request "local_port list option"
  | Locating pane_id spawn_generation pid
  | Adopting pane_id spawn_generation holder_record bool
  | Probing pane_id retry_id bool pid
  | Respawning pane_id spawn_generation duration
  | ForceStopping pane_id spawn_generation shutdown_generation duration
  | Retrying pane_id retry_id duration
  | Noticed notice_level "ustring option" ustring
  | Recorded "ustring option" event_kind ustring
  | Alerted ustring ustring
  | Terminating process_handle stop_signal duration
  | Killing process_handle
  | Pausing process_handle
  | Resuming process_handle
  | Acknowledging process_handle
  | Abandoning process_handle
  | Dropped drop_site process_handle
  | Signalling pid unix_signal
  | Collecting path bool
  | Run_Ended ustring exit_outcome system_time
  | Run_Cleared ustring
  | Probes_Forgotten pane_id
  | Probe_Watched pane_id spawn_generation probe_target instant
  | End_Waits pane_id "spawn_generation option" wait_status process_state
  | Begin_Tap pane_id
  | Place_Run pane_id output_cursor
  | Tap_Output pane_id "output_cursor option" "nat list"
  | Test_Unlogged pane_id "nat list"
  | Start_Replay pane_id
  | Forget_Log_Read pane_id
  | Forget_Tap pane_id
  | Watch_Waiters pane_id spawn_generation
  | Release_Adoption_Waits

text \<open>
  \<open>Collecting\<close> says whether the holder on that socket is told to kill its child too.

  The panes and the generations are hash maps, listed in some order. The adopter, the probe worker,
  the notifier and the run recorder are present or not.
\<close>

record supervisor =
  sup_project :: project
  sup_workspace :: workspace
  sup_adopter :: bool
  sup_retries :: adoption_retries
  sup_panes :: "(pane_id \<times> pane) list"
  sup_generations :: "(pane_id \<times> spawn_generation) list"
  sup_restarts :: restart_book
  sup_launches :: launch_book
  sup_batch :: "refusal list option"
  sup_notifier :: bool
  sup_failing_reads :: "pane_id set"
  sup_metrics :: metrics_book
  sup_attach :: attach_book
  sup_settings :: settings
  sup_probes :: bool
  sup_collect_after_stop :: "pane_id \<rightharpoonup> path"
  sup_replays :: "pane_id \<rightharpoonup> output_cursor"
  sup_readiness :: "pane_id \<rightharpoonup> run_readiness"
  sup_recorder :: bool
  sup_occupants :: u32
  sup_left_at :: "instant option"
  sup_idle_stopping :: "ustring set"
  sup_out :: "effect list"

definition emit :: "effect \<Rightarrow> supervisor \<Rightarrow> supervisor" where
  "emit e s = s\<lparr>sup_out := sup_out s @ [e]\<rparr>"

definition pane_of :: "supervisor \<Rightarrow> pane_id \<Rightarrow> pane option" where
  "pane_of s p = map_of (sup_panes s) p"

definition generation_of :: "supervisor \<Rightarrow> pane_id \<Rightarrow> spawn_generation option" where
  "generation_of s p = map_of (sup_generations s) p"

definition process_of :: "supervisor \<Rightarrow> pane_id \<Rightarrow> process option" where
  "process_of s p = workspace_process (sup_workspace s) p"

definition state_of :: "supervisor \<Rightarrow> pane_id \<Rightarrow> process_state option" where
  "state_of s p = map_option proc_state (process_of s p)"

text \<open>A change of a pane, if there is one, and of the state of its process.\<close>

definition on_pane :: "(pane \<Rightarrow> pane) \<Rightarrow> pane_id \<Rightarrow> supervisor \<Rightarrow> supervisor" where
  "on_pane f p s =
     (case pane_of s p of
        Some x \<Rightarrow> s\<lparr>sup_panes := AList.update p (f x) (sup_panes s)\<rparr>
      | None \<Rightarrow> s)"

definition become :: "pane_id \<Rightarrow> process_state \<Rightarrow> supervisor \<Rightarrow> supervisor" where
  "become p state s = s\<lparr>sup_workspace := workspace_set_state (sup_workspace s) p state\<rparr>"

definition on_restarts :: "(restart_book \<Rightarrow> restart_book) \<Rightarrow> supervisor \<Rightarrow> supervisor" where
  "on_restarts f s = s\<lparr>sup_restarts := f (sup_restarts s)\<rparr>"

definition on_launches :: "(launch_book \<Rightarrow> launch_book) \<Rightarrow> supervisor \<Rightarrow> supervisor" where
  "on_launches f s = s\<lparr>sup_launches := f (sup_launches s)\<rparr>"

definition on_metrics :: "(metrics_book \<Rightarrow> metrics_book) \<Rightarrow> supervisor \<Rightarrow> supervisor" where
  "on_metrics f s = s\<lparr>sup_metrics := f (sup_metrics s)\<rparr>"

definition on_attach :: "(attach_book \<Rightarrow> attach_book) \<Rightarrow> supervisor \<Rightarrow> supervisor" where
  "on_attach f s = s\<lparr>sup_attach := f (sup_attach s)\<rparr>"

section \<open>Looking up and telling\<close>

definition pane_named :: "world \<Rightarrow> supervisor \<Rightarrow> ustring \<Rightarrow> pane_id option" where
  "pane_named w s name =
     map_option proc_id
       (find (\<lambda>process. process_key (world_nfc w) process = name_key (world_nfc w) name) (sup_workspace s))"

definition raise_notice ::
    "supervisor \<Rightarrow> notice_level \<Rightarrow> ustring option \<Rightarrow> ustring \<Rightarrow> port_block option \<Rightarrow> supervisor" where
  "raise_notice s level process message block =
     (let s = (case (process, sup_batch s) of
                 (Some name, Some refusals) \<Rightarrow>
                   if level = Level_Error
                   then s\<lparr>sup_batch := Some (refusals @ [\<lparr>refusal_name = name, refusal_reason = message,
                                                          refusal_block = block\<rparr>])\<rparr>
                   else s
               | _ \<Rightarrow> s)
      in emit (Noticed level process message) (emit (Recorded process Event_Notice message) s))"

definition notify_process :: "supervisor \<Rightarrow> notice_level \<Rightarrow> ustring option \<Rightarrow> ustring \<Rightarrow> supervisor" where
  "notify_process s level process message = raise_notice s level process message None"

definition notify_blocked :: "supervisor \<Rightarrow> ustring \<Rightarrow> port_block \<Rightarrow> supervisor" where
  "notify_blocked s name block =
     raise_notice s Level_Error (Some name) (port_block_to_string block) (Some block)"

definition name_of :: "supervisor \<Rightarrow> pane_id option \<Rightarrow> ustring option" where
  "name_of s p = map_option proc_name (Option.bind p (process_of s))"

definition notify :: "supervisor \<Rightarrow> notice_level \<Rightarrow> pane_id option \<Rightarrow> ustring \<Rightarrow> supervisor" where
  "notify s level p message = notify_process s level (name_of s p) message"

definition resolve :: "world \<Rightarrow> supervisor \<Rightarrow> ustring \<Rightarrow> supervisor \<times> pane_id option" where
  "resolve w s name =
     (case pane_named w s name of
        Some p \<Rightarrow> (s, Some p)
      | None \<Rightarrow>
          (notify_process s Level_Error (Some name) (utf ''no process with that name in this project''), None))"

definition record_event :: "supervisor \<Rightarrow> pane_id option \<Rightarrow> event_kind \<Rightarrow> ustring \<Rightarrow> supervisor" where
  "record_event s p kind detail = emit (Recorded (name_of s p) kind detail) s"

definition alert_desktop :: "supervisor \<Rightarrow> pane_id \<Rightarrow> ustring \<Rightarrow> supervisor" where
  "alert_desktop s p message =
     (if \<not> set_desktop_notifications (sup_settings s) then s
      else case process_of s p of
             None \<Rightarrow> s
           | Some process \<Rightarrow> if sup_notifier s then emit (Alerted (proc_name process) message) s else s)"

end
