(* ===== verification/Lifecycle.thy ===== *)
theory Lifecycle
  imports Supervisor
begin

text \<open>
  The lifecycle of a pane's process (\<open>supervisor/lifecycle.rs\<close>, \<open>unsupervised.rs\<close>, \<open>blocking.rs\<close> and the
  run records of \<open>waiting.rs\<close>): generations, the end of a run, a process left running unsupervised,
  blocked ports, the launch of a run and what an exit leads to.
\<close>

section \<open>Generations\<close>

definition current_generation :: "supervisor \<Rightarrow> pane_id \<Rightarrow> spawn_generation" where
  "current_generation s p = unwrap_or (generation_of s p) SpawnGeneration_initial"

definition advance_generation :: "pane_id \<Rightarrow> supervisor \<Rightarrow> supervisor" where
  "advance_generation p s =
     s\<lparr>sup_generations := AList.update p (SpawnGeneration_next (current_generation s p)) (sup_generations s)\<rparr>"

definition bump_generation :: "pane_id \<Rightarrow> supervisor \<Rightarrow> supervisor" where
  "bump_generation p s = advance_generation p (on_launches (\<lambda>book. LaunchBook_cancel book p) s)"

definition advance_shutdown_generation :: "pane_id \<Rightarrow> supervisor \<Rightarrow> supervisor" where
  "advance_shutdown_generation p s = on_pane advance_shutdown p s"

section \<open>What a pane holds\<close>

definition is_live :: "supervisor \<Rightarrow> pane_id \<Rightarrow> bool" where
  "is_live s p \<longleftrightarrow> (case pane_of s p of Some x \<Rightarrow> pane_handle x \<noteq> None | None \<Rightarrow> False)"

definition is_starting :: "supervisor \<Rightarrow> pane_id \<Rightarrow> bool" where
  "is_starting s p = LaunchBook_is_starting (sup_launches s) p"

definition is_spawning :: "supervisor \<Rightarrow> pane_id \<Rightarrow> bool" where
  "is_spawning s p = LaunchBook_is_spawning (sup_launches s) p"

definition is_unsupervised :: "supervisor \<Rightarrow> pane_id \<Rightarrow> bool" where
  "is_unsupervised s p \<longleftrightarrow> (case pane_of s p of Some x \<Rightarrow> pane_unsupervised x \<noteq> None | None \<Rightarrow> False)"

definition holds_process :: "supervisor \<Rightarrow> pane_id \<Rightarrow> bool" where
  "holds_process s p \<longleftrightarrow> is_live s p \<or> is_starting s p \<or> is_unsupervised s p"

definition running_unsupervised_pid :: "world \<Rightarrow> supervisor \<Rightarrow> pane_id \<Rightarrow> pid option" where
  "running_unsupervised_pid w s p =
     (case Option.bind (pane_of s p) pane_unsupervised of
        Some child \<Rightarrow> if child_is_running w child then Some (child_pid child) else None
      | None \<Rightarrow> None)"

definition runs_launch :: "supervisor \<Rightarrow> pane_id \<Rightarrow> spawn_generation \<Rightarrow> bool" where
  "runs_launch s p generation \<longleftrightarrow> is_live s p \<and> generation_of s p = Some generation"

definition stop_policy_of :: "supervisor \<Rightarrow> pane_id \<Rightarrow> stop_policy option" where
  "stop_policy_of s p = map_option proc_stop (process_of s p)"

text \<open>The handle of a pane whose owner goes away is dropped.\<close>

definition drop_handle :: "drop_site \<Rightarrow> pane_id \<Rightarrow> supervisor \<Rightarrow> supervisor" where
  "drop_handle site p s =
     (case Option.bind (pane_of s p) pane_handle of
        Some handle \<Rightarrow> emit (Dropped site handle) s
      | None \<Rightarrow> s)"

definition instant_of :: "world \<Rightarrow> system_time \<Rightarrow> instant" where
  "instant_of w started =
     (let elapsed = world_time w - started
      in if elapsed \<le> world_now w then world_now w - elapsed else world_now w)"

definition install_terminal :: "world \<Rightarrow> pane_id \<Rightarrow> process_handle option \<Rightarrow> supervisor \<Rightarrow> supervisor \<times> bool" where
  "install_terminal w p handle s =
     (if process_of s p = None
      then ((case handle of Some h \<Rightarrow> emit (Dropped At_Install h) s | None \<Rightarrow> s), False)
      else
        let started_at = (case Option.bind handle handle_started_at of
                            Some started \<Rightarrow> instant_of w started
                          | None \<Rightarrow> world_now w);
            attached = (case handle of Some h \<Rightarrow> handle_attached_clients h | None \<Rightarrow> 0);
            s = on_attach (\<lambda>book. set_attached book p attached) s;
            s = drop_handle At_Install p s
        in (s\<lparr>sup_panes :=
                AList.update p
                  \<lparr>pane_screen = None, pane_handle = handle, pane_unsupervised = None,
                   pane_started_at = started_at, pane_intent = FollowPolicy,
                   pane_shutdown = ShutdownGeneration_initial, pane_membership = Tracked\<rparr> (sup_panes s)\<rparr>, True))"

definition deactivate :: "pane_id \<Rightarrow> supervisor \<Rightarrow> supervisor" where
  "deactivate p s =
     (let s = on_metrics (\<lambda>m. m\<lparr>mb_usage := (mb_usage m)(p := None)\<rparr>) s;
          s = on_attach (\<lambda>book. set_attached book p 0) s;
          s = drop_handle At_Deactivate p s
      in on_pane (\<lambda>x. (take_handle x)\<lparr>pane_intent := FollowPolicy\<rparr>) p s)"

section \<open>Runs\<close>

definition end_waits :: "pane_id \<Rightarrow> spawn_generation option \<Rightarrow> wait_status \<Rightarrow> process_state \<Rightarrow> supervisor \<Rightarrow> supervisor" where
  "end_waits p generation status next_state s = emit (End_Waits p generation status next_state) s"

definition forget_probes :: "pane_id \<Rightarrow> supervisor \<Rightarrow> supervisor" where
  "forget_probes p s = (if sup_probes s then emit (Probes_Forgotten p) s else s)"

definition insert_readiness :: "pane_id \<Rightarrow> run_readiness \<Rightarrow> supervisor \<Rightarrow> supervisor" where
  "insert_readiness p r s = s\<lparr>sup_readiness := (sup_readiness s)(p \<mapsto> r)\<rparr>"

definition start_readiness ::
    "world \<Rightarrow> pane_id \<Rightarrow> ready_check \<Rightarrow> instant \<Rightarrow> instant \<Rightarrow> supervisor \<Rightarrow> supervisor" where
  "start_readiness w p check since deadline s =
     (let begun = (\<lambda>matcher. \<lparr>ready_state = on_spawn (Some check), ready_check_of = check, ready_since = since,
                              ready_deadline = deadline, ready_matcher = matcher\<rparr>)
      in case probe check of
           Probe_Log pattern \<Rightarrow>
             (case world_pattern_error w pattern of
                Some error \<Rightarrow>
                  notify s Level_Warning (Some p) (utf ''its readiness check cannot be used: '' @ error)
              | None \<Rightarrow> insert_readiness p (begun (Some pattern)) s)
         | _ \<Rightarrow> insert_readiness p (begun None) s)"

definition ready_of :: "supervisor \<Rightarrow> pane_id \<Rightarrow> ready_check option" where
  "ready_of s p = Option.bind (process_of s p) proc_ready"

definition forget_readiness :: "pane_id \<Rightarrow> supervisor \<Rightarrow> supervisor" where
  "forget_readiness p s = s\<lparr>sup_readiness := (sup_readiness s)(p := None)\<rparr>"

definition begin_run :: "world \<Rightarrow> pane_id \<Rightarrow> supervisor \<Rightarrow> supervisor" where
  "begin_run w p s =
     (let s = forget_readiness p (emit (Begin_Tap p) s)
      in case ready_of s p of
           None \<Rightarrow> s
         | Some check \<Rightarrow> start_readiness w p check (world_now w) (world_now w + timeout check) s)"

definition adopt_run :: "world \<Rightarrow> pane_id \<Rightarrow> supervisor \<Rightarrow> supervisor" where
  "adopt_run w p s =
     (let s = forget_readiness p (emit (Begin_Tap p) s)
      in case ready_of s p of
           None \<Rightarrow> s
         | Some check \<Rightarrow>
             (let since = (case pane_of s p of Some x \<Rightarrow> pane_started_at x | None \<Rightarrow> world_now w);
                  deadline = since + timeout check
              in if world_now w < deadline then start_readiness w p check since deadline s
                 else case probe check of
                        Probe_Log _ \<Rightarrow>
                          insert_readiness p
                            \<lparr>ready_state = Ready, ready_check_of = check, ready_since = since,
                             ready_deadline = deadline, ready_matcher = None\<rparr> s
                      | _ \<Rightarrow> start_readiness w p check since (world_now w + timeout check) s))"

definition arm_probes :: "pane_id \<Rightarrow> supervisor \<Rightarrow> supervisor" where
  "arm_probes p s =
     (if \<not> sup_probes s then s
      else
        let generation = current_generation s p;
            s = emit (Probes_Forgotten p) s;
            s = (case sup_readiness s p of
                   Some r \<Rightarrow>
                     if is_waiting (ready_state r)
                     then (case readiness_probe r of
                             Some target \<Rightarrow> emit (Probe_Watched p generation target (ready_deadline r)) s
                           | None \<Rightarrow> s)
                     else s
                 | None \<Rightarrow> s)
        in emit (Watch_Waiters p generation) s)"

definition end_event :: "exit_reason \<Rightarrow> process_state \<Rightarrow> event_kind" where
  "end_event reason next_state =
     (case reason of
        Reason_Crashed \<Rightarrow> Event_Crashed
      | Reason_Killed \<Rightarrow> Event_Crashed
      | FailedToStart \<Rightarrow> Event_Crashed
      | Reason_Stopped \<Rightarrow> if next_state = Restarting then Event_Restarting else Event_Stopped
      | Reason_Exited \<Rightarrow> Event_Exited)"

definition end_run ::
    "world \<Rightarrow> pane_id \<Rightarrow> spawn_generation \<Rightarrow> exit_reason \<Rightarrow> process_state \<Rightarrow> ustring \<Rightarrow> supervisor \<Rightarrow> supervisor" where
  "end_run w p generation reason next_state detail s =
     (let s = on_restarts (\<lambda>book. RestartBook_end_run book p
                 \<lparr>end_generation = generation, end_at = world_time w, end_reason = reason\<rparr>) s;
          s = s\<lparr>sup_readiness := (sup_readiness s)
                  (p := map_option (\<lambda>r. settle_readiness (on_exit (ready_state r)) r) (sup_readiness s p))\<rparr>;
          s = on_metrics (\<lambda>m. m\<lparr>mb_ports := (mb_ports m)(p := None)\<rparr>) s;
          s = forget_probes p s;
          s = record_event s (Some p) (end_event reason next_state) detail
      in end_waits p (Some generation) (exit_wait_status reason) next_state s)"

definition store_end :: "world \<Rightarrow> pane_id \<Rightarrow> exit_outcome option \<Rightarrow> supervisor \<Rightarrow> supervisor" where
  "store_end w p outcome s =
     (if \<not> sup_recorder s then s
      else case process_of s p of
             None \<Rightarrow> s
           | Some process \<Rightarrow>
               (case outcome of
                  Some outcome \<Rightarrow> emit (Run_Ended (proc_name process) outcome (world_time w)) s
                | None \<Rightarrow> emit (Run_Cleared (proc_name process)) s))"

definition retire_pane :: "pane_id \<Rightarrow> supervisor \<Rightarrow> supervisor" where
  "retire_pane p s =
     (let s = emit (Forget_Log_Read p) s;
          s = end_waits p None Wait_Stopped Exited s;
          s = forget_probes p s;
          s = emit (Forget_Tap p) s;
          s = s\<lparr>sup_replays := (sup_replays s)(p := None)\<rparr>;
          s = forget_readiness p s;
          s = drop_handle At_Retire p s;
          s = s\<lparr>sup_panes := AList.delete p (sup_panes s)\<rparr>;
          s = bump_generation p s;
          s = on_restarts (\<lambda>book. RestartBook_forget book p) s;
          s = s\<lparr>sup_failing_reads := sup_failing_reads s - {p}\<rparr>;
          s = on_attach (\<lambda>book. set_attached book p 0) s;
          s = on_metrics (\<lambda>m. MetricsBook_forget m p) s;
          s = on_launches (\<lambda>book. LaunchBook_forget book p) s
      in s\<lparr>sup_workspace := workspace_remove (sup_workspace s) p\<rparr>)"

section \<open>Processes left running unsupervised\<close>

definition leave_unsupervised ::
    "world \<Rightarrow> pane_id \<Rightarrow> pid \<Rightarrow> start_token option \<Rightarrow> supervisor \<Rightarrow> supervisor \<times> bool" where
  "leave_unsupervised w p pid start_token s =
     (case observe_expected w pid start_token of
        None \<Rightarrow> (s, False)
      | Some child \<Rightarrow>
          (let (s, installed) = (if pane_of s p = None then install_terminal w p None s else (s, True))
           in if \<not> installed then (s, False)
              else (become p Unsupervised
                      (on_pane (\<lambda>x. x\<lparr>pane_unsupervised := Some child\<rparr>) p (deactivate p s)), True)))"

definition settle_unsupervised_exit :: "pane_id \<Rightarrow> supervisor \<Rightarrow> supervisor" where
  "settle_unsupervised_exit p s =
     (let s = (case sup_collect_after_stop s p of
                 Some socket \<Rightarrow>
                   emit (Collecting socket False)
                     (s\<lparr>sup_collect_after_stop := (sup_collect_after_stop s)(p := None)\<rparr>)
               | None \<Rightarrow> s)
      in case pane_of s p of
           None \<Rightarrow> s
         | Some x \<Rightarrow>
             (let s = on_pane (\<lambda>x. x\<lparr>pane_unsupervised := None\<rparr>) p s
              in if pane_membership x = RetireOnExit then retire_pane p s
                 else become p Exited
                        (deactivate p (bump_generation p
                           (on_pane (\<lambda>x. x\<lparr>pane_intent := FollowPolicy\<rparr>) p s)))))"

definition UNSUPERVISED_EXIT_POLL :: duration where
  "UNSUPERVISED_EXIT_POLL = 100 * 1000000"

definition UNSUPERVISED_KILL_LIMIT :: u32 where
  "UNSUPERVISED_KILL_LIMIT = 50"

definition UNSUPERVISED_START_REFUSED :: ustring where
  "UNSUPERVISED_START_REFUSED = utf ''cannot start: the process was left running unsupervised as pid''"

definition poll_within :: "world \<Rightarrow> instant \<Rightarrow> duration" where
  "poll_within w deadline = min UNSUPERVISED_EXIT_POLL (deadline - world_now w)"

definition schedule_force_stop ::
    "pane_id \<Rightarrow> spawn_generation \<Rightarrow> shutdown_generation \<Rightarrow> duration \<Rightarrow> supervisor \<Rightarrow> supervisor" where
  "schedule_force_stop p spawn_generation shutdown_generation grace s =
     emit (ForceStopping p spawn_generation shutdown_generation grace) s"

definition check_unsupervised_after :: "pane_id \<Rightarrow> duration \<Rightarrow> supervisor \<Rightarrow> supervisor" where
  "check_unsupervised_after p wait s =
     (let s = advance_shutdown_generation p s
      in case (generation_of s p, pane_of s p) of
           (Some generation, Some x) \<Rightarrow> schedule_force_stop p generation (pane_shutdown x) wait s
         | _ \<Rightarrow> s)"

definition give_up_unsupervised_stop :: "pane_id \<Rightarrow> supervisor \<Rightarrow> supervisor" where
  "give_up_unsupervised_stop p s =
     become p Unsupervised
       (on_pane (change_intent (\<lambda>intent. stop_delivery_failed (request_stop intent))) p s)"

definition signal_unsupervised :: "world \<Rightarrow> pane_id \<Rightarrow> unix_signal \<Rightarrow> duration \<Rightarrow> supervisor \<Rightarrow> supervisor" where
  "signal_unsupervised w p sig wait s =
     (case Option.bind (pane_of s p) pane_unsupervised of
        None \<Rightarrow> s
      | Some child \<Rightarrow>
          if \<not> child_is_running w child then settle_unsupervised_exit p s
          else
            let s = emit (Signalling (child_pid child) sig) s
            in if \<not> child_is_running (w\<lparr>world_alive := world_alive_after w\<rparr>) child
               then settle_unsupervised_exit p s
               else if \<not> world_signals w (child_pid child)
               then notify (give_up_unsupervised_stop p s) Level_Error (Some p)
                      (utf ''could not signal the process left running unsupervised as pid '' @
                       show_nat (child_pid child))
               else check_unsupervised_after p wait
                      (become p Stopping
                         (on_pane (change_intent (\<lambda>intent. stop_delivered (request_stop intent))) p s)))"

definition stop_unsupervised :: "world \<Rightarrow> pane_id \<Rightarrow> bool \<Rightarrow> supervisor \<Rightarrow> supervisor" where
  "stop_unsupervised w p force s =
     (let policy = (if force then None else stop_policy_of s p)
      in case pane_of s p of
           None \<Rightarrow> s
         | Some x \<Rightarrow>
             if \<not> force \<and> \<not> accepts_stop_request (pane_intent x) then s
             else
               let (sig, grace_deadline) =
                     (case policy of
                        Some policy \<Rightarrow>
                          (unix_signal_of (signal policy), Some (world_now w + grace_period policy))
                      | None \<Rightarrow> (SIG_KILL, None));
                   s = on_pane (\<lambda>x. x\<lparr>pane_unsupervised :=
                                       map_option (begin_stop grace_deadline) (pane_unsupervised x)\<rparr>) p s;
                   wait = (case grace_deadline of
                             Some deadline \<Rightarrow> poll_within w deadline
                           | None \<Rightarrow> UNSUPERVISED_EXIT_POLL)
               in signal_unsupervised w p sig wait s)"

text \<open>The kill of an escalation, once no grace is left.\<close>

definition escalate_kill :: "world \<Rightarrow> pane_id \<Rightarrow> unsupervised_child \<Rightarrow> supervisor \<Rightarrow> supervisor" where
  "escalate_kill w p child s =
     (let (child, kills) = Supervisor.count_kill child;
          keep_child = (\<lambda>child. on_pane (\<lambda>x. x\<lparr>pane_unsupervised := Some child\<rparr>) p)
      in if UNSUPERVISED_KILL_LIMIT < kills \<and> child_is_running w child
         then notify (give_up_unsupervised_stop p (keep_child (begin_stop None child) s)) Level_Error (Some p)
                (utf ''the process left running unsupervised survived every kill; stop it again to retry. pid '' @
                 show_nat (child_pid child))
         else signal_unsupervised w p SIG_KILL UNSUPERVISED_EXIT_POLL (keep_child child s))"

definition escalate_unsupervised :: "world \<Rightarrow> pane_id \<Rightarrow> supervisor \<Rightarrow> supervisor" where
  "escalate_unsupervised w p s =
     (case Option.bind (pane_of s p) pane_unsupervised of
        None \<Rightarrow> s
      | Some child \<Rightarrow>
          (case child_grace_deadline child of
             Some deadline \<Rightarrow>
               if \<not> child_is_running w child then settle_unsupervised_exit p s
               else if world_now w < deadline then check_unsupervised_after p (poll_within w deadline) s
               else escalate_kill w p (end_grace child) s
           | None \<Rightarrow> escalate_kill w p child s))"

definition retryable_pid :: "world \<Rightarrow> supervisor \<Rightarrow> pane_id \<Rightarrow> pid option" where
  "retryable_pid w s p =
     (if \<not> is_starting s p \<and> state_of s p = Some Unsupervised then running_unsupervised_pid w s p else None)"

definition probe_adoption :: "world \<Rightarrow> pane_id \<Rightarrow> retry_id \<Rightarrow> bool \<Rightarrow> supervisor \<Rightarrow> supervisor" where
  "probe_adoption w p attempt asked s =
     (case retryable_pid w s p of
        Some pid \<Rightarrow> if sup_adopter s then emit (Probing p attempt asked pid) s else s
      | None \<Rightarrow> s)"

definition retry_adoption_now :: "world \<Rightarrow> pane_id \<Rightarrow> supervisor \<Rightarrow> supervisor \<times> bool" where
  "retry_adoption_now w p s =
     (if \<not> sup_adopter s \<or> retryable_pid w s p = None then (s, False)
      else let (retries, attempt) = AdoptionRetries_begin (sup_retries s) p
           in (probe_adoption w p attempt True (s\<lparr>sup_retries := retries\<rparr>), True))"

definition refuse_unsupervised_start :: "pane_id \<Rightarrow> pid \<Rightarrow> supervisor \<Rightarrow> supervisor" where
  "refuse_unsupervised_start p pid s =
     notify s Level_Error (Some p) (UNSUPERVISED_START_REFUSED @ utf '' '' @ show_nat pid)"

definition unsupervised_refusal :: "world \<Rightarrow> supervisor \<Rightarrow> pane_id \<Rightarrow> refusal option" where
  "unsupervised_refusal w s p =
     (case (running_unsupervised_pid w s p, process_of s p) of
        (Some pid, Some process) \<Rightarrow>
          Some \<lparr>refusal_name = proc_name process,
                refusal_reason = UNSUPERVISED_START_REFUSED @ utf '' '' @ show_nat pid, refusal_block = None\<rparr>
      | _ \<Rightarrow> None)"

definition refuse_unsupervised_launch :: "world \<Rightarrow> pane_id \<Rightarrow> supervisor \<Rightarrow> supervisor \<times> bool" where
  "refuse_unsupervised_launch w p s =
     (if \<not> is_unsupervised s p then (s, False)
      else case running_unsupervised_pid w s p of
             Some pid \<Rightarrow>
               (let (s, retried) = retry_adoption_now w p s
                in ((if retried then s else refuse_unsupervised_start p pid s), True))
           | None \<Rightarrow>
               (let name = name_of s (Some p);
                    s = settle_unsupervised_exit p s
                in if process_of s p = None
                   then (notify_process s Level_Error name
                           (utf ''cannot start: the process was removed from the project and has exited''), True)
                   else (s, False)))"

section \<open>Blocked ports\<close>

definition launch_ports_of :: "supervisor \<Rightarrow> pane_id \<Rightarrow> local_port list" where
  "launch_ports_of s p = unwrap_or (map_option process_launch_ports (process_of s p)) []"

definition port_holder_of :: "supervisor \<Rightarrow> process \<Rightarrow> port_holder" where
  "port_holder_of s process = \<lparr>holder_project = project_name (sup_project s), holder_process = proc_name process\<rparr>"

definition sampled_block :: "supervisor \<Rightarrow> pane_id \<Rightarrow> port_block option" where
  "sampled_block s p =
     (case process_of s p of
        None \<Rightarrow> None
      | Some process \<Rightarrow>
          (let me = port_holder_of s process
           in case find_map (\<lambda>(lower, port).
                     case mb_held_ports (sup_metrics s) port of
                       Some holder \<Rightarrow> if holder \<noteq> me then Some (lower, port, holder) else None
                     | None \<Rightarrow> None) (enumerate 0 (launch_ports_of s p)) of
                None \<Rightarrow> None
              | Some (lower, port, holder) \<Rightarrow>
                  if 0 < lower \<and> mb_probes_ports (sup_metrics s) then None
                  else Some \<lparr>block_port = port, block_holder = Supervised holder\<rparr>))"

definition block_launch :: "pane_id \<Rightarrow> port_block \<Rightarrow> supervisor \<Rightarrow> supervisor" where
  "block_launch p block s =
     (let message = port_block_to_string block;
          s = (case process_of s p of
                 Some process \<Rightarrow> notify_blocked s (proc_name process) block
               | None \<Rightarrow> notify s Level_Error None message);
          s = record_event s (Some p) Event_Blocked message;
          s = on_metrics (\<lambda>m. m\<lparr>mb_blocks := (mb_blocks m)(p \<mapsto> block)\<rparr>) s
      in become p Blocked s)"

definition refuse_blocked_launch :: "pane_id \<Rightarrow> supervisor \<Rightarrow> supervisor \<times> bool" where
  "refuse_blocked_launch p s =
     (case sampled_block s p of
        None \<Rightarrow> (on_metrics (\<lambda>m. m\<lparr>mb_blocks := (mb_blocks m)(p := None)\<rparr>) s, False)
      | Some block \<Rightarrow> (block_launch p block s, True))"

definition live_pids :: "supervisor \<Rightarrow> (pane_id \<times> pid) list" where
  "live_pids s =
     List.map_filter (\<lambda>(p, x). map_option (Pair p) (Option.bind (pane_handle x) handle_process_id)) (sup_panes s)"

definition holder_of_pids :: "supervisor \<Rightarrow> pid list \<Rightarrow> port_holder option" where
  "holder_of_pids s pids =
     (case find (\<lambda>(_, pid). pid \<in> set pids) (live_pids s) of
        Some (p, _) \<Rightarrow> map_option (port_holder_of s) (process_of s p)
      | None \<Rightarrow> None)"

section \<open>Launching\<close>

definition set_launch_environment :: "pane_id \<Rightarrow> launch_environment \<Rightarrow> supervisor \<Rightarrow> supervisor" where
  "set_launch_environment p environment s =
     on_launches (\<lambda>book. book\<lparr>lb_environments := (lb_environments book)(p \<mapsto> environment)\<rparr>) s"

definition spawn_request_of :: "supervisor \<Rightarrow> pane_id \<Rightarrow> bool \<Rightarrow> spawn_request option" where
  "spawn_request_of s p restarting =
     (case process_of s p of
        None \<Rightarrow> None
      | Some process \<Rightarrow>
          (case launch_dir (proc_spec process) (project_root (sup_project s)) of
             Inl _ \<Rightarrow> None
           | Inr dir \<Rightarrow>
               Some \<lparr>req_process = proc_name process, req_command = proc_command process,
                     req_working_dir = Some dir, req_project = Some (project_root (sup_project s)),
                     req_launch_environment = unwrap_or (lb_environments (sup_launches s) p) [],
                     req_environment = proc_environment process,
                     req_size = set_default_size (sup_settings s), req_scrollback = set_scrollback (sup_settings s),
                     req_log_max_size = set_log_max_size (sup_settings s),
                     req_color_scheme = set_color_scheme (sup_settings s), req_stop = proc_stop process,
                     req_history = history (sup_restarts s) p restarting\<rparr>))"

definition refuse_stored_problem :: "world \<Rightarrow> pane_id \<Rightarrow> supervisor \<Rightarrow> supervisor \<times> bool" where
  "refuse_stored_problem w p s =
     (case Option.bind (process_of s p) (\<lambda>process. spec_stored_problem (proc_spec process)) of
        None \<Rightarrow> (s, False)
      | Some problem \<Rightarrow>
          (notify s Level_Error (Some p)
             (stored_problem_to_string (world_quote w) (world_show_path w) problem), True))"

text \<open>The launch itself, once nothing refuses it.\<close>

definition launch :: "world \<Rightarrow> pane_id \<Rightarrow> launch_environment option \<Rightarrow> supervisor \<Rightarrow> supervisor" where
  "launch w p environment s =
     (case state_of s p of
        None \<Rightarrow> notify s Level_Error None (utf ''could not start: the pane has no process'')
      | Some prior_state \<Rightarrow>
          (let s = (case environment of Some env \<Rightarrow> set_launch_environment p env s | None \<Rightarrow> s);
               restarting = (prior_state = Restarting)
           in case spawn_request_of s p restarting of
                None \<Rightarrow> s
              | Some request \<Rightarrow>
                  (let s = on_metrics (\<lambda>m. m\<lparr>mb_usage := (mb_usage m)(p := None)\<rparr>) s;
                       s = bump_generation p s;
                       generation = current_generation s p;
                       s = begin_run w p s;
                       s = on_launches (\<lambda>book. LaunchBook_begin book p
                             (PendingLaunch_new generation prior_state (Purpose_Spawn restarting))) s;
                       s = become p Starting s;
                       ports = launch_ports_of s p;
                       needed = (if mb_probes_ports (sup_metrics s) \<and> ports \<noteq> [] then Some ports else None)
                   in emit (Launching p generation request needed) s)))"

definition spawn_with :: "world \<Rightarrow> pane_id \<Rightarrow> launch_environment option \<Rightarrow> supervisor \<Rightarrow> supervisor" where
  "spawn_with w p environment s =
     (if is_starting s p then s
      else case refuse_unsupervised_launch w p s of
             (s, True) \<Rightarrow> s
           | (s, False) \<Rightarrow>
               (case refuse_stored_problem w p s of
                  (s, True) \<Rightarrow> s
                | (s, False) \<Rightarrow>
                    (case refuse_blocked_launch p s of
                       (s, True) \<Rightarrow> s
                     | (s, False) \<Rightarrow> launch w p environment s)))"

definition spawn :: "world \<Rightarrow> pane_id \<Rightarrow> supervisor \<Rightarrow> supervisor" where
  "spawn w p s = spawn_with w p None s"

section \<open>Exits\<close>

definition RESTART_BACKOFF_BASE :: duration where
  "RESTART_BACKOFF_BASE = 200 * 1000000"

definition RESTART_BACKOFF_MAX :: duration where
  "RESTART_BACKOFF_MAX = 5 * NANOS_PER_SEC"

definition RESTART_BACKOFF_MAX_EXP :: u32 where
  "RESTART_BACKOFF_MAX_EXP = 5"

definition RESTART_STABLE_RUN :: duration where
  "RESTART_STABLE_RUN = 10 * NANOS_PER_SEC"

definition restart_delay :: "u32 \<Rightarrow> duration" where
  "restart_delay attempts =
     min (RESTART_BACKOFF_BASE * 2 ^ unat (min attempts RESTART_BACKOFF_MAX_EXP)) RESTART_BACKOFF_MAX"

definition ran_stably :: "world \<Rightarrow> instant \<Rightarrow> bool" where
  "ran_stably w started_at \<longleftrightarrow> RESTART_STABLE_RUN \<le> world_now w - started_at"

definition schedule_restart :: "world \<Rightarrow> pane_id \<Rightarrow> instant \<Rightarrow> supervisor \<Rightarrow> supervisor" where
  "schedule_restart w p started_at s =
     (let (book, attempts) = next_attempt (sup_restarts s) p (ran_stably w started_at);
          s = bump_generation p (s\<lparr>sup_restarts := book\<rparr>)
      in emit (Respawning p (current_generation s p) (restart_delay attempts)) s)"

definition report_unrequested_exit ::
    "world \<Rightarrow> pane_id \<Rightarrow> exit_intent \<Rightarrow> instant \<Rightarrow> exit_outcome \<Rightarrow> supervisor \<Rightarrow> supervisor" where
  "report_unrequested_exit w p intent started_at outcome s =
     (let s = (if ran_stably w started_at then on_restarts (\<lambda>book. end_crash_streak book p) s else s)
      in if is_stop intent \<or> is_restart intent \<or> \<not> is_failure outcome then s
         else if process_of s p = None then s
         else let (book, first) = crashed (sup_restarts s) p;
                  s = s\<lparr>sup_restarts := book\<rparr>;
                  message = utf ''crashed: '' @ exit_outcome_to_string (world_uppercase w) outcome
              in if first then notify (alert_desktop s p message) Level_Error (Some p) message else s)"

definition next_state_of :: "exit_decision \<Rightarrow> process_state" where
  "next_state_of decision =
     (case decision of
        Retire \<Rightarrow> Exited | Stop \<Rightarrow> Exited | RestartNow \<Rightarrow> Restarting | RestartLater \<Rightarrow> Restarting
      | Settle state \<Rightarrow> state)"

definition apply_decision :: "world \<Rightarrow> pane_id \<Rightarrow> instant \<Rightarrow> exit_decision \<Rightarrow> supervisor \<Rightarrow> supervisor" where
  "apply_decision w p started_at decision s =
     (case decision of
        Retire \<Rightarrow> retire_pane p s
      | Stop \<Rightarrow> become p Exited (deactivate p s)
      | RestartNow \<Rightarrow>
          spawn w p (deactivate p (become p Restarting (on_restarts (\<lambda>book. reset_backoff book p) s)))
      | RestartLater \<Rightarrow> schedule_restart w p started_at (deactivate p (become p Restarting s))
      | Settle state \<Rightarrow> become p state (deactivate p s))"

text \<open>The result says whether the pane was retired; there is none for a pane that is not known.\<close>

definition apply_exit :: "world \<Rightarrow> pane_id \<Rightarrow> exit_outcome \<Rightarrow> supervisor \<Rightarrow> supervisor \<times> bool option" where
  "apply_exit w p outcome s =
     (case pane_of s p of
        None \<Rightarrow> (s, None)
      | Some x \<Rightarrow>
          (let decision = after_exit (pane_intent x) (pane_membership x = RetireOnExit)
                            (workspace_should_restart (sup_workspace s) p outcome) outcome;
               s = report_unrequested_exit w p (pane_intent x) (pane_started_at x) outcome s;
               requested = is_stop (pane_intent x) \<or> is_restart (pane_intent x);
               s = end_run w p (current_generation s p) (ExitReason_of outcome requested)
                     (next_state_of decision) (exit_outcome_to_string (world_uppercase w) outcome) s;
               s = store_end w p (if requested then None else Some outcome) s;
               s = on_restarts (\<lambda>book. record_exit book p outcome) s
           in (apply_decision w p (pane_started_at x) decision s, Some (decision = Retire))))"

definition awaits_respawn :: "supervisor \<Rightarrow> pane_id \<Rightarrow> bool" where
  "awaits_respawn s p \<longleftrightarrow> is_spawning s p \<or> state_of s p = Some Restarting"

definition acknowledge :: "world \<Rightarrow> pane_id \<Rightarrow> process_handle \<Rightarrow> supervisor \<Rightarrow> supervisor" where
  "acknowledge w p handle s =
     (let s = emit (Acknowledging handle) s
      in if world_acknowledges w handle then s
         else notify s Level_Warning (if process_of s p = None then None else Some p)
                (utf ''could not release the finished process; a later start may report its exit again''))"

definition release_held_exit :: "world \<Rightarrow> pane_id \<Rightarrow> supervisor \<Rightarrow> supervisor" where
  "release_held_exit w p s =
     (let (book, held) = AttachBook_release (sup_attach s) p;
          s = s\<lparr>sup_attach := book\<rparr>
      in case held of Some handle \<Rightarrow> acknowledge w p handle s | None \<Rightarrow> s)"

definition release_settled_exits :: "world \<Rightarrow> supervisor \<Rightarrow> supervisor" where
  "release_settled_exits w s =
     fold (release_held_exit w) (filter (\<lambda>p. \<not> awaits_respawn s p) (holding (sup_attach s))) s"

definition handle_exit :: "world \<Rightarrow> pane_id \<Rightarrow> exit_outcome \<Rightarrow> supervisor \<Rightarrow> supervisor" where
  "handle_exit w p outcome s =
     (case Option.bind (pane_of s p) pane_handle of
        None \<Rightarrow> fst (apply_exit w p outcome s)
      | Some finished \<Rightarrow>
          (let (s, retired) = apply_exit w p outcome (on_pane take_handle p s)
           in if retired \<noteq> Some True \<and> awaits_respawn s p
              then (let (book, displaced) = hold_exit (sup_attach s) p finished;
                        s = s\<lparr>sup_attach := book\<rparr>
                    in case displaced of Some handle \<Rightarrow> acknowledge w p handle s | None \<Rightarrow> s)
              else acknowledge w p finished s))"

end
