(* ===== verification/Supervision.thy ===== *)
theory Supervision
  imports Lifecycle
begin

text \<open>
  The commands and events of a supervisor: output and reconnecting, the answers of launches and
  adoptions, what was asked of a launch while it was in flight, stopping, restarting and pausing,
  whole batches, a changed stack, the idle stop and the shutdown (\<open>supervisor/lifecycle.rs\<close>,
  \<open>adopter.rs\<close>, \<open>apply_stack.rs\<close>, \<open>idle.rs\<close> and \<open>entity.rs\<close>).
\<close>

section \<open>Reconnecting\<close>

definition ADOPT_FAILED_NOTICE :: ustring where
  "ADOPT_FAILED_NOTICE = utf ''could not reconnect to a running process''"

definition LEFT_RUNNING :: ustring where
  "LEFT_RUNNING = utf ''; it was left running unsupervised''"

definition SINCE_EXITED :: ustring where
  "SINCE_EXITED = utf ''; it has since exited''"

definition with_pids :: "ustring \<Rightarrow> holder_record \<Rightarrow> ustring" where
  "with_pids message found_record =
     message @ utf '' (child pid '' @ show_nat (hr_child_pid found_record) @ utf '', holder pid '' @
     show_nat (hr_holder_pid found_record) @ utf '')''"

definition adoption_outcome :: "bool \<Rightarrow> ustring" where
  "adoption_outcome running = (if running then LEFT_RUNNING else SINCE_EXITED)"

definition collect_exit :: "holder_record \<Rightarrow> supervisor \<Rightarrow> supervisor" where
  "collect_exit r s = emit (Collecting (hr_socket r) True) s"

definition child_runs_or_collect :: "world \<Rightarrow> holder_record \<Rightarrow> supervisor \<Rightarrow> supervisor \<times> bool" where
  "child_runs_or_collect w r s =
     (let running = observe_expected w (hr_child_pid r) (hr_child_start_token r) \<noteq> None
      in ((if running then s else collect_exit r s), running))"

definition schedule_adoption_retry :: "pane_id \<Rightarrow> supervisor \<Rightarrow> supervisor" where
  "schedule_adoption_retry p s =
     (let (retries, attempt, delay) = AdoptionRetries_schedule (sup_retries s) p
      in emit (Retrying p attempt delay) (s\<lparr>sup_retries := retries\<rparr>))"

definition adoption_failed_unsupervised :: "pane_id \<Rightarrow> holder_record \<Rightarrow> ustring \<Rightarrow> supervisor \<Rightarrow> supervisor" where
  "adoption_failed_unsupervised p r error s =
     (let (retries, first) = first_failure (sup_retries s) p (hr_holder_pid r);
          s = s\<lparr>sup_retries := retries\<rparr>;
          s = (if first
               then notify s Level_Error (Some p)
                      (with_pids (ADOPT_FAILED_NOTICE @ LEFT_RUNNING @ utf '': '' @ error) r)
               else s)
      in schedule_adoption_retry p s)"

definition report_reconnect_failure ::
    "pane_id \<Rightarrow> carried_pane \<Rightarrow> holder_record option \<Rightarrow> ustring option \<Rightarrow> bool \<Rightarrow> supervisor \<Rightarrow> supervisor" where
  "report_reconnect_failure p carried r error running s =
     (case (r, error) of
        (Some r, Some error) \<Rightarrow>
          if running then adoption_failed_unsupervised p r error s
          else notify s Level_Error (Some p)
                 (with_pids (ADOPT_FAILED_NOTICE @ SINCE_EXITED @ utf '': '' @ error) r)
      | (None, _) \<Rightarrow>
          notify s Level_Error (Some p)
            (ADOPT_FAILED_NOTICE @ adoption_outcome running @ utf '': no holder record names pid '' @
             unwrap_or (map_option show_nat (carried_pid carried)) [])
      | (Some _, None) \<Rightarrow> s)"

definition reconnect_failed ::
    "world \<Rightarrow> pane_id \<Rightarrow> carried_pane \<Rightarrow> holder_record option \<Rightarrow> ustring option \<Rightarrow> supervisor \<Rightarrow> supervisor" where
  "reconnect_failed w p carried r error s =
     (let (s, running) =
            (case carried_pid carried of
               Some pid \<Rightarrow> leave_unsupervised w p pid (Option.bind r hr_child_start_token) s
             | None \<Rightarrow> (s, False));
          s = (case r of Some r \<Rightarrow> if running then s else collect_exit r s | None \<Rightarrow> s);
          s = report_reconnect_failure p carried r error running s
      in if running
         then (if is_stop (carried_intent carried) then stop_unsupervised w p False s else s)
         else fst (apply_exit w p FAILED_UNKNOWN (on_pane (restore carried) p s)))"

definition reconnect :: "world \<Rightarrow> pane_id \<Rightarrow> supervisor \<Rightarrow> supervisor" where
  "reconnect w p s =
     (let state = state_of s p
      in case Option.bind (pane_of s p) (carry_over state) of
           None \<Rightarrow> s
         | Some carried \<Rightarrow>
             (let s = on_pane take_handle p (drop_handle At_Reconnect p s);
                  s = bump_generation p s
              in case carried_pid carried of
                   Some pid \<Rightarrow>
                     if sup_adopter s then
                       let generation = current_generation s p;
                           s = on_launches (\<lambda>book. LaunchBook_begin book p
                                 (PendingLaunch_new generation (unwrap_or state Pending)
                                    (Purpose_Adopt (Some carried)))) s;
                           s = become p Starting s
                       in emit (Locating p generation pid) s
                     else reconnect_failed w p carried None None s
                 | None \<Rightarrow> reconnect_failed w p carried None None s))"

section \<open>Output\<close>

definition keep_screen :: "pane_id \<Rightarrow> nat list \<Rightarrow> pty_size \<Rightarrow> supervisor \<Rightarrow> supervisor" where
  "keep_screen p repaint sz s = on_pane (\<lambda>x. x\<lparr>pane_screen := Some (repaint, sz)\<rparr>) p s"

definition take_output :: "world \<Rightarrow> pane_id \<Rightarrow> process_output \<Rightarrow> supervisor \<Rightarrow> supervisor" where
  "take_output w p output s =
     (case output of
        Chunk bytes \<Rightarrow> if pane_of s p = None then s else emit (Tap_Output p None bytes) s
      | Placed at bytes \<Rightarrow> if pane_of s p = None then s else emit (Tap_Output p (Some at) bytes) s
      | Unlogged bytes \<Rightarrow> if pane_of s p = None then s else emit (Test_Unlogged p bytes) s
      | Repaint bytes sz \<Rightarrow> keep_screen p bytes sz s
      | Output_Warning warning \<Rightarrow> notify s Level_Warning (Some p) warning
      | Attached writable_clients \<Rightarrow>
          if is_live s p then on_attach (\<lambda>book. set_attached book p writable_clients) s else s
      | Unreadable reason \<Rightarrow>
          reconnect w p
            (notify s Level_Error (Some p)
               (utf ''lost the connection to this process; it may still be running: '' @ reason))
      | Output_Exited outcome \<Rightarrow> handle_exit w p outcome s)"

definition handle_output :: "world \<Rightarrow> pane_id \<Rightarrow> spawn_generation \<Rightarrow> process_output \<Rightarrow> supervisor \<Rightarrow> supervisor" where
  "handle_output w p generation output s =
     (if generation_of s p \<noteq> Some generation then s
      else case keep_early (sup_launches s) p generation output of
             (book, None) \<Rightarrow> s\<lparr>sup_launches := book\<rparr>
           | (book, Some output) \<Rightarrow> take_output w p output (s\<lparr>sup_launches := book\<rparr>))"

definition replay ::
    "world \<Rightarrow> pane_id \<Rightarrow> spawn_generation \<Rightarrow> (output_cursor \<times> nat list) option \<Rightarrow> process_output list \<Rightarrow>
     supervisor \<Rightarrow> supervisor" where
  "replay w p generation backlog early s =
     (let s = (case backlog of
                 Some (at, bytes) \<Rightarrow> if pane_of s p = None then s else emit (Tap_Output p (Some at) bytes) s
               | None \<Rightarrow> s)
      in fold (handle_output w p generation) early s)"

definition install_pane ::
    "world \<Rightarrow> pane_id \<Rightarrow> process_handle \<Rightarrow> supervisor \<Rightarrow> supervisor \<times> (output_cursor \<times> nat list) option" where
  "install_pane w p handle s =
     (let sz = unwrap_or (handle_screen_size handle) (set_default_size (sup_settings s))
      in case install_terminal w p
                (Some (handle\<lparr>handle_initial_screen := None, handle_backlog := None\<rparr>)) s of
           (s, False) \<Rightarrow> (s, None)
         | (s, True) \<Rightarrow>
             (let s = become p Running s;
                  s = (case handle_run_start handle of Some start \<Rightarrow> emit (Place_Run p start) s | None \<Rightarrow> s);
                  s = (case handle_initial_screen handle of
                         Some screen \<Rightarrow> keep_screen p screen sz s
                       | None \<Rightarrow> s)
              in (s, handle_backlog handle)))"

section \<open>Stopping, restarting and pausing\<close>

definition supersede_retry_adoption :: "pane_id \<Rightarrow> supervisor \<Rightarrow> supervisor" where
  "supersede_retry_adoption p s =
     (if is_unsupervised s p \<and> is_starting s p
      then advance_generation p (on_launches (\<lambda>book. supersede_by_stop book p) s) else s)"

definition asked_of_launch :: "(launch_book \<Rightarrow> launch_book \<times> bool) \<Rightarrow> supervisor \<Rightarrow> supervisor \<times> bool" where
  "asked_of_launch ask s = (case ask (sup_launches s) of (book, asked) \<Rightarrow> (s\<lparr>sup_launches := book\<rparr>, asked))"

definition STOP_DELIVERY_FAILED_NOTICE :: ustring where
  "STOP_DELIVERY_FAILED_NOTICE = utf ''could not stop the process''"

definition delivery :: "bool \<Rightarrow> bool \<Rightarrow> exit_intent \<Rightarrow> exit_intent" where
  "delivery restart delivered =
     (if restart then (if delivered then restart_delivered else restart_delivery_failed)
      else (if delivered then stop_delivered else stop_delivery_failed))"

definition request_graceful_transition ::
    "world \<Rightarrow> pane_id \<Rightarrow> (exit_intent \<Rightarrow> exit_intent) \<Rightarrow> bool \<Rightarrow> supervisor \<Rightarrow> supervisor" where
  "request_graceful_transition w p request restart s =
     (case stop_policy_of s p of
        None \<Rightarrow> s
      | Some policy \<Rightarrow>
          (let spawn_generation = generation_of s p;
               s = advance_shutdown_generation p s;
               shutdown_generation = map_option pane_shutdown (pane_of s p);
               s = on_pane (change_intent request) p s
           in case Option.bind (pane_of s p) pane_handle of
                None \<Rightarrow> notify s Level_Error (Some p) STOP_DELIVERY_FAILED_NOTICE
              | Some handle \<Rightarrow>
                  (let terminated = world_terminates w handle;
                       delivered = (terminated \<or> world_kills w handle);
                       s = emit (Terminating handle (signal policy) (grace_period policy)) s;
                       s = (if terminated then s else emit (Killing handle) s);
                       s = on_pane (change_intent (delivery restart delivered)) p s;
                       s = (if delivered
                            then let s = become p Stopping s
                                 in if terminated then s
                                    else notify s Level_Warning (Some p) (utf ''graceful shutdown failed; force-killed'')
                            else notify s Level_Error (Some p) STOP_DELIVERY_FAILED_NOTICE)
                   in case (terminated, spawn_generation, shutdown_generation) of
                        (True, Some spawn_generation, Some shutdown_generation) \<Rightarrow>
                          schedule_force_stop p spawn_generation shutdown_generation (grace_period policy) s
                      | _ \<Rightarrow> s)))"

definition settle_stopped :: "pane_id \<Rightarrow> supervisor \<Rightarrow> supervisor" where
  "settle_stopped p s =
     end_waits p None Wait_Stopped Exited (become p Exited (deactivate p (bump_generation p s)))"

text \<open>A stop, once it is not asked of a launch in flight.\<close>

definition stop_settled :: "world \<Rightarrow> pane_id \<Rightarrow> supervisor \<Rightarrow> supervisor" where
  "stop_settled w p s =
     (if is_unsupervised s p then stop_unsupervised w p False s
      else if (case pane_of s p of
                 Some x \<Rightarrow> pane_handle x \<noteq> None \<and> \<not> accepts_stop_request (pane_intent x)
               | None \<Rightarrow> False) then s
      else if is_live s p then request_graceful_transition w p request_stop False s
      else settle_stopped p s)"

definition stop_pane :: "world \<Rightarrow> pane_id \<Rightarrow> supervisor \<Rightarrow> supervisor" where
  "stop_pane w p s =
     (case asked_of_launch (\<lambda>book. record_intent book p Intent_Stop) (supersede_retry_adoption p s) of
        (s, asked) \<Rightarrow> if asked then s else stop_settled w p s)"

definition kill_live :: "world \<Rightarrow> pane_id \<Rightarrow> supervisor \<Rightarrow> supervisor" where
  "kill_live w p s =
     (let s = advance_shutdown_generation p s;
          s = on_pane (change_intent request_stop) p s
      in case Option.bind (pane_of s p) pane_handle of
           None \<Rightarrow> notify s Level_Error (Some p) STOP_DELIVERY_FAILED_NOTICE
         | Some handle \<Rightarrow>
             (let delivered = world_kills w handle;
                  s = emit (Killing handle) s;
                  s = on_pane (change_intent (delivery False delivered)) p s
              in if delivered then become p Stopping s
                 else notify s Level_Error (Some p) STOP_DELIVERY_FAILED_NOTICE))"

definition force_kill_pane :: "world \<Rightarrow> pane_id \<Rightarrow> supervisor \<Rightarrow> supervisor" where
  "force_kill_pane w p s =
     (case asked_of_launch (\<lambda>book. record_intent book p Intent_Kill) (supersede_retry_adoption p s) of
        (s, asked) \<Rightarrow>
          if asked then s
          else if is_unsupervised s p then stop_unsupervised w p True s
          else if \<not> is_live s p then settle_stopped p s
          else kill_live w p s)"

text \<open>A restart of a pane that does not run, counted where the launch does not count it.\<close>

definition restart_idle :: "world \<Rightarrow> pane_id \<Rightarrow> launch_environment option \<Rightarrow> supervisor \<Rightarrow> supervisor" where
  "restart_idle w p environment s =
     (let counted_by_spawn = (state_of s p = Some Restarting);
          before = generation_of s p;
          s = spawn_with w p environment s
      in if counted_by_spawn \<or> generation_of s p = before then s
         else if is_live s p then on_restarts (\<lambda>book. count_restart book p) s
         else on_launches (\<lambda>book. LaunchBook_mark_restarting book p) s)"

definition with_environment :: "pane_id \<Rightarrow> launch_environment option \<Rightarrow> supervisor \<Rightarrow> supervisor" where
  "with_environment p environment s =
     (case environment of Some env \<Rightarrow> set_launch_environment p env s | None \<Rightarrow> s)"

definition restart_pane :: "world \<Rightarrow> pane_id \<Rightarrow> launch_environment option \<Rightarrow> supervisor \<Rightarrow> supervisor" where
  "restart_pane w p environment s =
     (case asked_of_launch (\<lambda>book. record_intent book p Intent_Restart) s of
        (s, asked) \<Rightarrow>
          if asked then with_environment p environment s
          else
            let s = on_restarts (\<lambda>book. end_streaks book p) s
            in if is_live s p
               then (if (case pane_of s p of
                           Some x \<Rightarrow> \<not> accepts_restart_request (pane_intent x)
                         | None \<Rightarrow> False) then s
                     else request_graceful_transition w p request_restart True (with_environment p environment s))
               else restart_idle w p environment s)"

definition start_pane :: "world \<Rightarrow> pane_id \<Rightarrow> launch_environment \<Rightarrow> supervisor \<Rightarrow> supervisor" where
  "start_pane w p environment s =
     (if is_live s p \<or> is_starting s p then s
      else spawn_with w p (Some environment) (on_restarts (\<lambda>book. end_streaks book p) s))"

definition is_paused :: "supervisor \<Rightarrow> pane_id \<Rightarrow> bool" where
  "is_paused s p \<longleftrightarrow> state_of s p = Some Paused"

definition signal_pause :: "world \<Rightarrow> pane_id \<Rightarrow> bool \<Rightarrow> supervisor \<Rightarrow> supervisor" where
  "signal_pause w p pause s =
     (case pane_of s p of
        None \<Rightarrow> s
      | Some x \<Rightarrow>
          if pane_intent x \<noteq> FollowPolicy then s
          else case pane_handle x of
                 None \<Rightarrow> s
               | Some handle \<Rightarrow>
                   if pause then
                     let s = emit (Pausing handle) s
                     in if world_pauses w handle then become p Paused s
                        else notify s Level_Error (Some p) (utf ''could not pause the process'')
                   else
                     let s = emit (Resuming handle) s
                     in if world_resumes w handle then become p Running s
                        else notify s Level_Error (Some p) (utf ''could not resume the process''))"

definition pause_pane :: "world \<Rightarrow> pane_id \<Rightarrow> supervisor \<Rightarrow> supervisor" where
  "pause_pane w p s =
     (case asked_of_launch (\<lambda>book. record_suspend book p True) s of
        (s, asked) \<Rightarrow> if asked \<or> is_paused s p then s else signal_pause w p True s)"

definition resume_pane :: "world \<Rightarrow> pane_id \<Rightarrow> supervisor \<Rightarrow> supervisor" where
  "resume_pane w p s =
     (case asked_of_launch (\<lambda>book. record_suspend book p False) s of
        (s, asked) \<Rightarrow> if asked \<or> \<not> is_paused s p then s else signal_pause w p False s)"

definition handle_respawn :: "world \<Rightarrow> pane_id \<Rightarrow> spawn_generation \<Rightarrow> supervisor \<Rightarrow> supervisor" where
  "handle_respawn w p generation s = (if generation_of s p = Some generation then spawn w p s else s)"

definition handle_force_stop ::
    "world \<Rightarrow> pane_id \<Rightarrow> spawn_generation \<Rightarrow> shutdown_generation \<Rightarrow> supervisor \<Rightarrow> supervisor" where
  "handle_force_stop w p spawn_generation shutdown_generation s =
     (if generation_of s p \<noteq> Some spawn_generation then s
      else case pane_of s p of
             None \<Rightarrow> s
           | Some x \<Rightarrow>
               if pane_shutdown x \<noteq> shutdown_generation \<or> \<not> awaits_force_stop (pane_intent x) then s
               else
                 let s = on_pane advance_shutdown p s
                 in if pane_unsupervised x \<noteq> None then escalate_unsupervised w p s
                    else case pane_handle x of
                           None \<Rightarrow> s
                         | Some handle \<Rightarrow>
                             (let s = emit (Killing handle) s
                              in if world_kills w handle
                                 then notify (become p Stopping s) Level_Warning (Some p)
                                        (utf ''graceful shutdown timed out; force-killed'')
                                 else notify (on_pane (change_intent force_stop_delivery_failed) p s)
                                        Level_Error (Some p) STOP_DELIVERY_FAILED_NOTICE))"

section \<open>The answers of launches\<close>

definition set_membership :: "pane_id \<Rightarrow> config_membership \<Rightarrow> supervisor \<Rightarrow> supervisor" where
  "set_membership p membership s =
     on_pane (\<lambda>x. x\<lparr>pane_membership := membership\<rparr>) p
       (on_launches (\<lambda>book. record_membership book p membership) s)"

definition apply_suspend :: "world \<Rightarrow> pane_id \<Rightarrow> bool option \<Rightarrow> supervisor \<Rightarrow> supervisor" where
  "apply_suspend w p suspend s =
     (case suspend of Some True \<Rightarrow> pause_pane w p s | Some False \<Rightarrow> resume_pane w p s | None \<Rightarrow> s)"

definition apply_intent :: "world \<Rightarrow> pane_id \<Rightarrow> pending_intent option \<Rightarrow> supervisor \<Rightarrow> supervisor" where
  "apply_intent w p intent s =
     (case intent of
        Some Intent_Stop \<Rightarrow> stop_pane w p s
      | Some Intent_Kill \<Rightarrow> force_kill_pane w p s
      | Some Intent_Restart \<Rightarrow> restart_pane w p None s
      | None \<Rightarrow> s)"

definition apply_pending ::
    "world \<Rightarrow> pane_id \<Rightarrow> config_membership option \<Rightarrow> bool option \<Rightarrow> pending_intent option \<Rightarrow> supervisor \<Rightarrow> supervisor" where
  "apply_pending w p membership suspend intent s =
     (let s = (case membership of
                 Some m \<Rightarrow> on_pane (\<lambda>x. x\<lparr>pane_membership := m\<rparr>) p s
               | None \<Rightarrow> s)
      in if membership = Some RetireOnExit \<and> \<not> holds_process s p then retire_pane p s
         else apply_intent w p intent (apply_suspend w p suspend s))"

definition take_launch :: "pane_id \<Rightarrow> spawn_generation \<Rightarrow> supervisor \<Rightarrow> supervisor \<times> pending_launch option" where
  "take_launch p generation s =
     (if generation_of s p = Some generation
      then (case LaunchBook_take (sup_launches s) p generation of (book, l) \<Rightarrow> (s\<lparr>sup_launches := book\<rparr>, l))
      else (s, None))"

datatype stale_release = Release_Detach | Release_Discard

definition stale_release_of :: "pane_id \<Rightarrow> spawn_generation \<Rightarrow> supervisor \<Rightarrow> supervisor \<times> stale_release" where
  "stale_release_of p generation s =
     (case LaunchBook_take (sup_launches s) p generation of
        (book, l) \<Rightarrow>
          (s\<lparr>sup_launches := book\<rparr>,
           if l \<noteq> None \<and> lb_detaching book then Release_Detach else Release_Discard))"

definition release_stale :: "stale_release \<Rightarrow> process_handle \<Rightarrow> supervisor \<Rightarrow> supervisor" where
  "release_stale self handle s =
     (case self of
        Release_Detach \<Rightarrow> emit (Dropped At_Stale_Release handle) s
      | Release_Discard \<Rightarrow> emit (Abandoning handle) s)"

definition spawn_succeeded ::
    "world \<Rightarrow> pane_id \<Rightarrow> spawn_generation \<Rightarrow> process_handle \<Rightarrow> bool \<Rightarrow> process_output list \<Rightarrow> supervisor \<Rightarrow>
     supervisor" where
  "spawn_succeeded w p generation handle restarting early s =
     (let s = (if restarting then on_restarts (\<lambda>book. count_restart book p) s else s);
          s = on_restarts (\<lambda>book. spawned book p) s;
          s = release_held_exit w p s;
          (s, backlog) = install_pane w p handle s;
          s = store_end w p None s;
          pid = Option.bind (Option.bind (pane_of s p) pane_handle) handle_process_id;
          s = record_event s (Some p) Event_Started
                (unwrap_or (map_option (\<lambda>pid. utf ''pid '' @ show_nat pid) pid) []);
          s = arm_probes p s
      in replay w p generation backlog early s)"

definition spawn_failed_to_start :: "world \<Rightarrow> pane_id \<Rightarrow> spawn_generation \<Rightarrow> ustring \<Rightarrow> supervisor \<Rightarrow> supervisor" where
  "spawn_failed_to_start w p generation error s =
     (let s = deactivate p s;
          message = utf ''could not start the process: '' @ error;
          (book, first) = spawn_failed (sup_restarts s) p;
          s = s\<lparr>sup_restarts := book\<rparr>;
          s = (if first then notify (alert_desktop s p message) Level_Error (Some p) message else s);
          next_state = (if workspace_should_restart (sup_workspace s) p FAILED_UNKNOWN then Restarting else Crashed);
          s = end_run w p generation FailedToStart next_state message s;
          s = store_end w p (Some FAILED_UNKNOWN) s;
          s = become p next_state s
      in if next_state = Restarting then schedule_restart w p (world_now w) s else s)"

definition install_spawned ::
    "world \<Rightarrow> pane_id \<Rightarrow> spawn_generation \<Rightarrow> ustring + process_handle \<Rightarrow> bool \<Rightarrow> process_output list \<Rightarrow> supervisor \<Rightarrow>
     supervisor \<times> bool" where
  "install_spawned w p generation result restarting early s =
     (case result of
        Inr handle \<Rightarrow>
          (let s = spawn_succeeded w p generation handle restarting early s in (s, runs_launch s p generation))
      | Inl error \<Rightarrow> (spawn_failed_to_start w p generation error s, False))"

definition settle_spawn ::
    "world \<Rightarrow> pane_id \<Rightarrow> spawn_generation \<Rightarrow> ustring + process_handle \<Rightarrow> supervisor \<Rightarrow> supervisor" where
  "settle_spawn w p generation result s =
     (case take_launch p generation s of
        (s, None) \<Rightarrow>
          (case (stale_release_of p generation s, result) of
             ((s, Release_Detach), Inr handle) \<Rightarrow>
               release_stale Release_Detach handle (release_held_exit w p s)
           | ((s, Release_Detach), Inl _) \<Rightarrow> on_attach (\<lambda>book. fst (AttachBook_release book p)) s
           | ((s, Release_Discard), Inr handle) \<Rightarrow> release_stale Release_Discard handle s
           | ((s, Release_Discard), Inl _) \<Rightarrow> s)
      | (s, Some l) \<Rightarrow>
          (case launch_purpose l of
             Purpose_Adopt _ \<Rightarrow> (case result of Inr handle \<Rightarrow> emit (Abandoning handle) s | Inl _ \<Rightarrow> s)
           | Purpose_Spawn restarting \<Rightarrow>
               (let (s, installed) = install_spawned w p generation result restarting (launch_early l) s
                in apply_pending w p (launch_membership l) (if installed then launch_suspend l else None)
                     (launch_intent l) s)))"

definition handle_spawned ::
    "world \<Rightarrow> pane_id \<Rightarrow> spawn_generation \<Rightarrow> ustring + process_handle \<Rightarrow> supervisor \<Rightarrow> supervisor" where
  "handle_spawned w p generation result s = settle_spawn w p generation result s"

definition handle_launch_blocked :: "world \<Rightarrow> pane_id \<Rightarrow> spawn_generation \<Rightarrow> port_block \<Rightarrow> supervisor \<Rightarrow> supervisor" where
  "handle_launch_blocked w p generation block s =
     (case take_launch p generation s of
        (s, None) \<Rightarrow> fst (stale_release_of p generation s)
      | (s, Some l) \<Rightarrow>
          (let s = forget_readiness p s;
               s = block_launch p block s;
               s = end_waits p (Some generation) Wait_NotRunning Blocked s
           in apply_pending w p (launch_membership l) None (launch_intent l) s))"

section \<open>Adopting\<close>

definition rearm_force_stop :: "pane_id \<Rightarrow> supervisor \<Rightarrow> supervisor" where
  "rearm_force_stop p s =
     (case stop_policy_of s p of
        None \<Rightarrow> s
      | Some policy \<Rightarrow>
          (let s = advance_shutdown_generation p s
           in case (generation_of s p, pane_of s p) of
                (Some generation, Some x) \<Rightarrow>
                  schedule_force_stop p generation (pane_shutdown x) (grace_period policy) s
              | _ \<Rightarrow> s))"

definition report_superseded_failure :: "world \<Rightarrow> holder_record \<Rightarrow> ustring \<Rightarrow> supervisor \<Rightarrow> supervisor" where
  "report_superseded_failure w r error s =
     (case child_runs_or_collect w r s of
        (s, running) \<Rightarrow>
          if running
          then notify_process s Level_Error (Some (hr_process r))
                 (with_pids (ADOPT_FAILED_NOTICE @ LEFT_RUNNING @ utf '': '' @ error) r)
          else s)"

definition collect_once_stopped :: "world \<Rightarrow> pane_id \<Rightarrow> holder_record \<Rightarrow> supervisor \<Rightarrow> supervisor" where
  "collect_once_stopped w p r s =
     (if running_unsupervised_pid w s p = Some (hr_child_pid r)
      then s\<lparr>sup_collect_after_stop := (sup_collect_after_stop s)(p \<mapsto> hr_socket r)\<rparr>
      else emit (Collecting (hr_socket r) False) s)"

definition restore_carried :: "pane_id \<Rightarrow> carried_pane \<Rightarrow> supervisor \<Rightarrow> supervisor" where
  "restore_carried p carried s =
     (let s = on_pane (restore carried) p s;
          s = (case carried_state carried of Some state \<Rightarrow> become p state s | None \<Rightarrow> s)
      in if awaits_force_stop (carried_intent carried) then rearm_force_stop p s else s)"

definition adoption_succeeded ::
    "world \<Rightarrow> pane_id \<Rightarrow> spawn_generation \<Rightarrow> holder_record \<Rightarrow> process_handle \<Rightarrow> carried_pane option \<Rightarrow>
     process_output list \<Rightarrow> supervisor \<Rightarrow> supervisor" where
  "adoption_succeeded w p generation r handle carried early s =
     (let s = s\<lparr>sup_retries := AdoptionRetries_forget (sup_retries s) p\<rparr>;
          s = s\<lparr>sup_replays := (sup_replays s)(p := handle_output_end handle)\<rparr>;
          (s, backlog) = install_pane w p handle s;
          s = (if carried = None
               then adopt_run w p (on_restarts (\<lambda>book. take_history book p (hr_history r)) s) else s);
          s = arm_probes p s;
          s = (case carried of Some c \<Rightarrow> restore_carried p c s | None \<Rightarrow> s);
          s = emit (Start_Replay p) s
      in replay w p generation backlog early s)"

text \<open>An adoption that failed: what happens to the process, before what was asked meanwhile.\<close>

definition adoption_failed ::
    "world \<Rightarrow> pane_id \<Rightarrow> holder_record \<Rightarrow> ustring \<Rightarrow> supervisor \<Rightarrow> supervisor" where
  "adoption_failed w p r error s =
     (case leave_unsupervised w p (hr_child_pid r) (hr_child_start_token r) s of
        (s, True) \<Rightarrow> adoption_failed_unsupervised p r error s
      | (s, False) \<Rightarrow>
          notify (collect_exit r s) Level_Error (Some p)
            (with_pids (ADOPT_FAILED_NOTICE @ SINCE_EXITED @ utf '': '' @ error) r))"

definition settle_adoption ::
    "world \<Rightarrow> pane_id \<Rightarrow> spawn_generation \<Rightarrow> holder_record \<Rightarrow> ustring + process_handle \<Rightarrow> supervisor \<Rightarrow> supervisor" where
  "settle_adoption w p generation r result s =
     (case take_launch p generation s of
        (s, None) \<Rightarrow>
          (case take_stopped_adoption (sup_launches s) p generation of
             (book, True) \<Rightarrow>
               (let s = s\<lparr>sup_launches := book\<rparr>
                in case result of
                     Inr handle \<Rightarrow> collect_once_stopped w p r (emit (Dropped At_Stopped_Adoption handle) s)
                   | Inl error \<Rightarrow> report_superseded_failure w r error s)
           | (book, False) \<Rightarrow>
               (case (stale_release_of p generation s, result) of
                  ((s, release), Inr handle) \<Rightarrow> release_stale release handle s
                | ((s, release), Inl error) \<Rightarrow> report_superseded_failure w r error s))
      | (s, Some l) \<Rightarrow>
          (case launch_purpose l of
             Purpose_Spawn _ \<Rightarrow> (case result of Inr handle \<Rightarrow> emit (Abandoning handle) s | Inl _ \<Rightarrow> s)
           | Purpose_Adopt carried \<Rightarrow>
               (let carried = map_option (\<lambda>c. with_membership c (launch_membership l)) carried
                in case (result, carried) of
                     (Inl error, Some c) \<Rightarrow>
                       (let s = reconnect_failed w p c (Some r) (Some error)
                                  (become p (launch_prior_state l) s)
                        in if process_of s p = None then s
                           else apply_pending w p (launch_membership l) None (launch_intent l) s)
                   | (Inl error, None) \<Rightarrow>
                       apply_pending w p (launch_membership l) None (launch_intent l)
                         (adoption_failed w p r error (become p (launch_prior_state l) s))
                   | (Inr handle, _) \<Rightarrow>
                       (let s = adoption_succeeded w p generation r handle carried (launch_early l) s
                        in apply_pending w p (launch_membership l)
                             (if runs_launch s p generation then launch_suspend l else None)
                             (launch_intent l) s))))"

definition handle_adopted ::
    "world \<Rightarrow> pane_id \<Rightarrow> spawn_generation \<Rightarrow> holder_record \<Rightarrow> ustring + process_handle \<Rightarrow> supervisor \<Rightarrow> supervisor" where
  "handle_adopted w p generation r result s =
     emit Release_Adoption_Waits (settle_adoption w p generation r result s)"

definition settle_superseded_search :: "world \<Rightarrow> pane_id \<Rightarrow> holder_record \<Rightarrow> supervisor \<Rightarrow> supervisor" where
  "settle_superseded_search w p r s =
     (case child_runs_or_collect w r s of
        (s, False) \<Rightarrow> s
      | (s, True) \<Rightarrow>
          (let s = (if pane_named w s (hr_process r) = Some p \<and> \<not> holds_process s p
                    then (case leave_unsupervised w p (hr_child_pid r) (hr_child_start_token r) s of
                            (s, left) \<Rightarrow> if left then schedule_adoption_retry p s else s)
                    else s)
           in notify_process s Level_Error (Some (hr_process r))
                (with_pids (ADOPT_FAILED_NOTICE @ LEFT_RUNNING) r)))"

text \<open>The search of a reconnect found no holder that serves this pane.\<close>

definition reconnect_unlocated :: "world \<Rightarrow> pane_id \<Rightarrow> pending_launch \<Rightarrow> carried_pane \<Rightarrow> supervisor \<Rightarrow> supervisor" where
  "reconnect_unlocated w p l carried s =
     (let s = reconnect_failed w p (with_membership carried (launch_membership l)) None None
                (become p (launch_prior_state l) s)
      in if process_of s p = None then s
         else apply_pending w p (launch_membership l) None (launch_intent l) s)"

definition reconnect_located ::
    "world \<Rightarrow> pane_id \<Rightarrow> spawn_generation \<Rightarrow> pending_launch \<Rightarrow> holder_record option \<Rightarrow> supervisor \<Rightarrow> supervisor" where
  "reconnect_located w p generation l r s =
     (case launch_purpose l of
        Purpose_Adopt (Some carried) \<Rightarrow>
          (case r of
             Some r \<Rightarrow>
               if pane_named w s (hr_process r) = Some p \<and> \<not> holds_process s p
               then emit (Adopting p generation r True) (on_launches (\<lambda>book. LaunchBook_begin book p l) s)
               else reconnect_unlocated w p l carried s
           | None \<Rightarrow> reconnect_unlocated w p l carried s)
      | _ \<Rightarrow> s)"

definition handle_reconnect_located ::
    "world \<Rightarrow> pane_id \<Rightarrow> spawn_generation \<Rightarrow> holder_record option \<Rightarrow> supervisor \<Rightarrow> supervisor" where
  "handle_reconnect_located w p generation r s =
     (let detaching = lb_detaching (sup_launches s);
          superseded = (\<lambda>s. case r of
                              Some r \<Rightarrow> if detaching then s else settle_superseded_search w p r s
                            | None \<Rightarrow> s)
      in case take_launch p generation s of
           (s, None) \<Rightarrow> superseded (s\<lparr>sup_launches := fst (LaunchBook_take (sup_launches s) p generation)\<rparr>)
         | (s, Some l) \<Rightarrow>
             if detaching \<or> \<not> sup_adopter s then superseded s
             else reconnect_located w p generation l r s)"

definition begin_retry_adoption :: "pane_id \<Rightarrow> holder_record \<Rightarrow> supervisor \<Rightarrow> supervisor" where
  "begin_retry_adoption p r s =
     (if \<not> sup_adopter s then s
      else
        let s = bump_generation p s;
            generation = current_generation s p;
            s = set_launch_environment p (bmap_extend [] (hr_launch_environment r)) s;
            s = on_launches (\<lambda>book. LaunchBook_begin book p
                  (PendingLaunch_new generation Unsupervised (Purpose_Adopt None))) s
        in emit (Adopting p generation r False) s)"

definition handle_adoption_retry_due :: "world \<Rightarrow> pane_id \<Rightarrow> retry_id \<Rightarrow> supervisor \<Rightarrow> supervisor" where
  "handle_adoption_retry_due w p attempt s =
     (if is_current (sup_retries s) p attempt \<and> retryable_pid w s p \<noteq> None
      then probe_adoption w p attempt False s else s)"

definition handle_adoption_probed ::
    "world \<Rightarrow> pane_id \<Rightarrow> retry_id \<Rightarrow> bool \<Rightarrow> holder_record option \<Rightarrow> supervisor \<Rightarrow> supervisor" where
  "handle_adoption_probed w p attempt asked r s =
     (if \<not> is_current (sup_retries s) p attempt then s
      else case retryable_pid w s p of
             None \<Rightarrow> s
           | Some pid \<Rightarrow>
               (let unserved = schedule_adoption_retry p
                                 (if asked then refuse_unsupervised_start p pid s else s)
                in case r of
                     Some r \<Rightarrow> if hr_child_pid r = pid then begin_retry_adoption p r s else unserved
                   | None \<Rightarrow> unserved))"

definition stop_removed :: "world \<Rightarrow> pane_id \<Rightarrow> supervisor \<Rightarrow> supervisor" where
  "stop_removed w p s =
     (let s = notify s Level_Warning (Some p) (utf ''stopped: removed from the project'');
          s = set_membership p RetireOnExit s
      in case asked_of_launch (\<lambda>book. record_intent book p Intent_Stop) s of
           (s, asked) \<Rightarrow>
             if asked then s else if holds_process s p then stop_pane w p s else retire_pane p s)"

definition add_removed_pane :: "holder_record \<Rightarrow> supervisor \<Rightarrow> supervisor \<times> pane_id" where
  "add_removed_pane r s =
     (let p = fold max (map (\<lambda>process. proc_id process + 1) (sup_workspace s) @
                        map (\<lambda>(pane, _). pane + 1) (sup_generations s)) 0;
          spec = \<lparr>spec_name = hr_process r, spec_command = hr_command r, spec_working_dir = None,
                  spec_description = None, spec_environment = env_empty, spec_autostart = False,
                  spec_restart = Policy_Never, spec_stop = hr_stop r, spec_ready = None, spec_ports = []\<rparr>
      in (s\<lparr>sup_workspace := workspace_push (sup_workspace s) (to_process spec p)\<rparr>, p))"

definition adoptable_pane :: "world \<Rightarrow> holder_record \<Rightarrow> supervisor \<Rightarrow> supervisor \<times> pane_id option" where
  "adoptable_pane w r s =
     (case pane_named w s (hr_process r) of
        None \<Rightarrow> (case add_removed_pane r s of (s, p) \<Rightarrow> (s, Some p))
      | Some p \<Rightarrow>
          if holds_process s p
          then (case child_runs_or_collect w r s of
                  (s, running) \<Rightarrow>
                    ((if running
                      then notify s Level_Warning (Some p)
                             (with_pids (utf ''a second running copy of this process was found; it was left running unsupervised'') r)
                      else s), None))
          else (s, Some p))"

definition begin_adoption :: "world \<Rightarrow> holder_record \<Rightarrow> pane_id \<Rightarrow> bool \<Rightarrow> supervisor \<Rightarrow> supervisor" where
  "begin_adoption w r p gone s =
     (let s = set_launch_environment p (bmap_extend [] (hr_launch_environment r)) s;
          s = bump_generation p s;
          generation = current_generation s p;
          stopped = (if gone then stop_removed w p else id)
      in if \<not> sup_adopter s then
           (case leave_unsupervised w p (hr_child_pid r) (hr_child_start_token r) s of
              (s, running) \<Rightarrow>
                (let s = (if running then s else collect_exit r s);
                     s = notify s Level_Error (Some p)
                           (with_pids (utf ''this service cannot adopt running processes'' @ adoption_outcome running) r)
                 in stopped s))
         else
           let prior_state = unwrap_or (state_of s p) Pending;
               s = on_launches (\<lambda>book. LaunchBook_begin book p
                     (PendingLaunch_new generation prior_state (Purpose_Adopt None))) s;
               s = become p Starting s;
               s = stopped s
           in emit (Adopting p generation r False) s)"

definition adopt :: "world \<Rightarrow> holder_record \<Rightarrow> supervisor \<Rightarrow> supervisor" where
  "adopt w r s =
     (let gone = (pane_named w s (hr_process r) = None)
      in case adoptable_pane w r s of
           (s, None) \<Rightarrow> s
         | (s, Some p) \<Rightarrow> begin_adoption w r p gone s)"

section \<open>Commands\<close>

definition on_named :: "world \<Rightarrow> ustring \<Rightarrow> (pane_id \<Rightarrow> supervisor \<Rightarrow> supervisor) \<Rightarrow> supervisor \<Rightarrow> supervisor" where
  "on_named w name act s = (case resolve w s name of (s, Some p) \<Rightarrow> act p s | (s, None) \<Rightarrow> s)"

definition start_process :: "world \<Rightarrow> ustring \<Rightarrow> launch_environment \<Rightarrow> supervisor \<Rightarrow> supervisor" where
  "start_process w name environment = on_named w name (\<lambda>p. start_pane w p environment)"

definition stop_process :: "world \<Rightarrow> ustring \<Rightarrow> supervisor \<Rightarrow> supervisor" where
  "stop_process w name = on_named w name (stop_pane w)"

definition restart_process :: "world \<Rightarrow> ustring \<Rightarrow> launch_environment \<Rightarrow> supervisor \<Rightarrow> supervisor" where
  "restart_process w name environment = on_named w name (\<lambda>p. restart_pane w p (Some environment))"

definition pause_process :: "world \<Rightarrow> ustring \<Rightarrow> supervisor \<Rightarrow> supervisor" where
  "pause_process w name = on_named w name (pause_pane w)"

definition resume_process :: "world \<Rightarrow> ustring \<Rightarrow> supervisor \<Rightarrow> supervisor" where
  "resume_process w name = on_named w name (resume_pane w)"

definition force_kill :: "world \<Rightarrow> ustring \<Rightarrow> supervisor \<Rightarrow> supervisor" where
  "force_kill w name = on_named w name (force_kill_pane w)"

record batch_outcome =
  outcome_acted :: "ustring list"
  outcome_refused :: "refusal list"
  outcome_already_running :: "ustring list"
  outcome_stopping :: "ustring list"
  outcome_paused :: "ustring list"

definition finish_batch :: "supervisor \<Rightarrow> ustring list \<Rightarrow> refusal list \<Rightarrow> supervisor \<times> batch_outcome" where
  "finish_batch s acted left_stopped =
     (s\<lparr>sup_batch := None\<rparr>,
      \<lparr>outcome_acted = acted,
       outcome_refused = filter (\<lambda>r. refusal_name r \<notin> set acted) (unwrap_or (sup_batch s) []) @ left_stopped,
       outcome_already_running = [], outcome_stopping = [], outcome_paused = []\<rparr>)"

definition autostart_panes :: "world \<Rightarrow> supervisor \<Rightarrow> pane_id list" where
  "autostart_panes w s =
     filter (\<lambda>p. \<not> is_live s p \<and> \<not> is_starting s p \<and> running_unsupervised_pid w s p = None)
       (map proc_id (filter proc_autostart (sup_workspace s)))"

definition up_pane :: "world \<Rightarrow> launch_environment \<Rightarrow> pane_id \<Rightarrow> supervisor \<Rightarrow> supervisor" where
  "up_pane w environment p s =
     spawn_with w p (Some environment) (on_restarts (\<lambda>book. end_crash_streak book p) s)"

definition up :: "world \<Rightarrow> launch_environment \<Rightarrow> supervisor \<Rightarrow> supervisor \<times> batch_outcome" where
  "up w environment s =
     (let started = (\<lambda>s p. is_live s p \<or> is_starting s p);
          before = filter (started s) (map proc_id (sup_workspace s));
          found_in = (\<lambda>P. map proc_name (filter (\<lambda>process.
                        proc_autostart process \<and> proc_id process \<in> set before \<and>
                        \<not> is_unsupervised s (proc_id process) \<and> P (proc_state process)) (sup_workspace s)));
          s' = fold (up_pane w environment) (autostart_panes w s) (s\<lparr>sup_batch := Some []\<rparr>);
          acted = map proc_name (filter (\<lambda>process.
                    proc_id process \<notin> set before \<and> started s' (proc_id process)) (sup_workspace s'));
          left_unsupervised = List.map_filter (\<lambda>process. unsupervised_refusal w s' (proc_id process))
                                (filter proc_autostart (sup_workspace s'));
          (s', outcome) = finish_batch s' acted left_unsupervised
      in (s', outcome\<lparr>outcome_already_running := found_in (\<lambda>state. state \<noteq> Stopping \<and> state \<noteq> Paused),
                      outcome_stopping := found_in (\<lambda>state. state = Stopping),
                      outcome_paused := found_in (\<lambda>state. state = Paused)\<rparr>))"

definition refused_so_far :: "supervisor \<Rightarrow> ustring list" where
  "refused_so_far s = map refusal_name (unwrap_or (sup_batch s) [])"

definition down :: "world \<Rightarrow> supervisor \<Rightarrow> supervisor \<times> batch_outcome" where
  "down w s =
     (let running = filter (\<lambda>process. may_be_running (proc_state process)) (sup_workspace s);
          s' = fold (stop_pane w) (map proc_id running) (s\<lparr>sup_batch := Some []\<rparr>);
          acted = filter (\<lambda>name. name \<notin> set (refused_so_far s')) (map proc_name running)
      in finish_batch s' acted [])"

text \<open>The ends of earlier runs, by the name of their process.\<close>

definition restore_end :: "world \<Rightarrow> ustring \<times> exit_outcome \<times> system_time \<Rightarrow> supervisor \<Rightarrow> supervisor" where
  "restore_end w run s =
     (case run of
        (name, outcome, at) \<Rightarrow>
          (case pane_named w s name of
             None \<Rightarrow> s
           | Some p \<Rightarrow>
               if state_of s p \<noteq> Some Pending then s
               else become p (if is_failure outcome then Crashed else Exited)
                      (on_restarts (\<lambda>book. take_stored_end book p outcome at) s)))"

definition restore_ends :: "world \<Rightarrow> (ustring \<times> exit_outcome \<times> system_time) list \<Rightarrow> supervisor \<Rightarrow> supervisor" where
  "restore_ends w runs s = fold (restore_end w) runs s"

definition retire_removed :: "world \<Rightarrow> pane_id \<Rightarrow> supervisor \<Rightarrow> supervisor" where
  "retire_removed w p s = stop_pane w p (set_membership p RetireOnExit s)"

definition apply_stack :: "world \<Rightarrow> stack \<Rightarrow> supervisor \<Rightarrow> supervisor" where
  "apply_stack w stack s =
     (let s = s\<lparr>sup_project := stack_project stack\<rparr>;
          sync = StackSync_apply (world_nfc w) (sup_workspace s) (stack_processes stack) (holds_process s);
          s = s\<lparr>sup_workspace := sync_workspace sync\<rparr>;
          s = fold retire_pane (sync_removed sync) s;
          kept = filter (\<lambda>p. p \<notin> set (sync_added sync) \<and> p \<notin> set (sync_retiring sync))
                   (map proc_id (sup_workspace s));
          s = fold (\<lambda>p. set_membership p Tracked) kept s
      in fold (retire_removed w) (sync_retiring sync) s)"

section \<open>The idle stop\<close>

definition set_shells :: "u32 \<Rightarrow> supervisor \<Rightarrow> supervisor" where
  "set_shells shells s = s\<lparr>sup_occupants := shells\<rparr>"

definition arm_idle :: "instant \<Rightarrow> supervisor \<Rightarrow> supervisor" where
  "arm_idle now s = s\<lparr>sup_left_at := Some now\<rparr>"

definition hold_up :: "supervisor \<Rightarrow> supervisor" where
  "hold_up s = s\<lparr>sup_left_at := None\<rparr>"

definition sup_idle_stop :: "supervisor \<Rightarrow> idle_stop" where
  "sup_idle_stop s = idle_stop_or (sup_project s) (set_idle_stop (sup_settings s))"

definition idle_deadline :: "supervisor \<Rightarrow> instant option" where
  "idle_deadline s =
     (case (idle_stop_after (sup_idle_stop s), sup_left_at s) of
        (Some after, Some left) \<Rightarrow> Some (left + after)
      | _ \<Rightarrow> None)"

definition idle_stop_if_due :: "world \<Rightarrow> instant \<Rightarrow> supervisor \<Rightarrow> supervisor \<times> batch_outcome option" where
  "idle_stop_if_due w now s =
     (case idle_deadline s of
        None \<Rightarrow> (s, None)
      | Some deadline \<Rightarrow>
          if now < deadline then (s, None)
          else
            let s = s\<lparr>sup_left_at := None\<rparr>
            in if \<not> list_ex (\<lambda>process. may_be_running (proc_state process)) (sup_workspace s) then (s, None)
               else (case down w s of
                       (s, outcome) \<Rightarrow>
                         (s\<lparr>sup_idle_stopping := set (outcome_acted outcome)\<rparr>, Some outcome)))"

definition idle_stopping :: "ustring list \<Rightarrow> supervisor \<Rightarrow> supervisor \<times> ustring list" where
  "idle_stopping stopping s =
     (let s = s\<lparr>sup_idle_stopping := {name \<in> sup_idle_stopping s. name \<in> set stopping}\<rparr>
      in (s, filter (\<lambda>name. name \<in> sup_idle_stopping s) stopping))"

definition forget_idle_stopping :: "supervisor \<Rightarrow> supervisor" where
  "forget_idle_stopping s = s\<lparr>sup_idle_stopping := {}\<rparr>"

section \<open>The service's own commands\<close>

definition Supervisor_new ::
    "world \<Rightarrow> stack \<Rightarrow> settings \<Rightarrow> bool \<Rightarrow> bool \<Rightarrow> bool \<Rightarrow> bool \<Rightarrow> bool \<Rightarrow> supervisor" where
  "Supervisor_new w stack settings adopter notifier probes_ports probes recorder =
     \<lparr>sup_project = stack_project stack,
      sup_workspace = sync_workspace (StackSync_apply (world_nfc w) [] (stack_processes stack) (\<lambda>_. False)),
      sup_adopter = adopter, sup_retries = \<lparr>ar_panes = Map.empty, ar_next = 0\<rparr>, sup_panes = [],
      sup_generations = [],
      sup_restarts = \<lparr>rb_attempts = Map.empty, rb_restarts = Map.empty, rb_last_exits = Map.empty,
                      rb_run_ends = Map.empty, rb_stored_ends = Map.empty, rb_crash_streaks = {},
                      rb_failing_spawns = {}\<rparr>,
      sup_launches = \<lparr>lb_pending = Map.empty, lb_detaching = False, lb_stopped_adoptions = Map.empty,
                      lb_environments = Map.empty\<rparr>,
      sup_batch = None, sup_notifier = notifier, sup_failing_reads = {},
      sup_metrics = \<lparr>mb_usage = Map.empty, mb_ports = Map.empty, mb_held_ports = Map.empty,
                     mb_blocks = Map.empty, mb_probes_ports = probes_ports\<rparr>,
      sup_attach = \<lparr>ab_attached = Map.empty, ab_held_exits = []\<rparr>, sup_settings = settings,
      sup_probes = probes, sup_collect_after_stop = Map.empty, sup_replays = Map.empty,
      sup_readiness = Map.empty, sup_recorder = recorder, sup_occupants = 0, sup_left_at = None,
      sup_idle_stopping = {}, sup_out = []\<rparr>"

definition apply_settings :: "settings \<Rightarrow> supervisor \<Rightarrow> supervisor" where
  "apply_settings settings s = s\<lparr>sup_settings := settings\<rparr>"

definition set_held_ports :: "(local_port \<rightharpoonup> port_holder) \<Rightarrow> supervisor \<Rightarrow> supervisor" where
  "set_held_ports held s = on_metrics (\<lambda>m. m\<lparr>mb_held_ports := held\<rparr>) s"

definition drop_pane_handle :: "pane_id \<Rightarrow> supervisor \<Rightarrow> supervisor" where
  "drop_pane_handle p s = on_pane take_handle p (drop_handle At_Shutdown p s)"

definition shutdown :: "supervisor \<Rightarrow> supervisor" where
  "shutdown s =
     (let s = on_launches (\<lambda>book. book\<lparr>lb_detaching := True\<rparr>) s;
          s = fold drop_pane_handle (map fst (sup_panes s)) s;
          respawning = filter (is_spawning s) (holding (sup_attach s));
          s = on_attach (\<lambda>book. keep_held book (\<lambda>p. p \<in> set respawning)) s;
          known = remdups (map fst (sup_generations s) @ map fst (sup_panes s))
      in fold advance_generation known s)"

end
