(* ===== verification/Launches.thy ===== *)
theory Launches
  imports Supervision
begin

text \<open>
  An invariant of a supervisor and of the threads and timers it has out: a launch in flight is of a
  pane that does not run, has the pane's current generation and a thread that will answer it; no timer
  of an earlier run carries the generation of a launch; a process shown as starting has a launch in
  flight; and no handle of a running process is dropped by accident. Every operation keeps it, as long
  as the 64-bit generations have not run out.
\<close>

section \<open>The part of the state the invariant is about\<close>

fun purpose_kind :: "launch_purpose \<Rightarrow> launch_purpose" where
  "purpose_kind (Purpose_Spawn _) = Purpose_Spawn False"
| "purpose_kind (Purpose_Adopt carried) = Purpose_Adopt carried"

type_synonym launch_core = "spawn_generation \<times> process_state \<times> launch_purpose"

definition core_of :: "pending_launch \<Rightarrow> launch_core" where
  "core_of l = (launch_generation l, launch_prior_state l, purpose_kind (launch_purpose l))"

definition pending :: "supervisor \<Rightarrow> pane_id \<Rightarrow> launch_core option" where
  "pending s p = map_option core_of (lb_pending (sup_launches s) p)"

definition detaching :: "supervisor \<Rightarrow> bool" where
  "detaching s = lb_detaching (sup_launches s)"

definition stopped_adoption :: "supervisor \<Rightarrow> pane_id \<Rightarrow> spawn_generation option" where
  "stopped_adoption s p = lb_stopped_adoptions (sup_launches s) p"

definition states :: "supervisor \<Rightarrow> (pane_id \<times> process_state) list" where
  "states s = map (\<lambda>q. (proc_id q, proc_state q)) (sup_workspace s)"

definition core where
  "core s = (states s, is_live s, is_unsupervised s, generation_of s, pending s, detaching s, stopped_adoption s,
     sup_adopter s)"

fun stamp :: "effect \<Rightarrow> (pane_id \<times> spawn_generation) option" where
  "stamp (Launching p g _ _) = Some (p, g)"
| "stamp (Locating p g _) = Some (p, g)"
| "stamp (Adopting p g _ _) = Some (p, g)"
| "stamp (Respawning p g _) = Some (p, g)"
| "stamp (ForceStopping p g _ _) = Some (p, g)"
| "stamp _ = None"

text \<open>A handle of a running process dropped where none should be there.\<close>

fun loses :: "effect \<Rightarrow> bool" where
  "loses (Dropped At_Deactivate _) = True"
| "loses (Dropped At_Install _) = True"
| "loses (Dropped At_Retire _) = True"
| "loses _ = False"

definition harmless :: "effect \<Rightarrow> bool" where
  "harmless e \<longleftrightarrow> stamp e = None \<and> \<not> loses e"

text \<open>The threads that answer a launch.\<close>

fun answers :: "effect \<Rightarrow> pane_id \<Rightarrow> launch_core \<Rightarrow> bool" where
  "answers (Launching p g _ _) pane (generation, _, kind) \<longleftrightarrow>
     p = pane \<and> g = generation \<and> kind = Purpose_Spawn False"
| "answers (Locating p g _) pane (generation, _, kind) \<longleftrightarrow>
     p = pane \<and> g = generation \<and> (\<exists>carried. kind = Purpose_Adopt (Some carried))"
| "answers (Adopting p g _ _) pane (generation, _, kind) \<longleftrightarrow>
     p = pane \<and> g = generation \<and> (\<exists>carried. kind = Purpose_Adopt carried)"
| "answers _ _ _ \<longleftrightarrow> False"

fun never_starting :: "launch_core \<Rightarrow> bool" where
  "never_starting (_, prior_state, kind) \<longleftrightarrow>
     prior_state \<noteq> Starting \<and>
     (case kind of Purpose_Adopt (Some carried) \<Rightarrow> carried_state carried \<noteq> Some Starting | _ \<Rightarrow> True)"

text \<open>
  A launch fits its pane: the pane does not run and has a process, the launch has the pane's
  generation, and everything out with that generation is a thread that answers it.
\<close>

definition fits :: "effect set \<Rightarrow> supervisor \<Rightarrow> pane_id \<Rightarrow> launch_core \<Rightarrow> bool" where
  "fits E s p c \<longleftrightarrow>
     \<not> is_live s p \<and> p \<in> fst ` set (states s) \<and>
     fst c \<le> current_generation s p \<and> stopped_adoption s p \<noteq> Some (fst c) \<and>
     (\<forall>e \<in> E. stamp e = Some (p, fst c) \<longrightarrow> answers e p c) \<and>
     (sup_adopter s \<or> (\<forall>carried. snd (snd c) \<noteq> Purpose_Adopt (Some carried))) \<and>
     (\<not> detaching s \<longrightarrow> generation_of s p = Some (fst c) \<and> never_starting c)"

text \<open>
  The invariant, with room for \<open>k\<close> more generations, what is out in \<open>xs\<close> beside the outbox, a launch
  whose thread has just answered, if any, and the panes that may be shown as starting without one.
\<close>

definition orderly :: "nat \<Rightarrow> effect list \<Rightarrow> (pane_id \<times> spawn_generation) option \<Rightarrow> pane_id set \<Rightarrow> supervisor \<Rightarrow> bool" where
  "orderly k xs answered X s \<longleftrightarrow>
     (let E = set xs \<union> set (sup_out s) in
      distinct (map fst (states s)) \<and>
      (\<forall>p. is_live s p \<longrightarrow> \<not> is_unsupervised s p \<and> p \<in> fst ` set (states s)) \<and>
      (\<forall>p. unat (current_generation s p) + k < 2 ^ 64) \<and>
      (\<forall>e \<in> E. \<forall>p g. stamp e = Some (p, g) \<longrightarrow> g \<le> current_generation s p) \<and>
      (\<forall>p g. stopped_adoption s p = Some g \<longrightarrow> g \<le> current_generation s p) \<and>
      (\<forall>p d. Respawning p (current_generation s p) d \<in> E \<longrightarrow> \<not> is_live s p) \<and>
      (\<forall>p c. pending s p = Some c \<longrightarrow>
         fits E s p c \<and> (answered = Some (p, fst c) \<or> (\<exists>e \<in> E. answers e p c))) \<and>
      (\<not> detaching s \<longrightarrow>
         (\<forall>p. (p, Starting) \<in> set (states s) \<longrightarrow> p \<in> X \<or> pending s p \<noteq> None \<and> \<not> is_unsupervised s p)) \<and>
      (\<forall>e \<in> E. \<not> loses e) \<and>
      (\<forall>p. is_unsupervised s p \<longrightarrow> generation_of s p \<noteq> None) \<and>
      (\<forall>e \<in> E. \<forall>p g. stamp e = Some (p, g) \<longrightarrow> generation_of s p \<noteq> None))"

definition quiet :: "supervisor \<Rightarrow> supervisor \<Rightarrow> bool" where
  "quiet s s' \<longleftrightarrow>
     core s' = core s \<and> (\<exists>es. sup_out s' = sup_out s @ es \<and> (\<forall>e \<in> set es. harmless e))"

named_theorems quiet_intros

lemma quiet_refl [quiet_intros, simp]: "quiet s s"
  by (simp add: quiet_def)

lemma quiet_trans:
  assumes "quiet s t" and "quiet t u"
  shows "quiet s u"
proof -
  from assms obtain es fs where "sup_out t = sup_out s @ es" "\<forall>e \<in> set es. harmless e"
    "sup_out u = sup_out t @ fs" "\<forall>e \<in> set fs. harmless e" and "core u = core s"
    by (auto simp: quiet_def)
  then show ?thesis
    unfolding quiet_def by (intro conjI exI[of _ "es @ fs"]) auto
qed

text \<open>A step that keeps the fields of the invariant and sends out only harmless effects.\<close>

lemma quietI:
  assumes "quiet s t" and "core u = core t" and "sup_out u = sup_out t @ es" and "\<forall>e \<in> set es. harmless e"
  shows "quiet s u"
  using assms by (blast intro: quiet_trans[of s t u] quiet_def[THEN iffD2])

lemmas core_defs =
  core_def states_def is_live_def is_unsupervised_def generation_of_def pane_of_def pending_def detaching_def
  stopped_adoption_def fun_eq_iff

lemma quiet_emit [quiet_intros]: "quiet s t \<Longrightarrow> harmless e \<Longrightarrow> quiet s (emit e t)"
  by (erule quietI[where es = "[e]"]) (auto simp: emit_def core_defs)

lemma harmless_simps [simp]:
  "harmless (Probing p a asked pid)" "harmless (Retrying p a d)" "harmless (Noticed lv no m)"
  "harmless (Recorded no k m)" "harmless (Alerted n m)" "harmless (Terminating h sg d)"
  "harmless (Killing h)" "harmless (Pausing h)" "harmless (Resuming h)" "harmless (Acknowledging h)"
  "harmless (Abandoning h)" "harmless (Signalling pid us)" "harmless (Collecting pa b)"
  "harmless (Run_Ended n ou t)" "harmless (Run_Cleared n)" "harmless (Probes_Forgotten p)"
  "harmless (Probe_Watched p g tg i)" "harmless (End_Waits p go st ps)" "harmless (Begin_Tap p)"
  "harmless (Place_Run p c)" "harmless (Tap_Output p co bs)" "harmless (Test_Unlogged p bs)"
  "harmless (Start_Replay p)" "harmless (Forget_Log_Read p)" "harmless (Forget_Tap p)"
  "harmless (Watch_Waiters p g)" "harmless Release_Adoption_Waits"
  "harmless (Dropped At_Shutdown h)" "harmless (Dropped At_Stale_Release h)"
  "harmless (Dropped At_Stopped_Adoption h)" "harmless (Dropped At_Reconnect h)"
  by (simp_all add: harmless_def)

lemma quiet_on_restarts [quiet_intros]: "quiet s t \<Longrightarrow> quiet s (on_restarts f t)"
  by (erule quietI[where es = "[]"]) (auto simp: on_restarts_def core_defs)

lemma quiet_on_metrics [quiet_intros]: "quiet s t \<Longrightarrow> quiet s (on_metrics f t)"
  by (erule quietI[where es = "[]"]) (auto simp: on_metrics_def core_defs)

lemma quiet_on_attach [quiet_intros]: "quiet s t \<Longrightarrow> quiet s (on_attach f t)"
  by (erule quietI[where es = "[]"]) (auto simp: on_attach_def core_defs)

lemma quiet_fields [quiet_intros]:
  "quiet s t \<Longrightarrow> quiet s (t\<lparr>sup_batch := b\<rparr>)"
  "quiet s t \<Longrightarrow> quiet s (t\<lparr>sup_retries := rt\<rparr>)"
  "quiet s t \<Longrightarrow> quiet s (t\<lparr>sup_restarts := rs\<rparr>)"
  "quiet s t \<Longrightarrow> quiet s (t\<lparr>sup_attach := ab\<rparr>)"
  "quiet s t \<Longrightarrow> quiet s (t\<lparr>sup_replays := rp\<rparr>)"
  "quiet s t \<Longrightarrow> quiet s (t\<lparr>sup_readiness := rd\<rparr>)"
  "quiet s t \<Longrightarrow> quiet s (t\<lparr>sup_collect_after_stop := cs\<rparr>)"
  "quiet s t \<Longrightarrow> quiet s (t\<lparr>sup_failing_reads := fr\<rparr>)"
  "quiet s t \<Longrightarrow> quiet s (t\<lparr>sup_project := pr\<rparr>)"
  "quiet s t \<Longrightarrow> quiet s (t\<lparr>sup_settings := se\<rparr>)"
  "quiet s t \<Longrightarrow> quiet s (t\<lparr>sup_occupants := oc\<rparr>)"
  "quiet s t \<Longrightarrow> quiet s (t\<lparr>sup_left_at := la\<rparr>)"
  "quiet s t \<Longrightarrow> quiet s (t\<lparr>sup_idle_stopping := is\<rparr>)"
  by (erule quietI[where es = "[]"]; auto simp: core_defs)+

text \<open>A change of a pane that keeps whether it runs and whether it was left unsupervised.\<close>

lemma quiet_on_pane [quiet_intros]:
  assumes "quiet s t"
    and "\<And>x. pane_of t p = Some x \<Longrightarrow> (pane_handle (f x) = None) = (pane_handle x = None)"
    and "\<And>x. pane_of t p = Some x \<Longrightarrow> (pane_unsupervised (f x) = None) = (pane_unsupervised x = None)"
  shows "quiet s (on_pane f p t)"
  using assms
  by (elim quietI[where es = "[]"]) (auto simp: on_pane_def core_defs update_conv' split: option.splits)

lemma quiet_on_launches [quiet_intros]:
  assumes "quiet s t"
    and "\<And>q. map_option core_of (lb_pending (f (sup_launches t)) q) = map_option core_of (lb_pending (sup_launches t) q)"
    and "lb_detaching (f (sup_launches t)) = lb_detaching (sup_launches t)"
    and "lb_stopped_adoptions (f (sup_launches t)) = lb_stopped_adoptions (sup_launches t)"
  shows "quiet s (on_launches f t)"
  using assms by (elim quietI[where es = "[]"]) (auto simp: on_launches_def core_defs)

lemma core_of_changes [simp]:
  "core_of (l\<lparr>launch_intent := i\<rparr>) = core_of l" "core_of (l\<lparr>launch_suspend := u\<rparr>) = core_of l"
  "core_of (l\<lparr>launch_membership := m\<rparr>) = core_of l" "core_of (keep l out) = core_of l"
  "core_of (mark_restarting l) = core_of l"
  by (auto simp: core_of_def keep_def mark_restarting_def Let_def split: launch_purpose.splits)

lemma core_of_new [simp]: "core_of (PendingLaunch_new g st pu) = (g, st, purpose_kind pu)"
  by (simp add: core_of_def PendingLaunch_new_def)

lemma quiet_asked:
  assumes "quiet s t" and "\<And>l. core_of (f l) = core_of l"
  shows "quiet s (t\<lparr>sup_launches := fst (on_launch f (sup_launches t) p)\<rparr>)"
  using assms by (elim quietI[where es = "[]"]) (auto simp: on_launch_def core_defs split: option.splits)

lemma quiet_asked_of_launch [quiet_intros]:
  "quiet s t \<Longrightarrow> quiet s (fst (asked_of_launch (\<lambda>book. record_intent book p i) t))"
  "quiet s t \<Longrightarrow> quiet s (fst (asked_of_launch (\<lambda>book. record_suspend book p u) t))"
  "quiet s t \<Longrightarrow> quiet s (on_launches (\<lambda>book. record_membership book p m) t)"
  "quiet s t \<Longrightarrow> quiet s (on_launches (\<lambda>book. LaunchBook_mark_restarting book p) t)"
  "quiet s t \<Longrightarrow> quiet s (set_launch_environment p env t)"
  unfolding asked_of_launch_def record_intent_def record_suspend_def record_membership_def
    LaunchBook_mark_restarting_def on_launches_def set_launch_environment_def
  by (auto simp: split_beta intro!: quiet_asked intro: quietI[where es = "[]"] simp: core_defs)

subsection \<open>Operations that keep it all\<close>

lemma quiet_raise_notice [quiet_intros]: "quiet s t \<Longrightarrow> quiet s (raise_notice t level process message block)"
  by (auto simp: raise_notice_def Let_def intro!: quiet_intros split: option.splits)

lemma quiet_notices [quiet_intros]:
  "quiet s t \<Longrightarrow> quiet s (notify_process t level name message)"
  "quiet s t \<Longrightarrow> quiet s (notify_blocked t process block)"
  "quiet s t \<Longrightarrow> quiet s (notify t level po message)"
  "quiet s t \<Longrightarrow> quiet s (record_event t po kind message)"
  by (auto simp: notify_process_def notify_blocked_def notify_def record_event_def intro!: quiet_intros)

lemma quiet_alert_desktop [quiet_intros]: "quiet s t \<Longrightarrow> quiet s (alert_desktop t p message)"
  by (auto simp: alert_desktop_def intro!: quiet_intros split: option.splits)

lemma quiet_readiness [quiet_intros]:
  "quiet s t \<Longrightarrow> quiet s (insert_readiness p r t)"
  "quiet s t \<Longrightarrow> quiet s (forget_readiness p t)"
  "quiet s t \<Longrightarrow> quiet s (end_waits p go status state t)"
  "quiet s t \<Longrightarrow> quiet s (forget_probes p t)"
  by (auto simp: insert_readiness_def forget_readiness_def end_waits_def forget_probes_def intro!: quiet_intros)

lemma quiet_start_readiness [quiet_intros]: "quiet s t \<Longrightarrow> quiet s (start_readiness w p check since deadline t)"
  by (auto simp: start_readiness_def Let_def intro!: quiet_intros split: option.splits ready_probe.splits)

lemma quiet_begin_run [quiet_intros]: "quiet s t \<Longrightarrow> quiet s (begin_run w p t)"
  by (auto simp: begin_run_def Let_def intro!: quiet_intros split: option.splits)

lemma quiet_adopt_run [quiet_intros]: "quiet s t \<Longrightarrow> quiet s (adopt_run w p t)"
  unfolding adopt_run_def Let_def
  by (auto intro!: quiet_intros split: option.split ready_probe.split)

lemma quiet_arm_probes [quiet_intros]: "quiet s t \<Longrightarrow> quiet s (arm_probes p t)"
  by (auto simp: arm_probes_def Let_def intro!: quiet_intros split: option.splits)

lemma quiet_end_run [quiet_intros]: "quiet s t \<Longrightarrow> quiet s (end_run w p g reason state message t)"
  unfolding end_run_def Let_def by (intro quiet_intros)

lemma quiet_store_end [quiet_intros]: "quiet s t \<Longrightarrow> quiet s (store_end w p outcome t)"
  by (auto simp: store_end_def intro!: quiet_intros split: option.splits)

lemma quiet_report_unrequested_exit [quiet_intros]:
  "quiet s t \<Longrightarrow> quiet s (report_unrequested_exit w p intent started_at outcome t)"
  unfolding report_unrequested_exit_def Let_def split_beta by (auto intro!: quiet_intros)

lemma quiet_acknowledge [quiet_intros]: "quiet s t \<Longrightarrow> quiet s (acknowledge w p handle t)"
  unfolding acknowledge_def Let_def by (auto intro!: quiet_intros)

lemma quiet_release_held_exit [quiet_intros]: "quiet s t \<Longrightarrow> quiet s (release_held_exit w p t)"
  unfolding release_held_exit_def Let_def split_beta by (auto intro!: quiet_intros split: option.splits)

lemma quiet_fold: "(\<And>x t. quiet s t \<Longrightarrow> quiet s (f x t)) \<Longrightarrow> quiet s t \<Longrightarrow> quiet s (fold f zs t)"
  by (induction zs arbitrary: t) auto

lemma quiet_release_settled_exits: "quiet s (release_settled_exits w s)"
  unfolding release_settled_exits_def by (intro quiet_fold quiet_intros)

lemma quiet_adoption_notices [quiet_intros]:
  "quiet s t \<Longrightarrow> quiet s (collect_exit r t)"
  "quiet s t \<Longrightarrow> quiet s (fst (child_runs_or_collect w r t))"
  "quiet s t \<Longrightarrow> quiet s (schedule_adoption_retry p t)"
  "quiet s t \<Longrightarrow> quiet s (refuse_unsupervised_start p pid t)"
  "quiet s t \<Longrightarrow> quiet s (probe_adoption w p attempt asked t)"
  "quiet s t \<Longrightarrow> quiet s (collect_once_stopped w p r t)"
  unfolding collect_exit_def child_runs_or_collect_def schedule_adoption_retry_def Let_def split_beta
    refuse_unsupervised_start_def probe_adoption_def collect_once_stopped_def
  by (auto intro!: quiet_intros split: option.splits)

lemma quiet_adoption_failed_unsupervised [quiet_intros]:
  "quiet s t \<Longrightarrow> quiet s (adoption_failed_unsupervised p r error t)"
  unfolding adoption_failed_unsupervised_def Let_def split_beta by (auto intro!: quiet_intros)

lemma quiet_report_reconnect_failure [quiet_intros]:
  "quiet s t \<Longrightarrow> quiet s (report_reconnect_failure p carried ro eo running t)"
  unfolding report_reconnect_failure_def by (auto intro!: quiet_intros split: option.splits)

lemma quiet_report_superseded_failure [quiet_intros]:
  "quiet s t \<Longrightarrow> quiet s (report_superseded_failure w r error t)"
  unfolding report_superseded_failure_def split_beta by (auto intro!: quiet_intros)

lemma quiet_retry_adoption_now [quiet_intros]: "quiet s t \<Longrightarrow> quiet s (fst (retry_adoption_now w p t))"
  unfolding retry_adoption_now_def split_beta Let_def by (auto intro!: quiet_intros)

lemma quiet_pane_changes [quiet_intros]:
  "quiet s t \<Longrightarrow> quiet s (keep_screen p bytes sz t)"
  "quiet s t \<Longrightarrow> quiet s (advance_shutdown_generation p t)"
  "quiet s t \<Longrightarrow> quiet s (on_pane (change_intent f) p t)"
  "quiet s t \<Longrightarrow> quiet s (on_pane (restore carried) p t)"
  "quiet s t \<Longrightarrow> quiet s (set_membership p m t)"
  "quiet s t \<Longrightarrow> quiet s (with_environment p env t)"
  unfolding keep_screen_def advance_shutdown_generation_def advance_shutdown_def change_intent_def
    restore_def set_membership_def with_environment_def
  by (auto intro!: quiet_intros split: option.splits)

lemma quiet_refuse_stored_problem [quiet_intros]:
  "quiet s t \<Longrightarrow> quiet s (fst (refuse_stored_problem w p t))"
  unfolding refuse_stored_problem_def by (auto intro!: quiet_intros split: option.splits)

lemma quiet_drop_handle [quiet_intros]: "quiet s t \<Longrightarrow> \<not> is_live t p \<Longrightarrow> quiet s (drop_handle site p t)"
  by (auto simp: drop_handle_def is_live_def split: option.splits)

lemma is_live_simps [simp]:
  "is_live (on_metrics f s) = is_live s" "is_live (on_attach g s) = is_live s" "is_live (emit e s) = is_live s"
  "is_live (on_restarts h s) = is_live s"
  by (auto simp: is_live_def pane_of_def on_metrics_def on_attach_def emit_def on_restarts_def fun_eq_iff)

lemma quiet_is_live: "quiet s t \<Longrightarrow> is_live t = is_live s"
  by (simp add: quiet_def core_def)

lemma quiet_deactivate [quiet_intros]:
  assumes "quiet s t" and dead: "\<not> is_live t p"
  shows "quiet s (deactivate p t)"
proof -
  let ?u = "on_attach (\<lambda>book. set_attached book p 0)
              (on_metrics (\<lambda>m. m\<lparr>mb_usage := (mb_usage m)(p := None)\<rparr>) t)"
  have u: "quiet s ?u" using assms by (intro quiet_intros)
  have "drop_handle At_Deactivate p ?u = ?u"
    using dead by (auto simp: drop_handle_def is_live_def on_attach_def on_metrics_def pane_of_def split: option.splits)
  with u dead show ?thesis
    unfolding deactivate_def Let_def
    by (intro quiet_on_pane) (auto simp: take_handle_def is_live_def pane_of_def on_attach_def on_metrics_def)
qed

section \<open>The primitive steps keep the invariant\<close>

text \<open>What is out, and the invariant as a property of it and of the core of the state.\<close>

abbreviation outstanding :: "effect list \<Rightarrow> supervisor \<Rightarrow> effect set" where
  "outstanding xs s \<equiv> set xs \<union> set (sup_out s)"

lemma current_generation_core: "generation_of t = generation_of s \<Longrightarrow> current_generation t = current_generation s"
  by (simp add: current_generation_def fun_eq_iff)

lemma fits_grow:
  assumes "core t = core s" and "\<And>e. e \<in> E' \<Longrightarrow> e \<notin> E \<Longrightarrow> stamp e \<noteq> Some (p, fst c)" and "fits E s p c"
  shows "fits E' t p c"
proof -
  have gens: "current_generation t = current_generation s"
    using assms(1) by (intro current_generation_core) (simp add: core_def)
  have "\<forall>e \<in> E'. stamp e = Some (p, fst c) \<longrightarrow> answers e p c"
    using assms(2,3) unfolding fits_def by blast
  with assms(1,3) show ?thesis unfolding fits_def core_def gens by simp
qed

lemma inv_D:
  assumes "orderly k xs a X s"
  shows inv_distinct: "distinct (map fst (states s))"
    and inv_live: "is_live s p \<Longrightarrow> \<not> is_unsupervised s p \<and> p \<in> fst ` set (states s)"
    and inv_room: "unat (current_generation s p) + k < 2 ^ 64"
    and inv_stamp: "e \<in> outstanding xs s \<Longrightarrow> stamp e = Some (p, g) \<Longrightarrow> g \<le> current_generation s p"
    and inv_stopped: "stopped_adoption s p = Some g \<Longrightarrow> g \<le> current_generation s p"
    and inv_respawn: "Respawning p (current_generation s p) d \<in> outstanding xs s \<Longrightarrow> \<not> is_live s p"
    and inv_fits: "pending s p = Some c \<Longrightarrow> fits (outstanding xs s) s p c"
    and inv_starting: "\<not> detaching s \<Longrightarrow> (p, Starting) \<in> set (states s) \<Longrightarrow> p \<in> X \<or> pending s p \<noteq> None \<and> \<not> is_unsupervised s p"
    and inv_left: "is_unsupervised s p \<Longrightarrow> generation_of s p \<noteq> None"
    and inv_known: "e \<in> outstanding xs s \<Longrightarrow> stamp e = Some (p, g) \<Longrightarrow> generation_of s p \<noteq> None"
  using assms unfolding orderly_def Let_def by blast+

lemma inv_answered:
  "orderly k xs a X s \<Longrightarrow> pending s p = Some c \<Longrightarrow> a = Some (p, fst c) \<or> (\<exists>e \<in> outstanding xs s. answers e p c)"
  unfolding orderly_def Let_def by blast

lemma inv_lossless: "orderly k xs a X s \<Longrightarrow> e \<in> outstanding xs s \<Longrightarrow> \<not> loses e"
  unfolding orderly_def Let_def by blast

lemma invI:
  assumes "distinct (map fst (states s))"
    and "\<And>p. is_live s p \<Longrightarrow> \<not> is_unsupervised s p \<and> p \<in> fst ` set (states s)"
    and "\<And>p. unat (current_generation s p) + k < 2 ^ 64"
    and "\<And>e p g. e \<in> outstanding xs s \<Longrightarrow> stamp e = Some (p, g) \<Longrightarrow> g \<le> current_generation s p"
    and "\<And>p g. stopped_adoption s p = Some g \<Longrightarrow> g \<le> current_generation s p"
    and "\<And>p d. Respawning p (current_generation s p) d \<in> outstanding xs s \<Longrightarrow> \<not> is_live s p"
    and "\<And>p c. pending s p = Some c \<Longrightarrow> fits (outstanding xs s) s p c"
    and "\<And>p c. pending s p = Some c \<Longrightarrow> a = Some (p, fst c) \<or> (\<exists>e \<in> outstanding xs s. answers e p c)"
    and "\<And>p. \<not> detaching s \<Longrightarrow> (p, Starting) \<in> set (states s) \<Longrightarrow> p \<in> X \<or> pending s p \<noteq> None \<and> \<not> is_unsupervised s p"
    and "\<And>e. e \<in> outstanding xs s \<Longrightarrow> \<not> loses e"
    and "\<And>p. is_unsupervised s p \<Longrightarrow> generation_of s p \<noteq> None"
    and "\<And>e p g. e \<in> outstanding xs s \<Longrightarrow> stamp e = Some (p, g) \<Longrightarrow> generation_of s p \<noteq> None"
  shows "orderly k xs a X s"
  using assms unfolding orderly_def Let_def by blast

lemma inv_quiet:
  assumes "orderly k xs a X s" and "quiet s t"
  shows "orderly k xs a X t"
proof -
  from assms(2) obtain es where es: "sup_out t = sup_out s @ es" "\<And>e. e \<in> set es \<Longrightarrow> stamp e = None \<and> \<not> loses e"
    and core: "core t = core s"
    by (auto simp: quiet_def harmless_def)
  then have old: "e \<in> outstanding xs s" if "e \<in> outstanding xs t" "stamp e \<noteq> None \<or> loses e" for e
    using that by auto
  have eqs: "states t = states s" "is_live t = is_live s" "is_unsupervised t = is_unsupervised s"
    "generation_of t = generation_of s" "pending t = pending s" "detaching t = detaching s"
    "stopped_adoption t = stopped_adoption s" "sup_adopter t = sup_adopter s"
    using core by (simp_all add: core_def)
  note gen = current_generation_core[OF eqs(4)]
  show ?thesis
  proof (rule invI, goal_cases)
    case (7 p c)
    then show ?case using inv_fits[OF assms(1)] old unfolding eqs by (blast intro: fits_grow[OF core])
  next
    case (8 p c)
    have "outstanding xs s \<subseteq> outstanding xs t" using es(1) by auto
    with 8 show ?case using inv_answered[OF assms(1), of p c] unfolding eqs by blast
  next
    case (4 e p g)
    then show ?case using inv_stamp[OF assms(1) old] by (simp add: gen)
  next
    case (6 p d)
    then show ?case using inv_respawn[OF assms(1) old] by (simp add: gen eqs)
  next
    case (10 e)
    then show ?case using inv_lossless[OF assms(1)] old by blast
  next
    case (12 e p g)
    then show ?case using inv_known[OF assms(1) old] by (simp add: eqs)
  qed (use inv_D[OF assms(1)] in \<open>simp_all add: eqs gen\<close>)
qed

lemma inv_pending_dead: "orderly k xs a X s \<Longrightarrow> pending s p \<noteq> None \<Longrightarrow> \<not> is_live s p"
  using inv_fits unfolding fits_def by blast

lemma inv_weaken:
  assumes "orderly k xs a X s" and "k' \<le> k" and "X \<subseteq> X'"
  shows "orderly k' xs a X' s"
proof -
  have "unat (current_generation s p) + k' < 2 ^ 64" for p
    using inv_room[OF assms(1), of p] assms(2) by linarith
  with assms show ?thesis unfolding orderly_def Let_def by blast
qed

lemma inv_more_room:
  "orderly k xs a X s \<Longrightarrow> (\<And>p. unat (current_generation s p) + k' < 2 ^ 64) \<Longrightarrow> orderly k' xs a X s"
  unfolding orderly_def Let_def by blast

text \<open>Fewer outstanding effects: only the answers of a launch are missed.\<close>

lemma inv_fewer:
  assumes "orderly k xs None X s" and "set ys \<subseteq> set xs"
    and "\<And>p c. pending s p = Some c \<Longrightarrow> a = Some (p, fst c) \<or> (\<exists>e \<in> outstanding ys s. answers e p c)"
  shows "orderly k ys a X s"
proof -
  have sub: "outstanding ys s \<subseteq> outstanding xs s" using assms(2) by auto
  have fits: "fits (outstanding ys s) s p c" if "fits (outstanding xs s) s p c" for p c
    using that sub unfolding fits_def by blast
  show ?thesis
  proof (rule invI, goal_cases)
    case (4 e p g)
    then show ?case using inv_stamp[OF assms(1) subsetD[OF sub]] by blast
  next
    case (6 p d)
    then show ?case using inv_respawn[OF assms(1) subsetD[OF sub]] by blast
  next
    case (7 p c)
    then show ?case using fits[OF inv_fits[OF assms(1)]] by blast
  next
    case (10 e)
    then show ?case using inv_lossless[OF assms(1) subsetD[OF sub]] by blast
  next
    case (12 e p g)
    then show ?case using inv_known[OF assms(1) subsetD[OF sub]] by blast
  qed (use inv_D[OF assms(1)] assms(3) in \<open>simp_all\<close>)
qed

subsection \<open>States\<close>

lemma states_become:
  assumes "distinct (map fst (states s))"
  shows "states (become p st s) = map (\<lambda>(q, x). if q = p then (q, st) else (q, x)) (states s)"
proof -
  have "map (\<lambda>q. (proc_id q, proc_state q)) (workspace_set_state ws p st) =
      map (\<lambda>(q, x). if q = p then (q, st) else (q, x)) (map (\<lambda>q. (proc_id q, proc_state q)) ws)"
    if "distinct (map proc_id ws)" for ws
    using that
  proof (induction ws)
    case (Cons q ws)
    show ?case
    proof (cases "proc_id q = p")
      case True
      with Cons.prems have "map (\<lambda>(q, x). if q = p then (q, st) else (q, x)) (map (\<lambda>q. (proc_id q, proc_state q)) ws)
          = map (\<lambda>q. (proc_id q, proc_state q)) ws"
        by (simp add: comp_def) (metis (lifting) image_eqI map_cong)
      with True show ?thesis by (simp add: workspace_set_state_def position_of_def set_state_def)
    next
      case False
      have "workspace_set_state (q # ws) p st = q # workspace_set_state ws p st"
        using False by (simp add: workspace_set_state_def position_of_def split: option.splits)
      with False Cons show ?thesis by simp
    qed
  qed (simp add: workspace_set_state_def position_of_def)
  with assms show ?thesis by (simp add: states_def become_def comp_def)
qed

lemma become_keeps [simp]:
  "is_live (become p st s) = is_live s" "is_unsupervised (become p st s) = is_unsupervised s"
  "generation_of (become p st s) = generation_of s" "current_generation (become p st s) = current_generation s"
  "pending (become p st s) = pending s" "detaching (become p st s) = detaching s"
  "stopped_adoption (become p st s) = stopped_adoption s" "sup_out (become p st s) = sup_out s"
  "pane_of (become p st s) = pane_of s" "is_starting (become p st s) = is_starting s"
  "sup_adopter (become p st s) = sup_adopter s"
  by (auto simp: become_def core_defs current_generation_def is_starting_def)

lemma inv_become:
  assumes "orderly k xs a X s" and "st = Starting \<longrightarrow> detaching s \<or> pending s p \<noteq> None \<and> \<not> is_unsupervised s p"
  shows "orderly k xs a (X - {p}) (become p st s)"
proof -
  note st = states_become[OF inv_distinct[OF assms(1)], of p st]
  have ids: "map fst (states (become p st s)) = map fst (states s)"
    unfolding st by (induction "states s") auto
  then have idset: "fst ` set (states (become p st s)) = fst ` set (states s)"
    by (metis list.set_map)
  then have "fits E (become p st s) q c = fits E s q c" for E q c
    by (simp add: fits_def)
  moreover have "q \<in> X - {p} \<or> pending s q \<noteq> None \<and> \<not> is_unsupervised s q"
    if "(q, Starting) \<in> set (states (become p st s))" and "\<not> detaching s" for q
    using that assms(2) inv_starting[OF assms(1), of q] unfolding st by (auto split: if_splits)
  ultimately show ?thesis
    using inv_D[OF assms(1)] inv_answered[OF assms(1)] inv_lossless[OF assms(1)]
    by (intro invI) (simp_all add: ids idset)
qed

subsection \<open>Generations\<close>

lemma advance_keeps [simp]:
  "is_live (advance_generation p s) = is_live s" "is_unsupervised (advance_generation p s) = is_unsupervised s"
  "pending (advance_generation p s) = pending s" "detaching (advance_generation p s) = detaching s"
  "stopped_adoption (advance_generation p s) = stopped_adoption s" "states (advance_generation p s) = states s"
  "sup_out (advance_generation p s) = sup_out s" "pane_of (advance_generation p s) = pane_of s"
  "sup_adopter (advance_generation p s) = sup_adopter s"
  by (auto simp: advance_generation_def core_defs)

lemma current_advance:
  "generation_of (advance_generation p s) = (generation_of s)(p \<mapsto> current_generation s p + 1)"
  "current_generation (advance_generation p s) = (current_generation s)(p := current_generation s p + 1)"
  by (auto simp: advance_generation_def current_generation_def generation_of_def SpawnGeneration_next_def
      update_conv' fun_eq_iff)

lemma word_room_less:
  fixes g :: u64
  assumes "unat g + Suc k < 2 ^ 64"
  shows "unat (g + 1) = Suc (unat g)" and "g < g + 1" and "h \<le> g \<Longrightarrow> h < g + 1"
proof -
  show eq: "unat (g + 1) = Suc (unat g)"
    using assms by (subst unat_plus_if') simp
  then show "g < g + 1" by (simp add: word_less_nat_alt)
  then show "h < g + 1" if "h \<le> g" using that by (rule le_less_trans[rotated])
qed

lemma orderly_advance:
  assumes inv: "orderly (Suc k) xs a X s" and none: "pending s p = None \<or> detaching s"
  shows "orderly k xs a X (advance_generation p s)"
proof -
  note up = word_room_less[OF inv_room[OF inv, of p]]
  have le: "current_generation s q \<le> current_generation (advance_generation p s) q" for q
    using up(2) by (auto simp: current_advance)
  have fits: "fits E (advance_generation p s) q c" if "fits E s q c" "q \<noteq> p \<or> detaching s" for E q c
    using that le[of q] unfolding fits_def by (auto simp: current_advance)
  show ?thesis
  proof (rule invI, goal_cases)
    case (3 q)
    then show ?case using inv_room[OF inv, of q] up(1) by (auto simp: current_advance)
  next
    case (4 e q g)
    then show ?case using inv_stamp[OF inv, of e q g] le[of q] by (auto intro: order_trans)
  next
    case (5 q g)
    then show ?case using inv_stopped[OF inv, of q g] le[of q] by (auto intro: order_trans)
  next
    case (6 q d)
    show ?case
    proof (cases "q = p")
      case True
      have "current_generation s p + 1 \<le> current_generation s p"
        using 6 True inv_stamp[OF inv, of "Respawning p (current_generation s p + 1) d" p] by (simp add: current_advance)
      with up(2) show ?thesis by simp
    next
      case False
      with 6 show ?thesis using inv_respawn[OF inv, of q d] by (simp add: current_advance)
    qed
  next
    case (7 q c)
    then show ?case using inv_fits[OF inv, of q c] none by (intro fits) auto
  next
    case (8 q c)
    then show ?case using inv_answered[OF inv, of q c] by simp
  next
    case (11 q)
    then show ?case using inv_left[OF inv, of q] by (simp add: current_advance)
  next
    case (12 e q g)
    then show ?case using inv_known[OF inv, of e q g] by (simp add: current_advance)
  qed (use inv_D[OF inv] inv_lossless[OF inv] in simp_all)
qed

lemma on_launches_keeps [simp]:
  "is_live (on_launches f s) = is_live s" "is_unsupervised (on_launches f s) = is_unsupervised s"
  "generation_of (on_launches f s) = generation_of s" "states (on_launches f s) = states s"
  "current_generation (on_launches f s) = current_generation s"
  "sup_out (on_launches f s) = sup_out s" "pane_of (on_launches f s) = pane_of s"
  "sup_adopter (on_launches f s) = sup_adopter s"
  by (auto simp: on_launches_def core_defs current_generation_def)

lemma fits_on_launches:
  assumes "detaching (on_launches f s) = detaching s" and "stopped_adoption (on_launches f s) p \<noteq> Some (fst c)"
    and "fits E s p c"
  shows "fits E (on_launches f s) p c"
  using assms unfolding fits_def by simp

text \<open>A launch taken out of the book: its pane may be shown as starting for the moment.\<close>

lemma orderly_pending_removed:
  assumes inv: "orderly k xs a X s"
    and gone: "pending (on_launches f s) = (pending s)(p := None)"
    and same: "detaching (on_launches f s) = detaching s" "stopped_adoption (on_launches f s) = stopped_adoption s"
    and free: "p \<in> X \<or> pending s p = None \<or> detaching s \<or> (p, Starting) \<notin> set (states s)"
    and a: "a = None \<or> (\<exists>g. a = Some (p, g))"
  shows "orderly k xs None X (on_launches f s)"
proof (rule invI, goal_cases)
  case (7 q c)
  then show ?case using inv_fits[OF inv, of q c] gone same
    by (intro fits_on_launches) (auto simp: fits_def split: if_splits)
next
  case (8 q c)
  then show ?case using inv_answered[OF inv, of q c] gone a by (auto split: if_splits)
next
  case (9 q)
  then show ?case using inv_starting[OF inv, of q] gone same free by auto
qed (use inv_D[OF inv] inv_lossless[OF inv] same in simp_all)

lemma cancel_core [simp]:
  "pending (on_launches (\<lambda>book. LaunchBook_cancel book p) s) = (pending s)(p := None)"
  "detaching (on_launches (\<lambda>book. LaunchBook_cancel book p) s) = detaching s"
  "stopped_adoption (on_launches (\<lambda>book. LaunchBook_cancel book p) s) = stopped_adoption s"
  by (auto simp: on_launches_def LaunchBook_cancel_def core_defs)

lemma orderly_bump:
  assumes "orderly (Suc k) xs None X s"
    and "p \<in> X \<or> pending s p = None \<or> detaching s \<or> (p, Starting) \<notin> set (states s)"
  shows "orderly k xs None X (bump_generation p s)"
  unfolding bump_generation_def
  by (rule orderly_advance, rule orderly_pending_removed[OF assms(1)]) (use assms(2) in auto)

lemma bump_keeps [simp]:
  "is_live (bump_generation p s) = is_live s" "is_unsupervised (bump_generation p s) = is_unsupervised s"
  "pending (bump_generation p s) = (pending s)(p := None)" "detaching (bump_generation p s) = detaching s"
  "stopped_adoption (bump_generation p s) = stopped_adoption s" "states (bump_generation p s) = states s"
  "sup_out (bump_generation p s) = sup_out s" "pane_of (bump_generation p s) = pane_of s"
  "sup_adopter (bump_generation p s) = sup_adopter s"
  "generation_of (bump_generation p s) p = Some (current_generation (bump_generation p s) p)"
  by (auto simp: bump_generation_def current_advance)

lemma bump_fresh:
  assumes inv: "orderly (Suc k) xs a X s"
  shows "e \<in> outstanding xs s \<Longrightarrow> stamp e \<noteq> Some (p, current_generation (bump_generation p s) p)"
    and "stopped_adoption s p \<noteq> Some (current_generation (bump_generation p s) p)"
proof -
  have new: "current_generation (bump_generation p s) p = current_generation s p + 1"
    by (simp add: bump_generation_def current_advance)
  note up = word_room_less[OF inv_room[OF inv, of p]]
  show "e \<in> outstanding xs s \<Longrightarrow> stamp e \<noteq> Some (p, current_generation (bump_generation p s) p)"
    using inv_stamp[OF inv, of e p "current_generation s p + 1"] up(2) unfolding new by auto
  show "stopped_adoption s p \<noteq> Some (current_generation (bump_generation p s) p)"
    using inv_stopped[OF inv, of p "current_generation s p + 1"] up(2) unfolding new by auto
qed

text \<open>A launch with the new generation fits its pane after a bump.\<close>

lemma fits_after_bump:
  assumes inv: "orderly (Suc k) xs None X s" and "\<not> is_live s p" and "p \<in> fst ` set (states s)"
    and "\<not> detaching s \<longrightarrow> never_starting (current_generation (bump_generation p s) p, st, kind)"
    and "sup_adopter s \<or> (\<forall>carried. kind \<noteq> Purpose_Adopt (Some carried))"
  shows "fits (outstanding xs (bump_generation p s)) (bump_generation p s) p
           (current_generation (bump_generation p s) p, st, kind)"
  using assms bump_fresh(1)[OF inv, of _ p] bump_fresh(2)[OF inv, of p] unfolding fits_def by auto

subsection \<open>Launches begun and answered\<close>

lemma begin_core [simp]:
  "pending (on_launches (\<lambda>book. LaunchBook_begin book p l) s) = (pending s)(p \<mapsto> core_of l)"
  "detaching (on_launches (\<lambda>book. LaunchBook_begin book p l) s) = detaching s"
  "stopped_adoption (on_launches (\<lambda>book. LaunchBook_begin book p l) s) = stopped_adoption s"
  by (auto simp: on_launches_def LaunchBook_begin_def core_defs)

lemma orderly_begin:
  assumes inv: "orderly k xs None X s" and fits: "fits (outstanding xs s) s p (core_of l)"
  shows "orderly k xs (Some (p, launch_generation l)) X (on_launches (\<lambda>book. LaunchBook_begin book p l) s)"
proof (rule invI, goal_cases)
  case (7 q c)
  then have "fits (outstanding xs s) s q c" using inv_fits[OF inv, of q c] fits by (auto split: if_splits)
  then show ?case by (simp add: fits_def)
next
  case (8 q c)
  then show ?case using inv_answered[OF inv, of q c] by (auto simp: core_of_def split: if_splits)
next
  case (9 q)
  then show ?case using inv_starting[OF inv, of q] by (cases "q = p") auto
qed (use inv_D[OF inv] inv_lossless[OF inv] in simp_all)

lemma emit_keeps [simp]:
  "is_unsupervised (emit e s) = is_unsupervised s" "generation_of (emit e s) = generation_of s"
  "current_generation (emit e s) = current_generation s" "pending (emit e s) = pending s"
  "detaching (emit e s) = detaching s" "stopped_adoption (emit e s) = stopped_adoption s"
  "states (emit e s) = states s" "sup_out (emit e s) = sup_out s @ [e]" "pane_of (emit e s) = pane_of s"
  "process_of (emit e s) = process_of s" "is_starting (emit e s) = is_starting s"
  "sup_adopter (emit e s) = sup_adopter s"
  by (auto simp: emit_def core_defs current_generation_def process_of_def is_starting_def)

lemma fits_emit:
  assumes "fits E s p c" and "stamp e = Some (p, fst c) \<Longrightarrow> answers e p c"
  shows "fits (insert e E) (emit e s) p c"
  using assms unfolding fits_def by auto

lemma outstanding_emit: "outstanding xs (emit e s) = insert e (outstanding xs s)"
  by auto

text \<open>An effect with a stamp: of a generation there is, and of no launch it does not answer.\<close>

lemma orderly_emit:
  assumes inv: "orderly k xs a X s" and "stamp e = Some (p, g)" and "generation_of s p = Some g"
    and launches: "\<And>c. pending s p = Some c \<Longrightarrow> fst c = g \<Longrightarrow> answers e p c"
    and respawn: "\<And>d. e = Respawning p (current_generation s p) d \<Longrightarrow> \<not> is_live s p"
    and a: "a' = a \<or> (\<exists>q h. a' = None \<and> a = Some (q, h) \<and> (\<forall>c. pending s q = Some c \<longrightarrow> fst c = h \<longrightarrow> answers e q c))"
  shows "orderly k xs a' X (emit e s)"
proof (rule invI, goal_cases)
  case (4 d q h)
  then show ?case using inv_stamp[OF inv, of d q h] assms(2,3) unfolding outstanding_emit
    by (auto simp: current_generation_def)
next
  case (6 q d)
  then have "e = Respawning q (current_generation s q) d \<or> Respawning q (current_generation s q) d \<in> outstanding xs s"
    unfolding outstanding_emit by auto
  then show ?case
  proof
    assume e: "e = Respawning q (current_generation s q) d"
    with assms(2) have "q = p" by simp
    with e respawn show ?thesis by simp
  qed (use inv_respawn[OF inv] in simp)
next
  case (7 q c)
  then have "stamp e = Some (q, fst c) \<Longrightarrow> answers e q c" using launches assms(2) by auto
  with 7 show ?case unfolding outstanding_emit using inv_fits[OF inv, of q c] by (intro fits_emit) auto
next
  case (8 q c)
  then have "pending s q = Some c" by simp
  from inv_answered[OF inv this] a this show ?case
    unfolding outstanding_emit by (auto simp del: split_paired_All split_paired_Ex)
next
  case (10 d)
  have "\<not> loses e" using assms(2) by (cases e) auto
  with 10 show ?case using inv_lossless[OF inv, of d] unfolding outstanding_emit by auto
next
  case (12 d q h)
  then show ?case using inv_known[OF inv, of d q h] assms(2,3) unfolding outstanding_emit by auto
qed (use inv_D[OF inv] in simp_all)

lemma orderly_emit_answer:
  assumes "orderly k xs (Some (p, g)) X s" and "stamp e = Some (p, g)"
    and "generation_of s p = Some g" and "\<And>c. pending s p = Some c \<Longrightarrow> fst c = g \<Longrightarrow> answers e p c"
    and "\<And>d. e \<noteq> Respawning p (current_generation s p) d"
  shows "orderly k xs None X (emit e s)"
  using assms by (intro orderly_emit[OF assms(1,2)]) auto

lemma orderly_emit_force_stop:
  assumes "orderly k xs None X s" and "generation_of s p = Some g"
    and "\<And>c. pending s p = Some c \<Longrightarrow> fst c \<noteq> g"
  shows "orderly k xs None X (emit (ForceStopping p g d t) s)"
  using assms by (intro orderly_emit[OF assms(1), of _ p g]) auto

lemma orderly_emit_respawn:
  assumes "orderly k xs None X s" and "generation_of s p = Some g" and "pending s p = None" and "\<not> is_live s p"
  shows "orderly k xs None X (emit (Respawning p g d) s)"
  using assms by (intro orderly_emit[OF assms(1), of _ p g]) auto

subsection \<open>Panes\<close>

lemma orderly_panes:
  assumes inv: "orderly k xs a X s"
    and same: "states t = states s" "generation_of t = generation_of s" "pending t = pending s"
      "detaching t = detaching s" "stopped_adoption t = stopped_adoption s" "sup_out t = sup_out s"
      "sup_adopter t = sup_adopter s"
    and other: "\<And>q. q \<noteq> p \<Longrightarrow> is_live t q = is_live s q \<and> is_unsupervised t q = is_unsupervised s q"
    and left: "is_unsupervised t p \<Longrightarrow> is_unsupervised s p \<or>
      (p \<in> X \<or> (p, Starting) \<notin> set (states s)) \<and> generation_of s p \<noteq> None"
    and this_one: "is_live t p \<Longrightarrow> \<not> is_unsupervised t p"
      "is_live t p \<Longrightarrow> is_live s p \<or> p \<in> fst ` set (states s) \<and> pending s p = None \<and> (\<forall>d. Respawning p (current_generation s p) d \<notin> outstanding xs s)"
  shows "orderly k xs a X t"
proof -
  note gen = current_generation_core[OF same(2)]
  have dead: "\<not> is_live t q" if "pending s q \<noteq> None" for q
    using that inv_pending_dead[OF inv, of q] other[of q] this_one(2) by (cases "q = p") auto
  show ?thesis
  proof (rule invI, goal_cases)
    case (2 q)
    then show ?case using inv_live[OF inv, of q] other[of q] this_one by (cases "q = p") (auto simp: same)
  next
    case (6 q d)
    then show ?case using inv_respawn[OF inv, of q d] other[of q] this_one(2) by (cases "q = p") (auto simp: gen same)
  next
    case (7 q c)
    then show ?case using inv_fits[OF inv, of q c] dead[of q] unfolding fits_def gen same by simp
  next
    case (8 q c)
    then show ?case using inv_answered[OF inv, of q c] by (simp add: same)
  next
    case (9 q)
    then show ?case using inv_starting[OF inv, of q] other[of q] left by (cases "q = p") (auto simp: same)
  next
    case (11 q)
    then show ?case using inv_left[OF inv, of q] other[of q] left by (cases "q = p") (auto simp: same)
  qed (use inv_D[OF inv] inv_lossless[OF inv] in \<open>simp_all add: same gen\<close>)
qed

lemma on_pane_keeps [simp]:
  "states (on_pane f p s) = states s" "generation_of (on_pane f p s) = generation_of s"
  "pending (on_pane f p s) = pending s" "detaching (on_pane f p s) = detaching s"
  "stopped_adoption (on_pane f p s) = stopped_adoption s" "sup_out (on_pane f p s) = sup_out s"
  "current_generation (on_pane f p s) = current_generation s" "process_of (on_pane f p s) = process_of s"
  "sup_adopter (on_pane f p s) = sup_adopter s"
  by (auto simp: on_pane_def core_defs current_generation_def process_of_def split: option.splits)

lemma pane_of_on_pane: "pane_of (on_pane f p s) = (pane_of s)(p := map_option f (pane_of s p))"
  by (auto simp: on_pane_def pane_of_def update_conv' fun_eq_iff split: option.splits)

lemma on_pane_live:
  "is_live (on_pane f p s) q \<longleftrightarrow>
     (if q = p then (case pane_of s p of Some x \<Rightarrow> pane_handle (f x) \<noteq> None | None \<Rightarrow> False) else is_live s q)"
  "is_unsupervised (on_pane f p s) q \<longleftrightarrow>
     (if q = p then (case pane_of s p of Some x \<Rightarrow> pane_unsupervised (f x) \<noteq> None | None \<Rightarrow> False)
      else is_unsupervised s q)"
  by (auto simp: is_live_def is_unsupervised_def pane_of_on_pane split: option.splits)

lemma orderly_take_handle: "orderly k xs a X s \<Longrightarrow> orderly k xs a X (on_pane take_handle p s)"
  by (rule orderly_panes[of _ _ _ _ s _ p])
    (auto simp: is_live_def is_unsupervised_def pane_of_on_pane take_handle_def split: option.splits)

lemma not_live_after_take [simp]: "\<not> is_live (on_pane take_handle p s) p"
  by (simp add: on_pane_live take_handle_def split: option.splits)

text \<open>A pane that does not run may be left unsupervised, and a pane may cease to be.\<close>

lemma orderly_set_unsupervised:
  "orderly k xs a X s \<Longrightarrow> \<not> is_live s p \<Longrightarrow> is_unsupervised s p \<or> p \<in> X \<and> generation_of s p \<noteq> None \<or> (\<forall>x. c x = None) \<Longrightarrow>
     orderly k xs a X (on_pane (\<lambda>x. x\<lparr>pane_unsupervised := c x\<rparr>) p s)"
  by (rule orderly_panes[of _ _ _ _ s _ p]) (auto simp: is_live_def is_unsupervised_def pane_of_on_pane split: option.splits)

lemma process_of_iff:
  assumes "distinct (map fst (states s))"
  shows "process_of s p \<noteq> None \<longleftrightarrow> p \<in> fst ` set (states s)"
proof -
  have "distinct (map proc_id (sup_workspace s))" using assms by (simp add: states_def comp_def)
  then show ?thesis
    using workspace_process_Some_iff[of "sup_workspace s" p] unfolding process_of_def states_def by force
qed

lemma state_of_iff:
  assumes "distinct (map fst (states s))"
  shows "state_of s p = Some st \<longleftrightarrow> (p, st) \<in> set (states s)"
proof -
  have "distinct (map proc_id (sup_workspace s))" using assms by (simp add: states_def comp_def)
  then show ?thesis
    using workspace_process_Some_iff[of "sup_workspace s" p] unfolding state_of_def process_of_def states_def by force
qed

lemma drop_handle_dead [simp]: "\<not> is_live s p \<Longrightarrow> drop_handle site p s = s"
  by (auto simp: drop_handle_def is_live_def split: option.splits)

lemma orderly_install_terminal:
  assumes inv: "orderly k xs a X s" and "\<not> is_live s p"
    and handle: "handle \<noteq> None \<Longrightarrow> process_of s p \<noteq> None \<and> pending s p = None \<and>
                   (\<forall>d. Respawning p (current_generation s p) d \<notin> outstanding xs s)"
  shows "orderly k xs a X (fst (install_terminal w p handle s))"
proof (cases "process_of s p = None")
  case True
  with inv handle show ?thesis by (auto simp: install_terminal_def split: option.splits)
next
  case False
  let ?s = "on_attach (\<lambda>book. set_attached book p (case handle of Some h \<Rightarrow> handle_attached_clients h | None \<Rightarrow> 0)) s"
  have inv': "orderly k xs a X ?s" using inv by (rule inv_quiet) (intro quiet_intros)
  have eqs: "current_generation ?s = current_generation s" "pending ?s = pending s" "sup_out ?s = sup_out s"
    "is_live ?s = is_live s" "states ?s = states s"
    by (auto simp: on_attach_def core_defs current_generation_def)
  show ?thesis
  proof (rule orderly_panes[OF inv', where p = p])
    show "is_live (fst (install_terminal w p handle s)) p \<Longrightarrow>
      is_live ?s p \<or> p \<in> fst ` set (states ?s) \<and> pending ?s p = None \<and> (\<forall>d. Respawning p (current_generation ?s p) d \<notin> outstanding xs ?s)"
      using handle False assms(2) process_of_iff[OF inv_distinct[OF inv], of p] unfolding eqs
      by (cases handle) (auto simp: install_terminal_def Let_def is_live_def pane_of_def update_conv')
  qed (use assms(2) False in \<open>auto simp: install_terminal_def Let_def core_defs on_attach_def update_conv'\<close>)
qed

lemma install_terminal_result:
  assumes "\<not> is_live s p"
  shows "snd (install_terminal w p handle s) \<longleftrightarrow> process_of s p \<noteq> None"
    and "states (fst (install_terminal w p handle s)) = states s"
    and "pending (fst (install_terminal w p handle s)) = pending s"
    and "generation_of (fst (install_terminal w p handle s)) = generation_of s"
    and "detaching (fst (install_terminal w p handle s)) = detaching s"
    and "process_of s p \<noteq> None \<Longrightarrow> is_live (fst (install_terminal w p handle s)) p \<longleftrightarrow> handle \<noteq> None"
  using assms
  by (auto simp: install_terminal_def Let_def core_defs on_attach_def update_conv' emit_def process_of_def
      split: option.splits)

end
