(* ===== verification/SupervisorLaws.thy ===== *)
theory SupervisorLaws
  imports Launches
begin

text \<open>Every operation of a supervisor keeps the invariant of its launches.\<close>

declare split_paired_Ex [simp del] split_paired_All [simp del]

section \<open>Panes that do not run\<close>

definition dead :: "supervisor \<Rightarrow> pane_id \<Rightarrow> bool" where
  "dead s p \<longleftrightarrow> \<not> is_live s p \<and> pending s p = None"

text \<open>No launch in flight has the current generation of the pane.\<close>

definition settled :: "supervisor \<Rightarrow> pane_id \<Rightarrow> bool" where
  "settled s p \<longleftrightarrow> (\<forall>c. pending s p = Some c \<longrightarrow> fst c \<noteq> current_generation s p)"

lemma dead_settled [simp]: "dead s p \<Longrightarrow> settled s p"
  by (simp add: dead_def settled_def)

lemma settled_pending:
  assumes "orderly k xs a X s" and "settled s p"
  shows "pending s p = None \<or> detaching s"
proof (rule ccontr)
  assume "\<not> ?thesis"
  then obtain c where c: "pending s p = Some c" "\<not> detaching s" by (auto simp del: split_paired_All)
  then have "generation_of s p = Some (fst c)"
    using inv_fits[OF assms(1) c(1)] by (simp add: fits_def)
  then have "fst c = current_generation s p" by (simp add: current_generation_def)
  with assms(2) c(1) show False by (simp add: settled_def del: split_paired_All)
qed

lemma quiet_core:
  assumes "quiet s t"
  shows "states t = states s" "is_live t = is_live s" "is_unsupervised t = is_unsupervised s"
    "generation_of t = generation_of s" "pending t = pending s" "detaching t = detaching s"
    "stopped_adoption t = stopped_adoption s" "current_generation t = current_generation s"
    "sup_adopter t = sup_adopter s"
  using assms current_generation_core[of t s] by (auto simp: quiet_def core_def)

lemma quiet_dead: "quiet s t \<Longrightarrow> dead t p \<longleftrightarrow> dead s p" and quiet_settled: "quiet s t \<Longrightarrow> settled t p \<longleftrightarrow> settled s p"
  by (simp_all add: dead_def settled_def quiet_core)

lemma dead_become [simp]: "dead (become p st s) q = dead s q" "settled (become p st s) q = settled s q"
  by (simp_all add: dead_def settled_def)

lemma is_starting_pending: "is_starting s p \<longleftrightarrow> pending s p \<noteq> None"
  by (simp add: is_starting_def LaunchBook_is_starting_def pending_def)

lemma pending_states: "orderly k xs a X s \<Longrightarrow> pending s p \<noteq> None \<Longrightarrow> p \<in> fst ` set (states s)"
  using inv_fits unfolding fits_def by blast

lemma is_live_on_pane [simp]:
  "is_live (on_pane (\<lambda>x. x\<lparr>pane_unsupervised := c x\<rparr>) p s) = is_live s"
  "is_live (on_pane (\<lambda>x. x\<lparr>pane_intent := i\<rparr>) p s) = is_live s"
  "is_live (on_pane (\<lambda>x. x\<lparr>pane_membership := m\<rparr>) p s) = is_live s"
  by (auto simp: is_live_def pane_of_on_pane fun_eq_iff split: option.splits)

lemma is_unsupervised_take: "is_unsupervised (on_pane take_handle p s) = is_unsupervised s"
  by (auto simp: is_unsupervised_def pane_of_on_pane take_handle_def fun_eq_iff split: option.splits)

section \<open>Retiring\<close>

lemma states_remove:
  assumes "distinct (map fst (states s))"
  shows "states (s\<lparr>sup_workspace := workspace_remove (sup_workspace s) p\<rparr>) = filter (\<lambda>q. fst q \<noteq> p) (states s)"
proof -
  have "distinct (map proc_id (sup_workspace s))" using assms by (simp add: states_def comp_def)
  from workspace_remove_filter[OF this, of p] show ?thesis by (simp add: states_def filter_map comp_def)
qed

lemma workspace_keeps [simp]:
  "is_live (s\<lparr>sup_workspace := ws\<rparr>) = is_live s" "is_unsupervised (s\<lparr>sup_workspace := ws\<rparr>) = is_unsupervised s"
  "generation_of (s\<lparr>sup_workspace := ws\<rparr>) = generation_of s" "pending (s\<lparr>sup_workspace := ws\<rparr>) = pending s"
  "detaching (s\<lparr>sup_workspace := ws\<rparr>) = detaching s" "stopped_adoption (s\<lparr>sup_workspace := ws\<rparr>) = stopped_adoption s"
  "current_generation (s\<lparr>sup_workspace := ws\<rparr>) = current_generation s"
  "states (s\<lparr>sup_workspace := ws\<rparr>) = map (\<lambda>q. (proc_id q, proc_state q)) ws"
  by (auto simp: core_defs current_generation_def)

text \<open>Another workspace, in which every pane that runs or starts still has its process.\<close>

lemma orderly_workspace:
  assumes inv: "orderly k xs a X s" and "distinct (map proc_id ws)"
    and held: "\<And>q. is_live s q \<or> pending s q \<noteq> None \<Longrightarrow> q \<in> proc_id ` set ws"
    and starting: "\<And>x. x \<in> set ws \<Longrightarrow> proc_state x = Starting \<Longrightarrow> \<not> detaching s \<Longrightarrow>
      proc_id x \<in> Y \<or> pending s (proc_id x) \<noteq> None \<and> \<not> is_unsupervised s (proc_id x)"
  shows "orderly k xs a Y (s\<lparr>sup_workspace := ws\<rparr>)"
proof -
  have ids: "fst ` (\<lambda>q. (proc_id q, proc_state q)) ` set ws = proc_id ` set ws" by (force simp: image_image)
  show ?thesis
  proof (rule invI, goal_cases)
    case (2 q)
    then show ?case using inv_live[OF inv, of q] held[of q] by (simp add: ids)
  next
    case (7 q c)
    then show ?case using inv_fits[OF inv, of q c] held[of q] by (simp add: fits_def ids)
  next
    case (8 q c)
    then show ?case using inv_answered[OF inv, of q c] by simp
  next
    case (9 q)
    then obtain x where "x \<in> set ws" "proc_id x = q" "proc_state x = Starting" by auto
    with starting[of x] 9 show ?case by simp
  qed (use inv_D[OF inv] inv_lossless[OF inv] assms(2) in \<open>simp_all add: comp_def\<close>)
qed

lemma orderly_remove_process:
  assumes inv: "orderly k xs a (insert p X) s" and "dead s p"
  shows "orderly k xs a X (s\<lparr>sup_workspace := workspace_remove (sup_workspace s) p\<rparr>)"
proof -
  have d: "distinct (map proc_id (sup_workspace s))"
    using inv_distinct[OF inv] by (simp add: states_def comp_def)
  note remove = workspace_remove_filter[OF this, of p]
  have ids: "q \<in> proc_id ` set (sup_workspace s)" if "is_live s q \<or> pending s q \<noteq> None" for q
    using that inv_live[OF inv, of q] pending_states[OF inv, of q] by (auto simp: states_def image_image)
  show ?thesis
  proof (rule orderly_workspace[OF inv], goal_cases)
    case (2 q)
    moreover have "q \<noteq> p" using 2 assms(2) by (auto simp: dead_def)
    ultimately show ?case using ids[of q] unfolding remove by auto
  next
    case (3 x)
    then have "(proc_id x, Starting) \<in> set (states s)" by (auto simp: remove states_def image_iff)
    with 3 show ?case using inv_starting[OF inv, of "proc_id x"] unfolding remove by auto
  qed (use d in \<open>simp add: remove distinct_map_filter\<close>)
qed

lemma forget_core [simp]:
  "pending (on_launches (\<lambda>book. LaunchBook_forget book p) s) = pending s"
  "detaching (on_launches (\<lambda>book. LaunchBook_forget book p) s) = detaching s"
  "stopped_adoption (on_launches (\<lambda>book. LaunchBook_forget book p) s) q =
     (if q = p then None else stopped_adoption s q)"
  by (auto simp: on_launches_def LaunchBook_forget_def core_defs)

lemma orderly_forget:
  assumes inv: "orderly k xs a X s"
  shows "orderly k xs a X (on_launches (\<lambda>book. LaunchBook_forget book p) s)"
proof (rule invI, goal_cases)
  case (7 q c)
  then show ?case using inv_fits[OF inv, of q c] by (simp add: fits_def)
next
  case (8 q c)
  then show ?case using inv_answered[OF inv, of q c] by simp
next
  case (5 q g)
  then show ?case using inv_stopped[OF inv, of q g] by (simp split: if_splits)
qed (use inv_D[OF inv] inv_lossless[OF inv] in simp_all)

text \<open>The panes of a supervisor without one.\<close>

lemma delete_pane:
  "states (s\<lparr>sup_panes := ps\<rparr>) = states s" "generation_of (s\<lparr>sup_panes := ps\<rparr>) = generation_of s"
  "pending (s\<lparr>sup_panes := ps\<rparr>) = pending s" "detaching (s\<lparr>sup_panes := ps\<rparr>) = detaching s"
  "stopped_adoption (s\<lparr>sup_panes := ps\<rparr>) = stopped_adoption s" "sup_out (s\<lparr>sup_panes := ps\<rparr>) = sup_out s"
  "pane_of (s\<lparr>sup_panes := AList.delete p (sup_panes s)\<rparr>) = (pane_of s)(p := None)"
  by (auto simp: core_defs delete_conv')

lemma orderly_delete_pane:
  "orderly k xs a X s \<Longrightarrow> orderly k xs a X (s\<lparr>sup_panes := AList.delete p (sup_panes s)\<rparr>)"
  by (rule orderly_panes[of _ _ _ _ s _ p]) (auto simp: delete_pane is_live_def is_unsupervised_def)

lemma orderly_retire_pane:
  assumes inv: "orderly (Suc k) xs None X s" and live: "\<not> is_live s p"
  shows "orderly k xs None X (retire_pane p s)"
proof -
  define s1 where "s1 = forget_readiness p ((\<lambda>s. s\<lparr>sup_replays := (sup_replays s)(p := None)\<rparr>)
    (emit (Forget_Tap p) (forget_probes p (end_waits p None Wait_Stopped Exited (emit (Forget_Log_Read p) s)))))"
  define s2 where "s2 = bump_generation p (s1\<lparr>sup_panes := AList.delete p (sup_panes s1)\<rparr>)"
  define s3 where "s3 = on_metrics (\<lambda>m. MetricsBook_forget m p) (on_attach (\<lambda>book. set_attached book p 0)
    ((\<lambda>s. s\<lparr>sup_failing_reads := sup_failing_reads s - {p}\<rparr>) (on_restarts (\<lambda>book. RestartBook_forget book p) s2)))"
  define s4 where "s4 = on_launches (\<lambda>book. LaunchBook_forget book p) s3"
  have q1: "quiet s s1" unfolding s1_def by (intro quiet_intros) simp_all
  then have live1: "\<not> is_live s1 p" using live by (simp add: quiet_core)
  have "orderly (Suc k) xs None X s1" using inv_quiet[OF inv q1] .
  then have "orderly (Suc k) xs None (insert p X) (s1\<lparr>sup_panes := AList.delete p (sup_panes s1)\<rparr>)"
    by (intro orderly_delete_pane) (erule inv_weaken, auto)
  then have o2: "orderly k xs None (insert p X) s2" unfolding s2_def by (rule orderly_bump) simp
  have d2: "dead s2 p"
    by (simp add: s2_def dead_def is_live_def pane_of_def delete_conv')
  have q3: "quiet s2 s3" unfolding s3_def by (intro quiet_intros)
  have o4: "orderly k xs None (insert p X) s4" unfolding s4_def by (rule orderly_forget[OF inv_quiet[OF o2 q3]])
  have "dead s4 p"
    using d2 quiet_core[OF q3] unfolding s4_def dead_def by simp
  from orderly_remove_process[OF o4 this] show ?thesis
    using live1 unfolding retire_pane_def Let_def s1_def s2_def s3_def s4_def by simp
qed

lemma retire_pane_dead:
  assumes "\<not> is_live s p"
  shows "dead (retire_pane p s) p"
  using assms
  by (simp add: retire_pane_def Let_def dead_def forget_readiness_def forget_probes_def end_waits_def
      is_live_def pane_of_def delete_conv' emit_def bump_generation_def advance_generation_def on_launches_def
      on_restarts_def on_attach_def on_metrics_def LaunchBook_forget_def LaunchBook_cancel_def pending_def
      drop_handle_def split: option.splits)

section \<open>Processes left unsupervised\<close>

lemma orderly_leave_unsupervised:
  assumes inv: "orderly k xs a X s" and live: "\<not> is_live s p" and known: "generation_of s p \<noteq> None"
  shows "orderly k xs a X (fst (leave_unsupervised w p pid token s))"
    and "\<not> is_live (fst (leave_unsupervised w p pid token s)) p"
    and "pending (fst (leave_unsupervised w p pid token s)) = pending s"
    and "generation_of (fst (leave_unsupervised w p pid token s)) = generation_of s"
    and "detaching (fst (leave_unsupervised w p pid token s)) = detaching s"
proof -
  define s1 where "s1 = (if pane_of s p = None then fst (install_terminal w p None s) else s)"
  define s2 where "s2 = deactivate p s1"
  have o1: "orderly k xs a X s1" and live1: "\<not> is_live s1 p" and pend1: "pending s1 = pending s"
    and gen1: "generation_of s1 = generation_of s" and det1: "detaching s1 = detaching s"
    using inv live orderly_install_terminal[OF inv live, of None w] install_terminal_result[OF live, of w None]
    unfolding s1_def by (auto simp: install_terminal_def)
  have q2: "quiet s1 s2" unfolding s2_def using live1 by (intro quiet_intros)
  then have o2: "orderly k xs a X s2" and live2: "\<not> is_live s2 p"
    using inv_quiet[OF o1 q2] live1 by (simp_all add: quiet_core)
  have o3: "orderly k xs a X (become p Unsupervised (on_pane (\<lambda>x. x\<lparr>pane_unsupervised := Some child\<rparr>) p s2))" for child
  proof -
    have "orderly k xs a (insert p X) s2" by (rule inv_weaken[OF o2]) auto
    then have "orderly k xs a (insert p X) (on_pane (\<lambda>x. x\<lparr>pane_unsupervised := Some child\<rparr>) p s2)"
      by (rule orderly_set_unsupervised[OF _ live2]) (use known gen1 quiet_core(4)[OF q2] in simp)
    then show ?thesis by (intro inv_weaken[OF inv_become]) auto
  qed
  have split: "fst (leave_unsupervised w p pid token s) =
      (case observe_expected w pid token of
         None \<Rightarrow> s
       | Some child \<Rightarrow> if pane_of s p = None \<and> \<not> snd (install_terminal w p None s) then s1
           else become p Unsupervised (on_pane (\<lambda>x. x\<lparr>pane_unsupervised := Some child\<rparr>) p s2))"
    unfolding leave_unsupervised_def s1_def s2_def by (auto split: option.splits prod.splits)
  show "orderly k xs a X (fst (leave_unsupervised w p pid token s))"
    unfolding split using inv o1 o3 by (auto split: option.splits)
  show "\<not> is_live (fst (leave_unsupervised w p pid token s)) p"
    unfolding split using live live1 live2 by (auto split: option.splits)
  show "pending (fst (leave_unsupervised w p pid token s)) = pending s"
    unfolding split using pend1 quiet_core[OF q2] by (auto split: option.splits)
  show "generation_of (fst (leave_unsupervised w p pid token s)) = generation_of s"
    unfolding split using gen1 quiet_core[OF q2] by (auto split: option.splits)
  show "detaching (fst (leave_unsupervised w p pid token s)) = detaching s"
    unfolding split using det1 quiet_core[OF q2] by (auto split: option.splits)
qed

lemma retire_pane_ends: "\<not> is_unsupervised (retire_pane p t) p"
  by (simp add: retire_pane_def Let_def is_unsupervised_def pane_of_def delete_conv' bump_generation_def
      advance_generation_def on_launches_def on_restarts_def on_attach_def on_metrics_def)

lemma orderly_settle_unsupervised_exit:
  assumes inv: "orderly (Suc k) xs None X s" and live: "\<not> is_live s p" and "settled s p"
  shows "orderly k xs None X (settle_unsupervised_exit p s)"
    and "\<not> is_live (settle_unsupervised_exit p s) p"
    and "pending s p = None \<Longrightarrow> pending (settle_unsupervised_exit p s) p = None"
    and "\<not> is_unsupervised (settle_unsupervised_exit p s) p"
proof -
  define s1 where "s1 = (case sup_collect_after_stop s p of
      Some socket \<Rightarrow> emit (Collecting socket False) (s\<lparr>sup_collect_after_stop := (sup_collect_after_stop s)(p := None)\<rparr>)
    | None \<Rightarrow> s)"
  define s2 where "s2 = on_pane (\<lambda>x. x\<lparr>pane_unsupervised := None\<rparr>) p s1"
  define s3 where "s3 = on_pane (\<lambda>x. x\<lparr>pane_intent := FollowPolicy\<rparr>) p s2"
  have q1: "quiet s s1" unfolding s1_def by (auto intro!: quiet_intros split: option.splits)
  note o1 = inv_quiet[OF inv q1]
  have live1: "\<not> is_live s1 p" and set1: "settled s1 p" using live assms(3) q1 by (simp_all add: quiet_core quiet_settled)
  have o2: "orderly (Suc k) xs None X s2" unfolding s2_def by (rule orderly_set_unsupervised[OF o1 live1]) simp
  have live2: "\<not> is_live s2 p" and set2: "settled s2 p"
    using live1 set1 unfolding s2_def settled_def by simp_all
  have q3: "quiet s2 s3" unfolding s3_def by (intro quiet_intros) simp_all
  note o3 = inv_quiet[OF o2 q3]
  have live3: "\<not> is_live s3 p" and set3: "settled s3 p"
    using live2 set2 q3 by (simp_all add: quiet_core quiet_settled)
  have o4: "orderly k xs None X (bump_generation p s3)"
    using orderly_bump[OF o3] settled_pending[OF o3 set3] by blast
  have q5: "quiet (bump_generation p s3) (deactivate p (bump_generation p s3))"
    using live3 by (intro quiet_intros) simp
  have o6: "orderly k xs None X (become p Exited (deactivate p (bump_generation p s3)))"
    by (rule inv_weaken[OF inv_become[OF inv_quiet[OF o4 q5]]]) auto
  have split: "settle_unsupervised_exit p s =
      (case pane_of s1 p of
         None \<Rightarrow> s1
       | Some x \<Rightarrow> if pane_membership x = RetireOnExit then retire_pane p s2
           else become p Exited (deactivate p (bump_generation p s3)))"
    unfolding settle_unsupervised_exit_def Let_def s1_def s2_def s3_def by (rule refl)
  show "orderly k xs None X (settle_unsupervised_exit p s)"
    unfolding split using inv_weaken[OF o1, of k] orderly_retire_pane[OF o2 live2] o6 by (auto split: option.splits)
  show "\<not> is_live (settle_unsupervised_exit p s) p"
    unfolding split using live1 retire_pane_dead[OF live2] quiet_core[OF q5] live3
    by (auto simp: dead_def split: option.splits)
  show "pending (settle_unsupervised_exit p s) p = None" if "pending s p = None"
    unfolding split using that retire_pane_dead[OF live2] quiet_core[OF q5] quiet_core[OF q1]
    by (auto simp: dead_def split: option.splits)
  have "\<not> is_unsupervised s3 p"
    by (simp add: s3_def s2_def is_unsupervised_def pane_of_on_pane split: option.splits)
  then show "\<not> is_unsupervised (settle_unsupervised_exit p s) p"
    unfolding split using retire_pane_ends quiet_core(3)[OF q5]
    by (cases "pane_of s1 p") (simp_all add: is_unsupervised_def[of s1])
qed

lemma settled_generation: "settled s p \<Longrightarrow> generation_of s p = Some g \<Longrightarrow> pending s p = Some c \<Longrightarrow> fst c \<noteq> g"
  by (simp add: settled_def current_generation_def del: split_paired_All)

lemma orderly_check_unsupervised_after:
  assumes inv: "orderly k xs None X s" and "settled s p"
  shows "orderly k xs None X (check_unsupervised_after p wait s)"
proof -
  have q: "quiet s (advance_shutdown_generation p s)" by (intro quiet_intros)
  note o1 = inv_quiet[OF inv q]
  have "settled (advance_shutdown_generation p s) p" using assms(2) q by (simp add: quiet_settled)
  with o1 show ?thesis
    unfolding check_unsupervised_after_def Let_def schedule_force_stop_def
    by (auto intro!: orderly_emit_force_stop dest: settled_generation split: option.splits)
qed

lemma orderly_give_up: "orderly k xs a X s \<Longrightarrow> orderly k xs a X (give_up_unsupervised_stop p s)"
  unfolding give_up_unsupervised_stop_def
  by (rule inv_weaken[OF inv_become[OF inv_quiet]]) (auto intro!: quiet_intros)

lemma orderly_signal_unsupervised:
  assumes inv: "orderly (Suc k) xs None X s" and live: "\<not> is_live s p" and "settled s p"
  shows "orderly k xs None X (signal_unsupervised w p sig wait s)"
proof -
  have q: "quiet s (emit (Signalling pid sig) s)" for pid by (intro quiet_intros) simp_all
  have o1: "orderly (Suc k) xs None X (emit (Signalling pid sig) s)" for pid by (rule inv_quiet[OF inv q])
  have exit1: "orderly k xs None X (settle_unsupervised_exit p (emit (Signalling pid sig) s))" for pid
    using orderly_settle_unsupervised_exit(1)[OF o1[of pid]] live assms(3) by (simp add: settled_def)
  have give1: "orderly k xs None X (notify (give_up_unsupervised_stop p (emit (Signalling pid sig) s)) level po m)" for pid level po m
    by (rule inv_weaken[OF inv_quiet[OF orderly_give_up[OF o1[of pid]]]]) (auto intro!: quiet_intros)
  have after1: "orderly k xs None X (check_unsupervised_after p wait
      (become p Stopping (on_pane (change_intent f) p (emit (Signalling pid sig) s))))" for pid f
  proof (rule orderly_check_unsupervised_after)
    show "orderly k xs None X (become p Stopping (on_pane (change_intent f) p (emit (Signalling pid sig) s)))"
      by (rule inv_weaken[OF inv_become[OF inv_quiet[OF o1[of pid]]]]) (auto intro!: quiet_intros)
  qed (use assms(3) in \<open>simp add: settled_def\<close>)
  show ?thesis
    unfolding signal_unsupervised_def Let_def
    using inv_weaken[OF inv, of k] orderly_settle_unsupervised_exit(1)[OF assms] exit1 give1 after1
    by (auto split: option.splits)
qed

lemma orderly_stop_unsupervised:
  assumes inv: "orderly (Suc k) xs None X s" and live: "\<not> is_live s p" and "settled s p"
  shows "orderly k xs None X (stop_unsupervised w p force s)"
proof -
  have q: "quiet s (on_pane (\<lambda>x. x\<lparr>pane_unsupervised := map_option (begin_stop d) (pane_unsupervised x)\<rparr>) p s)" for d
    by (intro quiet_intros) simp_all
  have "orderly k xs None X (signal_unsupervised w p sig wait
      (on_pane (\<lambda>x. x\<lparr>pane_unsupervised := map_option (begin_stop d) (pane_unsupervised x)\<rparr>) p s))" for sig wait d
    using assms(3) live quiet_settled[OF q[of d]] by (intro orderly_signal_unsupervised[OF inv_quiet[OF inv q[of d]]]) simp_all
  with inv_weaken[OF inv, of k] show ?thesis
    unfolding stop_unsupervised_def Let_def by (auto split: option.splits prod.splits)
qed

lemma orderly_escalate_kill:
  assumes inv: "orderly (Suc k) xs None X s" and live: "\<not> is_live s p" and "settled s p" and "is_unsupervised s p"
  shows "orderly k xs None X (escalate_kill w p child s)"
proof -
  let ?keep = "\<lambda>child. on_pane (\<lambda>x. x\<lparr>pane_unsupervised := Some child\<rparr>) p s"
  have o1: "orderly (Suc k) xs None X (?keep child)" for child
    by (rule orderly_set_unsupervised[OF inv live]) (use assms(4) in simp)
  have "orderly k xs None X (signal_unsupervised w p sig wait (?keep child))" for sig wait child
    using live assms(3) by (intro orderly_signal_unsupervised[OF o1]) (simp_all add: settled_def)
  moreover have "orderly k xs None X (notify (give_up_unsupervised_stop p (?keep child)) level po m)" for child level po m
    by (rule inv_weaken[OF inv_quiet[OF orderly_give_up[OF o1[of child]]]]) (auto intro!: quiet_intros)
  ultimately show ?thesis
    unfolding escalate_kill_def Let_def by (auto split: prod.splits)
qed

lemma orderly_escalate_unsupervised:
  assumes inv: "orderly (Suc k) xs None X s" and live: "\<not> is_live s p" and "settled s p"
  shows "orderly k xs None X (escalate_unsupervised w p s)"
  using inv_weaken[OF inv, of k] orderly_settle_unsupervised_exit(1)[OF assms] orderly_escalate_kill[OF assms]
    orderly_check_unsupervised_after[OF inv_weaken[OF inv, of k] assms(3)]
  unfolding escalate_unsupervised_def by (auto simp: is_unsupervised_def bind_eq_Some_conv split: option.splits)

lemma orderly_refuse_unsupervised_launch:
  assumes inv: "orderly (Suc k) xs None X s" and dead: "dead s p"
  shows "orderly k xs None X (fst (refuse_unsupervised_launch w p s))"
    and "dead (fst (refuse_unsupervised_launch w p s)) p"
    and "\<not> snd (refuse_unsupervised_launch w p s) \<Longrightarrow> \<not> is_unsupervised (fst (refuse_unsupervised_launch w p s)) p"
proof -
  have q: "quiet s (let (s, retried) = retry_adoption_now w p s in if retried then s else refuse_unsupervised_start p pid s)" for pid
    unfolding Let_def split_beta by (auto intro!: quiet_intros)
  have live: "\<not> is_live s p" and set: "settled s p" and none: "pending s p = None" using dead by (simp_all add: dead_def)
  note exit = orderly_settle_unsupervised_exit[OF inv live set]
  have qn: "quiet (settle_unsupervised_exit p s) (notify_process (settle_unsupervised_exit p s) level no m)" for level no m
    by (intro quiet_intros)
  have split: "fst (refuse_unsupervised_launch w p s) =
      (if \<not> is_unsupervised s p then s
       else case running_unsupervised_pid w s p of
              Some pid \<Rightarrow> (let (s, retried) = retry_adoption_now w p s in if retried then s else refuse_unsupervised_start p pid s)
            | None \<Rightarrow> if process_of (settle_unsupervised_exit p s) p = None
                then notify_process (settle_unsupervised_exit p s) Level_Error (name_of s (Some p))
                       (utf ''cannot start: the process was removed from the project and has exited'')
                else settle_unsupervised_exit p s)"
    unfolding refuse_unsupervised_launch_def Let_def by (auto split: option.splits prod.splits)
  show "orderly k xs None X (fst (refuse_unsupervised_launch w p s))"
    unfolding split using inv_weaken[OF inv, of k] inv_quiet[OF inv_weaken[OF inv, of k] q] exit(1) inv_quiet[OF exit(1) qn]
    by (auto split: option.splits)
  have "dead (settle_unsupervised_exit p s) p" using exit(2,3) none by (simp add: dead_def)
  then show "dead (fst (refuse_unsupervised_launch w p s)) p"
    unfolding split using dead quiet_dead[OF q] quiet_dead[OF qn] by (auto split: option.splits)
  show "\<not> is_unsupervised (fst (refuse_unsupervised_launch w p s)) p" if "\<not> snd (refuse_unsupervised_launch w p s)"
    using that exit(4) unfolding refuse_unsupervised_launch_def Let_def
    by (auto split: option.splits prod.splits if_splits)
qed

section \<open>Launching\<close>

lemma launch_generation_new [simp]: "launch_generation (PendingLaunch_new g st pu) = g"
  by (simp add: PendingLaunch_new_def)

lemma fits_quiet: "fits (outstanding xs s) s p c \<Longrightarrow> quiet s t \<Longrightarrow> fits (outstanding xs t) t p c"
  by (rule fits_grow[of t s _ "outstanding xs s"]) (auto simp: quiet_def harmless_def)

lemma orderly_block_launch: "orderly k xs a X s \<Longrightarrow> orderly k xs a (X - {p}) (block_launch p block s)"
  unfolding block_launch_def Let_def
  by (rule inv_become, erule inv_quiet) (auto intro!: quiet_intros split: option.splits)

lemma orderly_refuse_blocked_launch:
  assumes "orderly k xs a X s"
  shows "orderly k xs a X (fst (refuse_blocked_launch p s))"
  using inv_weaken[OF orderly_block_launch[OF assms], where k' = k and X' = X] assms
  by (auto simp: refuse_blocked_launch_def intro!: inv_quiet[OF assms] quiet_intros split: option.splits)

lemma not_starting:
  assumes "orderly k xs a {} s" and "pending s p = None" and "\<not> detaching s"
  shows "state_of s p \<noteq> Some Starting"
  using inv_starting[OF assms(1) assms(3), of p] assms(2) state_of_iff[OF inv_distinct[OF assms(1)], of p] by auto

text \<open>A launch with a new generation, its process shown as starting, and the thread that answers it.\<close>

lemma orderly_new_launch:
  assumes inv: "orderly (Suc k) xs None X s" and live: "\<not> is_live s p" and proc: "process_of s p \<noteq> None"
    and free: "p \<in> X \<or> pending s p = None \<or> detaching s \<or> (p, Starting) \<notin> set (states s)"
    and prior: "\<not> detaching s \<longrightarrow> never_starting (current_generation (bump_generation p s) p, st, purpose_kind pu)"
    and adopter: "sup_adopter s \<or> (\<forall>carried. purpose_kind pu \<noteq> Purpose_Adopt (Some carried))"
    and q: "quiet (bump_generation p s) t"
    and l: "l = PendingLaunch_new (current_generation (bump_generation p s) p) st pu"
    and e: "stamp e = Some (p, launch_generation l)" "answers e p (core_of l)" "\<And>g d. e \<noteq> Respawning p g d"
  shows "\<not> is_unsupervised s p \<Longrightarrow>
      orderly k xs None (X - {p}) (emit e (become p Starting (on_launches (\<lambda>book. LaunchBook_begin book p l) t)))"
    and "orderly k xs None X (emit e (on_launches (\<lambda>book. LaunchBook_begin book p l) t))"
proof -
  let ?b = "bump_generation p s"
  have o1: "orderly k xs None X ?b" by (rule orderly_bump[OF inv free])
  have ids: "p \<in> fst ` set (states s)" using proc process_of_iff[OF inv_distinct[OF inv]] by blast
  have "fits (outstanding xs ?b) ?b p (core_of l)"
    unfolding l core_of_new using fits_after_bump[OF inv live ids prior adopter] .
  from orderly_begin[OF inv_quiet[OF o1 q] fits_quiet[OF this q]]
  have o2: "orderly k xs (Some (p, launch_generation l)) X (on_launches (\<lambda>book. LaunchBook_begin book p l) t)" .
  have g: "generation_of t p = Some (launch_generation l)"
    using quiet_core(4)[OF q] by (simp add: l PendingLaunch_new_def)
  show "orderly k xs None X (emit e (on_launches (\<lambda>book. LaunchBook_begin book p l) t))"
    by (rule orderly_emit_answer[OF o2 e(1)]) (use g e in \<open>simp_all\<close>)
  show "orderly k xs None (X - {p}) (emit e (become p Starting (on_launches (\<lambda>book. LaunchBook_begin book p l) t)))"
    if "\<not> is_unsupervised s p"
    by (rule orderly_emit_answer[OF inv_become[OF o2] e(1)]) (use that g e quiet_core(3)[OF q] in \<open>simp_all\<close>)
qed

lemma orderly_launch:
  assumes inv: "orderly (Suc k) xs None {} s" and dead: "dead s p" and "\<not> is_unsupervised s p"
  shows "orderly k xs None {} (launch w p environment s)"
proof (cases "state_of s p")
  case None
  then show ?thesis
    unfolding launch_def by (simp add: inv_weaken[OF inv_quiet[OF inv]] quiet_intros)
next
  case (Some prior)
  define s1 where "s1 = with_environment p environment s"
  define s2 where "s2 = on_metrics (\<lambda>m. m\<lparr>mb_usage := (mb_usage m)(p := None)\<rparr>) s1"
  have q1: "quiet s s1" and q2: "quiet s s2"
    unfolding s1_def s2_def by (intro quiet_intros)+
  have st: "prior \<noteq> Starting" if "\<not> detaching s"
    using not_starting[OF inv _ that, of p] dead Some by (auto simp: dead_def)
  have proc: "process_of s2 p \<noteq> None"
    using Some process_of_iff[OF inv_distinct[OF inv], of p] process_of_iff[OF inv_distinct[OF inv_quiet[OF inv q2]], of p]
      quiet_core(1)[OF q2] by (auto simp: state_of_def)
  have "orderly k xs None ({} - {p}) (emit e (become p Starting (on_launches (\<lambda>book. LaunchBook_begin book p
      (PendingLaunch_new (current_generation (bump_generation p s2) p) prior (Purpose_Spawn r))) (begin_run w p (bump_generation p s2)))))"
    if "e = Launching p (current_generation (bump_generation p s2) p) request needed" for e r request needed
    using that st dead quiet_dead[OF q2, of p] quiet_core[OF q2] proc assms(3)
    by (intro orderly_new_launch(1)[OF inv_quiet[OF inv q2], OF _ _ _ _ _ _ refl])
      (auto simp: dead_def intro!: quiet_intros)
  moreover have gens: "current_generation (begin_run w p (bump_generation p s2)) p = current_generation (bump_generation p s2) p"
    by (intro fun_cong[OF quiet_core(8)] quiet_intros)
  moreover have "orderly k xs None {} s1" by (rule inv_weaken[OF inv_quiet[OF inv q1]]) auto
  ultimately show ?thesis
    using Some unfolding launch_def Let_def s2_def s1_def with_environment_def
    by (auto split: option.splits)
qed

lemma orderly_spawn_with:
  assumes inv: "orderly (Suc (Suc k)) xs None {} s" and live: "\<not> is_live s p"
  shows "orderly k xs None {} (spawn_with w p environment s)"
proof (cases "is_starting s p")
  case True
  then show ?thesis using inv_weaken[OF inv, of k] by (simp add: spawn_with_def)
next
  case False
  then have dead: "dead s p" using live by (simp add: dead_def is_starting_pending)
  obtain s1 b1 where r1: "refuse_unsupervised_launch w p s = (s1, b1)" by fastforce
  obtain s2 b2 where r2: "refuse_stored_problem w p s1 = (s2, b2)" by fastforce
  obtain s3 b3 where r3: "refuse_blocked_launch p s2 = (s3, b3)" by fastforce
  have o1: "orderly (Suc k) xs None {} s1" and d1: "dead s1 p" and u1: "\<not> b1 \<Longrightarrow> \<not> is_unsupervised s1 p"
    using orderly_refuse_unsupervised_launch[OF inv dead, of w] by (simp_all add: r1)
  have q2: "quiet s1 s2" using quiet_refuse_stored_problem[of s1 s1 w p] by (simp add: r2)
  have o2: "orderly (Suc k) xs None {} s2" and d2: "dead s2 p" using inv_quiet[OF o1 q2] d1 quiet_dead[OF q2] by simp_all
  have o3: "orderly (Suc k) xs None {} s3"
    using orderly_refuse_blocked_launch[OF o2, of p] by (simp add: r3)
  have d3: "dead s3 p" and u3: "is_unsupervised s3 p = is_unsupervised s1 p" if "\<not> b3"
  proof -
    have "quiet s2 s3" using that r3 by (auto simp: refuse_blocked_launch_def intro!: quiet_intros split: option.splits)
    then show "dead s3 p" "is_unsupervised s3 p = is_unsupervised s1 p"
      using d2 quiet_core(3)[OF q2] by (simp_all add: quiet_dead quiet_core)
  qed
  show ?thesis
    using False inv_weaken[OF o1, of k] inv_weaken[OF o2, of k] inv_weaken[OF o3, of k] orderly_launch[OF o3 d3] u1 u3
    by (simp add: spawn_with_def r1 r2 r3 split: bool.splits)
qed

section \<open>Exits\<close>

lemma become_not_starting:
  "distinct (map fst (states s)) \<Longrightarrow> st \<noteq> Starting \<Longrightarrow> (p, Starting) \<notin> set (states (become p st s))"
  by (auto simp: states_become split: if_splits)

lemma orderly_schedule_restart:
  assumes inv: "orderly (Suc k) xs None X s" and live: "\<not> is_live s p" and st: "(p, Starting) \<notin> set (states s)"
  shows "orderly k xs None X (schedule_restart w p started_at s)"
proof -
  have "orderly k xs None X (emit (Respawning p (current_generation t p) d) t)"
    if "t = bump_generation p (s\<lparr>sup_restarts := book\<rparr>)" for t d book
  proof -
    have q: "quiet s (s\<lparr>sup_restarts := book\<rparr>)" by (intro quiet_intros)
    have "orderly k xs None X t"
      unfolding that using st quiet_core[OF q] by (intro orderly_bump[OF inv_quiet[OF inv q]]) simp
    then show ?thesis
      using live quiet_core[OF q] by (intro orderly_emit_respawn) (simp_all add: that)
  qed
  then show ?thesis
    unfolding schedule_restart_def Let_def by (simp split: prod.splits)
qed

lemma orderly_deactivate: "orderly k xs a X s \<Longrightarrow> \<not> is_live s p \<Longrightarrow> orderly k xs a X (deactivate p s)"
  by (erule inv_quiet) (intro quiet_intros)

lemma deactivate_core:
  assumes "\<not> is_live s p"
  shows "states (deactivate p s) = states s" "is_live (deactivate p s) = is_live s" "pending (deactivate p s) = pending s"
    "detaching (deactivate p s) = detaching s"
  using quiet_core[OF quiet_deactivate[OF quiet_refl assms]] by simp_all

lemma orderly_apply_decision:
  assumes inv: "orderly (Suc (Suc k)) xs None {} s" and live: "\<not> is_live s p" and st: "decision \<noteq> Settle Starting"
  shows "orderly k xs None {} (apply_decision w p started_at decision s)"
proof (cases decision)
  case Retire
  then show ?thesis
    using inv_weaken[OF orderly_retire_pane[OF inv live], of k] by (simp add: apply_decision_def)
next
  case Stop
  then show ?thesis
    using inv_weaken[OF inv_become[OF orderly_deactivate[OF inv live], of Exited p], where k' = k and X' = "{}"] by (simp add: apply_decision_def)
next
  case RestartNow
  let ?s = "become p Restarting (on_restarts (\<lambda>book. reset_backoff book p) s)"
  have "orderly (Suc (Suc k)) xs None {} ?s"
    by (rule inv_weaken[OF inv_become[OF inv_quiet[OF inv]]]) (auto intro!: quiet_intros)
  from orderly_deactivate[OF this] show ?thesis
    using RestartNow live by (auto simp: apply_decision_def spawn_def deactivate_core intro!: orderly_spawn_with)
next
  case RestartLater
  have o1: "orderly (Suc (Suc k)) xs None {} (become p Restarting s)"
    by (rule inv_weaken[OF inv_become[OF inv]]) auto
  have "orderly k xs None {} (schedule_restart w p started_at (deactivate p (become p Restarting s)))"
    by (rule inv_weaken[OF orderly_schedule_restart[OF orderly_deactivate[OF o1]]])
      (use live become_not_starting[OF inv_distinct[OF inv]] in \<open>simp_all add: deactivate_core\<close>)
  with RestartLater show ?thesis by (simp add: apply_decision_def)
next
  case (Settle state)
  then show ?thesis
    using inv_weaken[OF inv_become[OF orderly_deactivate[OF inv live], of state p], where k' = k and X' = "{}"] st
    by (simp add: apply_decision_def)
qed

lemma after_exit_not_starting: "after_exit intent gone restart outcome \<noteq> Settle Starting"
  by (simp add: after_exit_def exit_state_def split: exit_intent.splits exit_outcome.splits)

lemma orderly_apply_exit:
  assumes inv: "orderly (Suc (Suc k)) xs None {} s" and live: "\<not> is_live s p"
  shows "orderly k xs None {} (fst (apply_exit w p outcome s))"
proof (cases "pane_of s p")
  case None
  then show ?thesis using inv_weaken[OF inv, of k] by (simp add: apply_exit_def)
next
  case (Some x)
  have q: "quiet s (on_restarts f (store_end w p so (end_run w p g reason state m
      (report_unrequested_exit w p intent started_at outcome s))))" for f so g reason state m intent started_at
    by (intro quiet_intros)
  show ?thesis
    unfolding apply_exit_def Let_def Some option.case fst_conv
    by (rule orderly_apply_decision[OF inv_quiet[OF inv q]])
      (use live after_exit_not_starting quiet_core(2)[OF q] in \<open>simp_all\<close>)
qed

lemma orderly_handle_exit:
  assumes inv: "orderly (Suc (Suc k)) xs None {} s"
  shows "orderly k xs None {} (handle_exit w p outcome s)"
proof (cases "Option.bind (pane_of s p) pane_handle")
  case None
  then have "\<not> is_live s p" by (auto simp: is_live_def bind_eq_None_conv split: option.splits)
  with inv None show ?thesis by (simp add: handle_exit_def orderly_apply_exit)
next
  case (Some finished)
  obtain t retired where t: "apply_exit w p outcome (on_pane take_handle p s) = (t, retired)" by fastforce
  have o1: "orderly k xs None {} t"
    using orderly_apply_exit[OF orderly_take_handle[OF inv] not_live_after_take, of w p outcome] by (simp add: t)
  have "quiet t (handle_exit w p outcome s)"
    unfolding handle_exit_def Some option.case t Let_def prod.case split_beta
    by (auto intro!: quiet_intros split: option.splits)
  from inv_quiet[OF o1 this] show ?thesis .
qed

section \<open>Reconnecting and output\<close>

lemma orderly_reconnect_failed:
  assumes inv: "orderly (Suc (Suc k)) xs None {} s" and dead: "dead s p" and known: "generation_of s p \<noteq> None"
  shows "orderly k xs None {} (reconnect_failed w p carried r error s)"
proof -
  define left where "left = (case carried_pid carried of
      Some pid \<Rightarrow> leave_unsupervised w p pid (Option.bind r hr_child_start_token) s
    | None \<Rightarrow> (s, False))"
  obtain s1 running where s1: "left = (s1, running)" by fastforce
  have live: "\<not> is_live s p" using dead by (simp add: dead_def)
  have o1: "orderly (Suc (Suc k)) xs None {} s1" and d1: "dead s1 p"
    using s1 inv dead orderly_leave_unsupervised[OF inv live known] unfolding left_def
    by (auto simp: dead_def split: option.splits) (metis fst_conv)+
  define s2 where "s2 = report_reconnect_failure p carried r error running
      (case r of Some r \<Rightarrow> if running then s1 else collect_exit r s1 | None \<Rightarrow> s1)"
  have q2: "quiet s1 s2" unfolding s2_def by (intro quiet_intros) (auto intro!: quiet_intros split: option.splits)
  note o2 = inv_quiet[OF o1 q2]
  have d2: "dead s2 p" using d1 quiet_dead[OF q2] by simp
  have stop: "orderly k xs None {} (stop_unsupervised w p False s2)"
    by (rule inv_weaken[OF orderly_stop_unsupervised[OF o2]]) (use d2 in \<open>auto simp: dead_def\<close>)
  have q3: "quiet s2 (on_pane (restore carried) p s2)" by (intro quiet_intros)
  have exit: "orderly k xs None {} (fst (apply_exit w p FAILED_UNKNOWN (on_pane (restore carried) p s2)))"
    by (rule orderly_apply_exit[OF inv_quiet[OF o2 q3]]) (use d2 quiet_core(2)[OF q3] in \<open>simp add: dead_def\<close>)
  show ?thesis
    unfolding reconnect_failed_def Let_def left_def[symmetric] s1 prod.case s2_def[symmetric]
    using stop exit inv_weaken[OF o2, of k] by simp
qed

lemma quiet_drop_reconnect: "quiet s (drop_handle At_Reconnect p s)"
  unfolding drop_handle_def by (auto intro!: quiet_intros split: option.splits)

lemma carry_over_live: "Option.bind (pane_of s p) (carry_over state) = Some carried \<Longrightarrow> is_live s p \<and> carried_state carried = state"
  by (auto simp: bind_eq_Some_conv carry_over_def is_live_def)

lemma orderly_reconnect:
  assumes inv: "orderly (Suc (Suc (Suc k))) xs None {} s"
  shows "orderly k xs None {} (reconnect w p s)"
proof (cases "Option.bind (pane_of s p) (carry_over (state_of s p))")
  case None
  then show ?thesis using inv_weaken[OF inv, of k] by (simp add: reconnect_def)
next
  case (Some carried)
  note carry = carry_over_live[OF Some]
  then have live: "is_live s p" and cs: "carried_state carried = state_of s p" by auto
  have none: "pending s p = None" using live inv_pending_dead[OF inv] by blast
  let ?s1 = "on_pane take_handle p (drop_handle At_Reconnect p s)"
  note qd = quiet_core[OF quiet_drop_reconnect[of s p]]
  have o1: "orderly (Suc (Suc (Suc k))) xs None {} ?s1"
    by (rule orderly_take_handle[OF inv_quiet[OF inv quiet_drop_reconnect]])
  have proc: "process_of ?s1 p \<noteq> None"
    using inv_live[OF inv live] process_of_iff[OF inv_distinct[OF o1], of p] by (simp add: qd)
  have st: "state_of s p \<noteq> Some Starting" if "\<not> detaching s"
    using not_starting[OF inv none that] .
  have ob: "orderly (Suc (Suc k)) xs None {} (bump_generation p ?s1)"
    by (rule orderly_bump[OF o1]) (simp add: qd none)
  have fail: "orderly k xs None {} (reconnect_failed w p carried None None (bump_generation p ?s1))"
    by (rule orderly_reconnect_failed[OF ob]) (simp_all add: dead_def)
  let ?g = "current_generation (bump_generation p ?s1) p"
  let ?l = "PendingLaunch_new ?g (unwrap_or (state_of s p) Pending) (Purpose_Adopt (Some carried))"
  have "orderly (Suc (Suc k)) xs None ({} - {p}) (emit (Locating p ?g pid)
      (become p Starting (on_launches (\<lambda>book. LaunchBook_begin book p ?l) (bump_generation p ?s1))))"
    if "sup_adopter s" for pid
    by (rule orderly_new_launch(1)[OF o1 _ proc _ _ _ quiet_refl refl])
      (use that none st inv_live[OF inv live] in
        \<open>auto simp: qd cs unwrap_or_def is_unsupervised_take split: option.splits\<close>)
  then have "orderly k xs None {} (emit (Locating p ?g pid)
      (become p Starting (on_launches (\<lambda>book. LaunchBook_begin book p ?l) (bump_generation p ?s1))))"
    if "sup_adopter s" for pid
    by (rule inv_weaken) (use that in auto)
  with fail show ?thesis
    using Some unfolding reconnect_def Let_def by (auto simp: qd split: option.splits)
qed

lemma orderly_take_output:
  assumes inv: "orderly (Suc (Suc (Suc k))) xs None {} s"
  shows "orderly k xs None {} (take_output w p output s)"
proof (cases "output")
  case (Unreadable reason)
  have q: "quiet s (notify s Level_Error (Some p) m)" for m by (intro quiet_intros)
  show ?thesis
    unfolding Unreadable take_output_def process_output.case by (rule orderly_reconnect[OF inv_quiet[OF inv q]])
next
  case (Output_Exited outcome)
  then show ?thesis
    using inv_weaken[OF orderly_handle_exit[OF inv], of k] by (simp add: take_output_def)
qed (auto simp: take_output_def intro!: inv_weaken[OF inv_quiet[OF inv]] quiet_intros)

lemma quiet_keep_early: "quiet s (s\<lparr>sup_launches := fst (keep_early (sup_launches s) p g output)\<rparr>)"
  by (rule quietI[OF quiet_refl, where es = "[]"])
    (auto simp: keep_early_def core_defs split: option.splits)

lemma orderly_handle_output:
  assumes inv: "orderly (k + 3) xs None {} s"
  shows "orderly k xs None {} (handle_output w p g output s)"
proof -
  note o1 = inv_quiet[OF inv quiet_keep_early, of p g "output"]
  obtain book left where b: "keep_early (sup_launches s) p g output = (book, left)" by fastforce
  have "orderly (Suc (Suc (Suc k))) xs None {} (s\<lparr>sup_launches := book\<rparr>)" using o1 by (simp add: b numeral_3_eq_3)
  then show ?thesis
    unfolding handle_output_def b
    using inv_weaken[OF inv, of k] inv_weaken[OF o1, of k] orderly_take_output by (auto simp: b split: option.splits)
qed

lemma orderly_outputs:
  "orderly (k + 3 * length outs) xs None {} s \<Longrightarrow> orderly k xs None {} (fold (handle_output w p g) outs s)"
proof (induction outs arbitrary: s)
  case (Cons out outs)
  then have "orderly (k + 3 * length outs) xs None {} (handle_output w p g out s)"
    by (intro orderly_handle_output) (simp add: algebra_simps)
  then show ?case using Cons.IH by simp
qed simp

lemma orderly_replay:
  assumes "orderly (k + 3 * length early) xs None {} s"
  shows "orderly k xs None {} (replay w p g backlog early s)"
  unfolding replay_def Let_def
  by (rule orderly_outputs, rule inv_quiet[OF assms]) (auto intro!: quiet_intros split: option.splits)

section \<open>Stopping, restarting and pausing\<close>

lemma supersede_core:
  assumes "lb_pending (sup_launches s) p = Some l"
  shows "pending (on_launches (\<lambda>book. supersede_by_stop book p) s) = (pending s)(p := None)"
    and "detaching (on_launches (\<lambda>book. supersede_by_stop book p) s) = detaching s"
    and "stopped_adoption (on_launches (\<lambda>book. supersede_by_stop book p) s) = (stopped_adoption s)(p \<mapsto> launch_generation l)"
  using assms by (auto simp: on_launches_def supersede_by_stop_def core_defs)

lemma orderly_supersede:
  assumes inv: "orderly (Suc k) xs None {} s"
  shows "orderly k xs None {} (supersede_retry_adoption p s)"
    and "is_unsupervised (supersede_retry_adoption p s) p \<Longrightarrow> dead (supersede_retry_adoption p s) p"
proof -
  show "orderly k xs None {} (supersede_retry_adoption p s)"
  proof (cases "is_unsupervised s p \<and> is_starting s p")
    case True
    then obtain l where l: "lb_pending (sup_launches s) p = Some l"
      by (auto simp: is_starting_def LaunchBook_is_starting_def)
    then have c: "pending s p = Some (core_of l)" by (simp add: pending_def)
    note sup = supersede_core[OF l]
    have le: "launch_generation l \<le> current_generation s p"
      using inv_fits[OF inv c] by (simp add: fits_def core_of_def)
    have "orderly (Suc k) xs None {} (on_launches (\<lambda>book. supersede_by_stop book p) s)"
    proof (rule invI, goal_cases)
      case (5 q g)
      then show ?case using inv_stopped[OF inv, of q g] le by (auto simp: sup split: if_splits)
    next
      case (7 q d)
      then show ?case using inv_fits[OF inv, of q d] by (auto simp: fits_def sup split: if_splits)
    next
      case (8 q d)
      then show ?case using inv_answered[OF inv, of q d] by (auto simp: sup split: if_splits)
    next
      case (9 q)
      then show ?case using inv_starting[OF inv, of q] True by (cases "q = p") (simp_all add: sup)
    qed (use inv_D[OF inv] inv_lossless[OF inv] in \<open>simp_all add: sup\<close>)
    then have "orderly k xs None {} (advance_generation p (on_launches (\<lambda>book. supersede_by_stop book p) s))"
      by (rule orderly_advance) (simp add: sup)
    with True show ?thesis by (simp add: supersede_retry_adoption_def)
  next
    case False
    then have "supersede_retry_adoption p s = s" by (simp only: supersede_retry_adoption_def if_False)
    with inv show ?thesis by (auto elim: inv_weaken)
  qed
  show "dead (supersede_retry_adoption p s) p" if "is_unsupervised (supersede_retry_adoption p s) p"
  proof (cases "is_starting s p")
    case True
    then obtain l where l: "lb_pending (sup_launches s) p = Some l"
      by (auto simp: is_starting_def LaunchBook_is_starting_def)
    have "is_unsupervised s p" using that by (auto simp: supersede_retry_adoption_def split: if_splits)
    with True show ?thesis
      using inv_live[OF inv, of p] by (auto simp: supersede_retry_adoption_def dead_def supersede_core[OF l])
  next
    case False
    with that show ?thesis
      using inv_live[OF inv, of p] by (auto simp: supersede_retry_adoption_def dead_def is_starting_pending)
  qed
qed

lemma orderly_request_graceful_transition:
  assumes inv: "orderly k xs None {} s" and none: "pending s p = None"
  shows "orderly k xs None {} (request_graceful_transition w p request restart s)"
proof -
  define s1 where "s1 = on_pane (change_intent request) p (advance_shutdown_generation p s)"
  have q1: "quiet s s1" unfolding s1_def by (intro quiet_intros)
  have after: "orderly k xs None {} (schedule_force_stop p g d t u)"
    if "orderly k xs None {} u" "pending u = pending s" "generation_of u = generation_of s" "generation_of s p = Some g" for g d t u
    unfolding schedule_force_stop_def
    by (rule orderly_emit_force_stop[OF that(1)]) (use that none in \<open>auto simp: current_generation_def\<close>)
  have deliver: "orderly k xs None {} u \<and> pending u = pending s \<and> generation_of u = generation_of s"
    if "quiet s t" and "u = t \<or> u = become p Stopping t \<or> (\<exists>lv m. u = notify t lv (Some p) m \<or> u = notify (become p Stopping t) lv (Some p) m)" for t u
  proof -
    have ot: "orderly k xs None {} t" by (rule inv_quiet[OF inv that(1)])
    have os: "orderly k xs None {} (become p Stopping t)" by (rule inv_weaken[OF inv_become[OF ot]]) auto
    have qn: "quiet t (notify t lv (Some p) m)" "quiet (become p Stopping t) (notify (become p Stopping t) lv (Some p) m)" for lv m
      by (intro quiet_intros)+
    show ?thesis
      using that(2) ot os inv_quiet[OF ot qn(1)] inv_quiet[OF os qn(2)] quiet_core[OF that(1)]
        quiet_core[OF qn(1)] quiet_core[OF qn(2)]
      by (auto simp: quiet_core)
  qed
  show ?thesis
  proof (cases "stop_policy_of s p")
    case None
    with inv show ?thesis by (simp add: request_graceful_transition_def)
  next
    case (Some policy)
    show ?thesis
    proof (cases "Option.bind (pane_of s1 p) pane_handle")
      case None
      have "quiet s (notify s1 Level_Error (Some p) STOP_DELIVERY_FAILED_NOTICE)" using q1 by (intro quiet_intros)
      from inv_quiet[OF inv this] Some None show ?thesis
        by (simp add: request_graceful_transition_def Let_def s1_def)
    next
      case handle: (Some handle)
      define t where "t = on_pane (change_intent (delivery restart (world_terminates w handle \<or> world_kills w handle))) p
        ((if world_terminates w handle then id else emit (Killing handle)) (emit (Terminating handle (signal policy) (grace_period policy)) s1))"
      have qt: "quiet s t" unfolding t_def using q1 by (auto intro!: quiet_intros)
      define u where "u = (if world_terminates w handle \<or> world_kills w handle
          then if world_terminates w handle then become p Stopping t
               else notify (become p Stopping t) Level_Warning (Some p) (utf ''graceful shutdown failed; force-killed'')
          else notify t Level_Error (Some p) STOP_DELIVERY_FAILED_NOTICE)"
      have u: "orderly k xs None {} u \<and> pending u = pending s \<and> generation_of u = generation_of s"
        by (rule deliver[OF qt]) (auto simp: u_def)
      have "request_graceful_transition w p request restart s =
          (case (world_terminates w handle, generation_of s p, map_option pane_shutdown (pane_of (advance_shutdown_generation p s) p)) of
             (True, Some g, Some d) \<Rightarrow> schedule_force_stop p g d (grace_period policy) u
           | _ \<Rightarrow> u)"
        using Some handle unfolding request_graceful_transition_def Let_def s1_def[symmetric] u_def t_def
        by (simp split: option.splits)
      with u after[of u] show ?thesis by (auto split: option.splits bool.splits)
    qed
  qed
qed

lemma orderly_settle_stopped:
  assumes inv: "orderly (Suc k) xs None {} s" and dead: "dead s p"
  shows "orderly k xs None {} (settle_stopped p s)"
proof -
  have o1: "orderly k xs None {} (bump_generation p s)"
    by (rule orderly_bump[OF inv]) (use dead in \<open>simp add: dead_def\<close>)
  have o2: "orderly k xs None {} (become p Exited (deactivate p (bump_generation p s)))"
    by (rule inv_weaken[OF inv_become[OF orderly_deactivate[OF o1]]]) (use dead in \<open>auto simp: dead_def\<close>)
  show ?thesis unfolding settle_stopped_def by (rule inv_quiet[OF o2]) (intro quiet_intros)
qed

end
