(* ===== verification/SupervisorSteps.thy ===== *)
theory SupervisorSteps
  imports SupervisorLaws
begin

text \<open>The commands and the answers of threads and timers keep the invariant of a supervisor's launches.\<close>

section \<open>Stopping, restarting and pausing a pane\<close>

lemma live_none: "orderly k xs a X s \<Longrightarrow> is_live s p \<Longrightarrow> pending s p = None"
  using inv_pending_dead by blast

lemma asked_of_launch_intent:
  assumes "asked_of_launch (\<lambda>book. record_intent book p i) s = (t, asked)"
  shows "quiet s t" and "asked \<longleftrightarrow> pending s p \<noteq> None"
  using quiet_asked_of_launch(1)[OF quiet_refl, of s p i] assms
  by (auto simp: asked_of_launch_def record_intent_def on_launch_def pending_def split: option.splits)

lemma asked_of_launch_suspend:
  assumes "asked_of_launch (\<lambda>book. record_suspend book p u) s = (t, asked)"
  shows "quiet s t"
  using quiet_asked_of_launch(2)[OF quiet_refl, of s p u] assms by (simp add: asked_of_launch_def)

lemma orderly_stop_settled:
  assumes inv: "orderly (Suc k) xs None {} s" and none: "pending s p = None"
  shows "orderly k xs None {} (stop_settled w p s)"
  using inv_weaken[OF inv, of k] inv_live[OF inv, of p] none
    orderly_stop_unsupervised[OF inv, of p w False] orderly_settle_stopped[OF inv, of p]
    orderly_request_graceful_transition[OF inv_weaken[OF inv, of k "{}"], of p w request_stop False]
  unfolding stop_settled_def by (auto simp: dead_def settled_def)

lemma orderly_stop_pane:
  assumes inv: "orderly (Suc (Suc k)) xs None {} s"
  shows "orderly k xs None {} (stop_pane w p s)"
proof -
  obtain t asked where t: "asked_of_launch (\<lambda>book. record_intent book p Intent_Stop) (supersede_retry_adoption p s) = (t, asked)"
    by fastforce
  note ask = asked_of_launch_intent[OF t]
  have o1: "orderly (Suc k) xs None {} t" by (rule inv_quiet[OF orderly_supersede(1)[OF inv] ask(1)])
  show ?thesis
    using inv_weaken[OF o1, of k] orderly_stop_settled[OF o1] ask(2) quiet_core(5)[OF ask(1)]
    by (auto simp: stop_pane_def t)
qed

lemma orderly_kill_live:
  assumes inv: "orderly k xs None {} s"
  shows "orderly k xs None {} (kill_live w p s)"
proof -
  have q: "quiet s (on_pane (change_intent request_stop) p (advance_shutdown_generation p s))" by (intro quiet_intros)
  have stop: "quiet s t \<Longrightarrow> orderly k xs None {} (become p Stopping t)" for t
    by (rule inv_weaken[OF inv_become[OF inv_quiet[OF inv]]]) auto
  show ?thesis
    unfolding kill_live_def Let_def
    by (auto intro!: stop split: option.splits) (auto intro!: inv_quiet[OF inv] quiet_intros q)
qed

lemma orderly_force_kill_pane:
  assumes inv: "orderly (Suc (Suc k)) xs None {} s"
  shows "orderly k xs None {} (force_kill_pane w p s)"
proof -
  obtain t asked where t: "asked_of_launch (\<lambda>book. record_intent book p Intent_Kill) (supersede_retry_adoption p s) = (t, asked)"
    by fastforce
  note ask = asked_of_launch_intent[OF t]
  have o1: "orderly (Suc k) xs None {} t" by (rule inv_quiet[OF orderly_supersede(1)[OF inv] ask(1)])
  have o2: "orderly k xs None {} t" by (rule inv_weaken[OF o1]) auto
  show ?thesis
    using o2 orderly_kill_live[OF o2] orderly_settle_stopped[OF o1, of p] orderly_stop_unsupervised[OF o1, of p w True]
      inv_live[OF o1, of p] ask(2) quiet_core(5)[OF ask(1)]
    by (auto simp: force_kill_pane_def t dead_def settled_def)
qed

lemma orderly_restart_idle:
  assumes "orderly (Suc (Suc k)) xs None {} s" and "\<not> is_live s p"
  shows "orderly k xs None {} (restart_idle w p environment s)"
  unfolding restart_idle_def Let_def
  by (rule inv_quiet[OF orderly_spawn_with[OF assms]]) (auto intro!: quiet_intros)

lemma orderly_restart_pane:
  assumes inv: "orderly (Suc (Suc k)) xs None {} s"
  shows "orderly k xs None {} (restart_pane w p environment s)"
proof -
  obtain t asked where t: "asked_of_launch (\<lambda>book. record_intent book p Intent_Restart) s = (t, asked)" by fastforce
  note ask = asked_of_launch_intent[OF t]
  let ?u = "on_restarts (\<lambda>book. end_streaks book p) t"
  have q: "quiet s ?u" using ask(1) by (intro quiet_intros)
  have o1: "orderly (Suc (Suc k)) xs None {} ?u" by (rule inv_quiet[OF inv q])
  have o2: "orderly k xs None {} ?u" by (rule inv_weaken[OF o1]) auto
  have asked1: "orderly k xs None {} (with_environment p environment t)"
    by (rule inv_weaken[OF inv_quiet[OF inv]]) (use ask(1) in \<open>auto intro!: quiet_intros\<close>)
  have qe: "quiet ?u (with_environment p environment ?u)" by (intro quiet_intros)
  have live: "orderly k xs None {} (request_graceful_transition w p request_restart True (with_environment p environment ?u))"
    if "is_live ?u p"
    by (rule orderly_request_graceful_transition[OF inv_quiet[OF o2 qe]])
      (simp add: quiet_core(5)[OF qe] live_none[OF o2 that])
  show ?thesis
    using asked1 live o2 orderly_restart_idle[OF o1] by (auto simp: restart_pane_def t Let_def simp del: is_live_simps)
qed

lemma orderly_start_pane:
  assumes inv: "orderly (Suc (Suc k)) xs None {} s"
  shows "orderly k xs None {} (start_pane w p environment s)"
proof -
  have q: "quiet s (on_restarts f s)" for f by (intro quiet_intros)
  show ?thesis
    using inv_weaken[OF inv, of k] orderly_spawn_with[OF inv_quiet[OF inv q]] by (simp add: start_pane_def)
qed

lemma orderly_signal_pause:
  assumes inv: "orderly k xs None {} s"
  shows "orderly k xs None {} (signal_pause w p pause s)"
proof -
  have change: "quiet s t \<Longrightarrow> st \<noteq> Starting \<Longrightarrow> orderly k xs None {} (become p st t)" for t st
    by (rule inv_weaken[OF inv_become[OF inv_quiet[OF inv]]]) auto
  show ?thesis
    unfolding signal_pause_def Let_def
    by (auto intro!: change split: option.splits) (auto intro!: inv_quiet[OF inv] quiet_intros)
qed

lemma orderly_pause_pane: "orderly k xs None {} s \<Longrightarrow> orderly k xs None {} (pause_pane w p s)"
  and orderly_resume_pane: "orderly k xs None {} s \<Longrightarrow> orderly k xs None {} (resume_pane w p s)"
  unfolding pause_pane_def resume_pane_def
  by (auto split: prod.splits intro: orderly_signal_pause inv_quiet asked_of_launch_suspend)

lemma orderly_apply_pending:
  assumes inv: "orderly (Suc (Suc k)) xs None {} s"
  shows "orderly k xs None {} (apply_pending w p membership suspend intent s)"
proof -
  let ?t = "case membership of Some m \<Rightarrow> on_pane (\<lambda>x. x\<lparr>pane_membership := m\<rparr>) p s | None \<Rightarrow> s"
  have "quiet s ?t" by (auto intro!: quiet_intros split: option.splits)
  from inv_quiet[OF inv this] have o1: "orderly (Suc (Suc k)) xs None {} ?t" .
  have "orderly (Suc (Suc k)) xs None {} (apply_suspend w p suspend ?t)"
    using o1 orderly_pause_pane orderly_resume_pane by (auto simp: apply_suspend_def split: option.splits bool.splits)
  then have intent: "orderly k xs None {} (apply_intent w p intent (apply_suspend w p suspend ?t))"
    using orderly_stop_pane orderly_force_kill_pane orderly_restart_pane inv_weaken[of "Suc (Suc k)" xs None "{}" _ k]
    by (auto simp: apply_intent_def split: option.splits pending_intent.splits)
  have retire: "\<not> holds_process ?t p \<Longrightarrow> orderly k xs None {} (retire_pane p ?t)"
    by (rule inv_weaken[OF orderly_retire_pane[OF o1]]) (auto simp: holds_process_def)
  show ?thesis
    unfolding apply_pending_def Let_def using intent retire by (simp only: if_split) blast
qed

section \<open>Launches answered\<close>

definition no_respawn :: "effect list \<Rightarrow> supervisor \<Rightarrow> pane_id \<Rightarrow> bool" where
  "no_respawn xs s p \<longleftrightarrow> (\<forall>d. Respawning p (current_generation s p) d \<notin> outstanding xs s)"

lemma quiet_no_respawn: "quiet s t \<Longrightarrow> no_respawn xs s p \<Longrightarrow> no_respawn xs t p"
  using quiet_core(8)[of s t] by (fastforce simp: no_respawn_def quiet_def harmless_def)

text \<open>The launch of a pane whose thread has just answered, taken out of the book.\<close>

lemma take_launch_SomeD:
  assumes "take_launch p g s = (t, Some l)"
  shows "t = on_launches (\<lambda>book. LaunchBook_cancel book p) s" and "pending s p = Some (core_of l)"
    and "launch_generation l = g" and "generation_of s p = Some g" and "lb_pending (sup_launches s) p = Some l"
  using assms
  by (auto simp: take_launch_def LaunchBook_take_def on_launches_def LaunchBook_cancel_def pending_def
      split: option.splits if_splits)

lemma take_launch_NoneD:
  assumes "take_launch p g s = (t, None)"
  shows "t = s" and "pending s p = Some c \<Longrightarrow> generation_of s p = Some g \<Longrightarrow> fst c \<noteq> g"
  using assms
  by (auto simp: take_launch_def LaunchBook_take_def pending_def core_of_def split: option.splits if_splits)

lemma fst_core_of [simp]: "fst (core_of l) = launch_generation l"
  by (simp add: core_of_def)

text \<open>
  A launch that was answered leaves its generation spent: no later launch of the pane has it. A timer
  of that generation that answers nothing stands for this in what is out.
\<close>

definition spent :: "pane_id \<Rightarrow> spawn_generation \<Rightarrow> effect" where
  "spent p g = ForceStopping p g 0 0"

lemma spent_simps [simp]:
  "stamp (spent p g) = Some (p, g)" "\<not> answers (spent p g) q c" "\<not> loses (spent p g)" "spent p g \<noteq> Respawning q h d"
  by (cases c) (simp_all add: spent_def)

definition known_generation :: "supervisor \<Rightarrow> pane_id \<Rightarrow> spawn_generation \<Rightarrow> bool" where
  "known_generation s p g \<longleftrightarrow> generation_of s p \<noteq> None \<and> g \<le> current_generation s p"

lemma orderly_spent:
  assumes inv: "orderly k xs a X s" and none: "\<And>c. pending s p = Some c \<Longrightarrow> fst c \<noteq> g" and known_generation: "known_generation s p g"
  shows "orderly k (spent p g # xs) a X s"
proof -
  have out: "outstanding (spent p g # xs) s = insert (spent p g) (outstanding xs s)" by simp
  show ?thesis
  proof (rule invI, unfold out, goal_cases)
    case (4 e q h)
    then show ?case using inv_stamp[OF inv, of e q h] known_generation by (auto simp: known_generation_def)
  next
    case (6 q d)
    then show ?case using inv_respawn[OF inv, of q d] spent_simps(4)[of p g q _ d] by (metis insert_iff)
  next
    case (7 q c)
    then show ?case using inv_fits[OF inv, of q c] none[of c] by (auto simp: fits_def)
  next
    case (8 q c)
    then show ?case using inv_answered[OF inv, of q c] by auto
  next
    case (10 e)
    then show ?case using inv_lossless[OF inv, of e] by auto
  next
    case (12 e q h)
    then show ?case using inv_known[OF inv, of e q h] known_generation by (auto simp: known_generation_def)
  qed (use inv_D[OF inv] in simp_all)
qed

lemma orderly_unspent:
  assumes inv: "orderly k (spent p g # xs) None X s"
  shows "orderly k xs None X s" and "pending s p = Some c \<Longrightarrow> fst c \<noteq> g"
proof -
  show "orderly k xs None X s"
    by (rule inv_fewer[OF inv]) (use inv_answered[OF inv] in auto)
  show "fst c \<noteq> g" if "pending s p = Some c"
    using inv_fits[OF inv that] by (auto simp: fits_def)
qed

lemma taken_launch:
  assumes inv: "orderly k xs (Some (p, g)) {} s" and take: "take_launch p g s = (t, Some l)"
  shows "orderly k (spent p g # xs) None {p} t" and "dead t p" and "process_of t p \<noteq> None" and "no_respawn (spent p g # xs) t p"
    and "\<not> detaching t \<Longrightarrow> never_starting (core_of l)" and "generation_of t p = Some g"
    and "sup_adopter t \<or> (\<forall>carried. launch_purpose l \<noteq> Purpose_Adopt (Some carried))"
proof -
  note t = take_launch_SomeD[OF take]
  note fits = inv_fits[OF inv t(2)]
  have inv': "orderly k xs (Some (p, g)) {p} s" by (rule inv_weaken[OF inv]) auto
  have o: "orderly k xs None {p} t"
    unfolding t(1) by (rule orderly_pending_removed[OF inv']) auto
  show "orderly k (spent p g # xs) None {p} t"
    by (rule orderly_spent[OF o]) (use t(4) in \<open>simp_all add: t(1) known_generation_def current_generation_def\<close>)
  show "dead t p" using inv_pending_dead[OF inv, of p] t(2) by (simp add: t(1) dead_def)
  show "process_of t p \<noteq> None"
    using process_of_iff[OF inv_distinct[OF o], of p] pending_states[OF inv, of p] t(2) by (simp add: t(1))
  show "no_respawn (spent p g # xs) t p"
    using fits t(3,4) unfolding fits_def no_respawn_def t(1)
    by (auto simp: current_generation_def spent_def dest!: bspec[where x = "Respawning p g d" for d])
  show "\<not> detaching t \<Longrightarrow> never_starting (core_of l)" using fits by (simp add: fits_def t(1))
  show "generation_of t p = Some g" using t(4) by (simp add: t(1))
  show "sup_adopter t \<or> (\<forall>carried. launch_purpose l \<noteq> Purpose_Adopt (Some carried))"
    using fits unfolding fits_def by (auto simp: t(1) core_of_def)
qed

lemma stale_launch:
  assumes inv: "orderly k xs (Some (p, g)) {} s" and take: "take_launch p g s = (t, None)"
    and known_generation: "known_generation s p g"
  shows "orderly k (spent p g # xs) None {} (s\<lparr>sup_launches := fst (LaunchBook_take (sup_launches s) p g)\<rparr>)"
proof (cases "\<exists>c. pending s p = Some c \<and> fst c = g")
  case True
  then obtain c where c: "pending s p = Some c" "fst c = g" by blast
  then have "detaching s"
    using inv_fits[OF inv c(1)] take_launch_NoneD(2)[OF take c(1)] by (auto simp: fits_def)
  moreover have "s\<lparr>sup_launches := fst (LaunchBook_take (sup_launches s) p g)\<rparr> =
      on_launches (\<lambda>book. LaunchBook_cancel book p) s"
    using c by (auto simp: pending_def core_of_def LaunchBook_take_def on_launches_def LaunchBook_cancel_def)
  ultimately show ?thesis
    using orderly_spent[OF orderly_pending_removed[OF inv, of "\<lambda>book. LaunchBook_cancel book p" p], of p g] known_generation
    by (simp add: known_generation_def current_generation_def)
next
  case False
  have "s\<lparr>sup_launches := fst (LaunchBook_take (sup_launches s) p g)\<rparr> = s"
    using False by (auto simp: pending_def core_of_def LaunchBook_take_def split: option.splits)
  moreover have "orderly k xs None {} s"
  proof (rule invI, goal_cases)
    case (8 q c)
    then show ?case using inv_answered[OF inv, of q c] False by auto
  qed (use inv_D[OF inv] inv_lossless[OF inv] in simp_all)
  ultimately show ?thesis using orderly_spent[of k xs None "{}" s p g] False known_generation by auto
qed

lemma orderly_release_stale:
  "orderly k xs None X s \<Longrightarrow> orderly k xs None X (release_stale release handle s)"
  by (erule inv_quiet) (auto simp: release_stale_def intro!: quiet_intros split: stale_release.splits)

lemma install_pane_orderly:
  assumes inv: "orderly k xs None {p} s" and dead: "dead s p" and proc: "process_of s p \<noteq> None"
    and fresh: "no_respawn xs s p"
  shows "orderly k xs None {} (fst (install_pane w p handle s))"
    and "generation_of (fst (install_pane w p handle s)) = generation_of s"
    and "pending (fst (install_pane w p handle s)) = pending s"
    and "detaching (fst (install_pane w p handle s)) = detaching s"
proof -
  let ?h = "Some (handle\<lparr>handle_initial_screen := None, handle_backlog := None\<rparr>)"
  obtain t b where t: "install_terminal w p ?h s = (t, b)" by fastforce
  have live: "\<not> is_live s p" using dead by (simp add: dead_def)
  note res = install_terminal_result[OF live, of w ?h]
  have b: "b" using res(1) proc by (simp add: t)
  have ot: "orderly k xs None {p} t"
    using orderly_install_terminal[OF inv live, of ?h w] dead proc fresh by (simp add: t dead_def no_respawn_def)
  have "orderly k xs None {} (become p Running t)" using inv_become[OF ot, of Running p] by simp
  moreover have q: "quiet (become p Running t) (fst (install_pane w p handle s))"
    using b by (auto simp: install_pane_def Let_def t intro!: quiet_intros split: option.splits)
  ultimately show "orderly k xs None {} (fst (install_pane w p handle s))" by (rule inv_quiet)
  show "generation_of (fst (install_pane w p handle s)) = generation_of s"
    "pending (fst (install_pane w p handle s)) = pending s"
    "detaching (fst (install_pane w p handle s)) = detaching s"
    using quiet_core[OF q] res(3,4,5) by (simp_all add: t)
qed

lemma orderly_spawn_succeeded:
  assumes inv: "orderly (k + 3 * length early) xs None {p} s" and dead: "dead s p" and proc: "process_of s p \<noteq> None"
    and fresh: "no_respawn xs s p"
  shows "orderly k xs None {} (spawn_succeeded w p g handle restarting early s)"
proof -
  define s1 where "s1 = release_held_exit w p (on_restarts (\<lambda>book. spawned book p)
      (if restarting then on_restarts (\<lambda>book. count_restart book p) s else s))"
  have q1: "quiet s s1" unfolding s1_def by (auto intro!: quiet_intros)
  obtain s2 backlog where s2: "install_pane w p handle s1 = (s2, backlog)" by fastforce
  have "process_of s1 p \<noteq> None"
    using proc process_of_iff[OF inv_distinct[OF inv]] process_of_iff[OF inv_distinct[OF inv_quiet[OF inv q1]]]
      quiet_core(1)[OF q1] by simp
  from install_pane_orderly(1)[OF inv_quiet[OF inv q1] _ this quiet_no_respawn[OF q1 fresh], of w handle]
  have o2: "orderly (k + 3 * length early) xs None {} s2" using dead q1 by (simp add: quiet_dead s2)
  have q3: "quiet s2 (arm_probes p (record_event (store_end w p None s2) (Some p) Event_Started m))" for m
    by (intro quiet_intros)
  show ?thesis
    unfolding spawn_succeeded_def Let_def s1_def[symmetric] s2 prod.case
    by (rule orderly_replay[OF inv_quiet[OF o2 q3]])
qed

lemma orderly_spawn_failed_to_start:
  assumes inv: "orderly (Suc k) xs None {p} s" and dead: "dead s p"
  shows "orderly k xs None {} (spawn_failed_to_start w p g error s)"
proof -
  have live: "\<not> is_live s p" using dead by (simp add: dead_def)
  have q: "quiet s (store_end w p so (end_run w p g FailedToStart st message
      (if first then notify (alert_desktop (t\<lparr>sup_restarts := book\<rparr>) p message) Level_Error (Some p) message
       else t\<lparr>sup_restarts := book\<rparr>)))" if "t = deactivate p s" for so st message first book t
    unfolding that using live by (auto intro!: quiet_intros)
  have o: "orderly (Suc k) xs None {} (become p st t)" if "quiet s t" "st \<noteq> Starting" for st t
    using inv_become[OF inv_quiet[OF inv that(1)], of st p] that(2) by simp
  have "orderly k xs None {} (schedule_restart w p (world_now w) (become p Restarting t))" if "quiet s t" for t
    using o[OF that, of Restarting] live quiet_core[OF that] inv_distinct[OF inv_quiet[OF inv that]]
    by (intro orderly_schedule_restart) (simp_all add: become_not_starting)
  moreover have "orderly k xs None {} (become p Crashed t)" if "quiet s t" for t
    using inv_weaken[OF o[OF that, of Crashed], of k] by simp
  ultimately show ?thesis
    unfolding spawn_failed_to_start_def Let_def using q[OF refl] by (auto split: prod.splits)
qed

lemma orderly_settle_spawn:
  assumes inv: "orderly (k + 3 * n + 3) xs (Some (p, g)) {} s" and known_generation: "known_generation s p g"
    and kind: "\<And>c. pending s p = Some c \<Longrightarrow> fst c = g \<Longrightarrow> snd (snd c) = Purpose_Spawn False"
    and early: "\<And>l. lb_pending (sup_launches s) p = Some l \<Longrightarrow> length (launch_early l) \<le> n"
  shows "orderly k (spent p g # xs) None {} (settle_spawn w p g result s)"
proof -
  obtain t lo where take: "take_launch p g s = (t, lo)" by fastforce
  show ?thesis
  proof (cases lo)
    case None
    then have t: "t = s" using take_launch_NoneD(1) take by blast
    obtain u release where u: "stale_release_of p g s = (u, release)" by fastforce
    have "u = s\<lparr>sup_launches := fst (LaunchBook_take (sup_launches s) p g)\<rparr>"
      using u by (auto simp: stale_release_of_def split: prod.splits)
    then have ou: "orderly k (spent p g # xs) None {} u"
      using inv_weaken[OF stale_launch[OF inv take[unfolded None] known_generation], of k] by simp
    have "quiet u (on_attach f u)" "quiet u (release_held_exit w p u)" for f by (intro quiet_intros)+
    with ou show ?thesis
      by (auto simp: settle_spawn_def take None t u intro: orderly_release_stale inv_quiet
          split: sum.splits stale_release.splits)
  next
    case (Some l)
    note L = take_launch_SomeD[OF take[unfolded Some]]
    note T = taken_launch[OF inv take[unfolded Some]]
    obtain restarting where spawn: "launch_purpose l = Purpose_Spawn restarting"
      using kind[OF L(2)] L(3) by (cases "launch_purpose l") (auto simp: core_of_def)
    have room: "orderly (Suc (Suc k) + 3 * length (launch_early l)) (spent p g # xs) None {p} t"
      "orderly (Suc (Suc (Suc k))) (spent p g # xs) None {p} t"
      using inv_weaken[OF T(1)] early[OF L(5)] by simp_all
    have "orderly (Suc (Suc k)) (spent p g # xs) None {} (fst (install_spawned w p g result restarting (launch_early l) t))"
      using orderly_spawn_succeeded[OF room(1) T(2,3,4)] orderly_spawn_failed_to_start[OF room(2) T(2)]
      by (auto simp: install_spawned_def Let_def split: sum.splits)
    then show ?thesis
      by (simp add: settle_spawn_def take Some spawn split_beta Let_def orderly_apply_pending)
  qed
qed

lemma orderly_handle_launch_blocked:
  assumes inv: "orderly (Suc (Suc k)) xs (Some (p, g)) {} s" and known_generation: "known_generation s p g"
  shows "orderly k (spent p g # xs) None {} (handle_launch_blocked w p g block s)"
proof -
  obtain t lo where take: "take_launch p g s = (t, lo)" by fastforce
  show ?thesis
  proof (cases lo)
    case None
    have "fst (stale_release_of p g s) = s\<lparr>sup_launches := fst (LaunchBook_take (sup_launches s) p g)\<rparr>"
      by (auto simp: stale_release_of_def split: prod.splits)
    with inv_weaken[OF stale_launch[OF inv take[unfolded None] known_generation], of k] take_launch_NoneD(1)[OF take[unfolded None]]
    show ?thesis by (simp add: handle_launch_blocked_def take None)
  next
    case (Some l)
    note T = taken_launch[OF inv take[unfolded Some]]
    have q1: "quiet t (forget_readiness p t)" by (intro quiet_intros)
    have o2: "orderly (Suc (Suc k)) (spent p g # xs) None {} (block_launch p block (forget_readiness p t))"
      using orderly_block_launch[OF inv_quiet[OF T(1) q1], of p] by simp
    have "orderly (Suc (Suc k)) (spent p g # xs) None {}
        (end_waits p (Some g) Wait_NotRunning Blocked (block_launch p block (forget_readiness p t)))"
      by (rule inv_quiet[OF o2]) (intro quiet_intros)
    then show ?thesis by (simp add: handle_launch_blocked_def take Some Let_def orderly_apply_pending)
  qed
qed

section \<open>Adoptions answered\<close>

lemma orderly_rearm_force_stop:
  assumes inv: "orderly k xs None X s" and none: "pending s p = None"
  shows "orderly k xs None X (rearm_force_stop p s)"
proof -
  have q: "quiet s (advance_shutdown_generation p s)" by (intro quiet_intros)
  show ?thesis
    using inv inv_quiet[OF inv q] none quiet_core(5)[OF q]
    by (auto simp: rearm_force_stop_def Let_def schedule_force_stop_def intro!: orderly_emit_force_stop
        split: option.splits)
qed

lemma orderly_restore_carried:
  assumes inv: "orderly k xs None {} s" and none: "pending s p = None"
    and st: "\<not> detaching s \<Longrightarrow> carried_state carried \<noteq> Some Starting"
  shows "orderly k xs None {} (restore_carried p carried s)"
proof -
  let ?t = "on_pane (restore carried) p s"
  let ?u = "case carried_state carried of Some state \<Rightarrow> become p state ?t | None \<Rightarrow> ?t"
  have "quiet s ?t" by (intro quiet_intros)
  from inv_quiet[OF inv this] have ot: "orderly k xs None {} ?t" .
  have "orderly k xs None {} (become p state ?t)" if "carried_state carried = Some state" for state
    using inv_become[OF ot, of state p] st that by auto
  with ot have ou: "orderly k xs None {} ?u" by (auto split: option.splits)
  have "pending ?u p = None" using none by (simp split: option.splits)
  then show ?thesis
    unfolding restore_carried_def Let_def using ou orderly_rearm_force_stop[OF ou] by simp
qed

lemma orderly_adoption_succeeded:
  assumes inv: "orderly (k + 3 * length early) xs None {p} s" and dead: "dead s p" and proc: "process_of s p \<noteq> None"
    and fresh: "no_respawn xs s p"
    and st: "\<And>c. carried = Some c \<Longrightarrow> \<not> detaching s \<Longrightarrow> carried_state c \<noteq> Some Starting"
  shows "orderly k xs None {} (adoption_succeeded w p g r handle carried early s)"
proof -
  define s1 where "s1 = s\<lparr>sup_retries := AdoptionRetries_forget (sup_retries s) p,
      sup_replays := (sup_replays s)(p := handle_output_end handle)\<rparr>"
  have q1: "quiet s s1" unfolding s1_def by (intro quiet_intros)
  obtain s2 backlog where s2: "install_pane w p handle s1 = (s2, backlog)" by fastforce
  have "process_of s1 p \<noteq> None"
    using proc process_of_iff[OF inv_distinct[OF inv]] process_of_iff[OF inv_distinct[OF inv_quiet[OF inv q1]]]
      quiet_core(1)[OF q1] by simp
  note installed = install_pane_orderly[OF inv_quiet[OF inv q1] _ this quiet_no_respawn[OF q1 fresh], of w handle]
  have o2: "orderly (k + 3 * length early) xs None {} s2" and p2: "pending s2 p = None" and d2: "detaching s2 = detaching s"
    using installed dead q1 quiet_core[OF q1] by (simp_all add: quiet_dead s2 dead_def)
  define s3 where "s3 = arm_probes p (if carried = None
      then adopt_run w p (on_restarts (\<lambda>book. take_history book p (hr_history r)) s2) else s2)"
  have q3: "quiet s2 s3" unfolding s3_def by (auto intro!: quiet_intros)
  define s4 where "s4 = (case carried of Some c \<Rightarrow> restore_carried p c s3 | None \<Rightarrow> s3)"
  have o4: "orderly (k + 3 * length early) xs None {} s4"
    unfolding s4_def using inv_quiet[OF o2 q3] p2 d2 quiet_core[OF q3] st
    by (auto intro!: orderly_restore_carried split: option.splits)
  have q5: "quiet s4 (emit (Start_Replay p) s4)" by (intro quiet_intros) simp
  have "adoption_succeeded w p g r handle carried early s = replay w p g backlog early (emit (Start_Replay p) s4)"
    unfolding adoption_succeeded_def Let_def s4_def s3_def using s2 by (simp add: s1_def)
  then show ?thesis using orderly_replay[OF inv_quiet[OF o4 q5]] by simp
qed

lemma orderly_adoption_failed:
  assumes inv: "orderly k xs None {} s" and live: "\<not> is_live s p" and known: "generation_of s p \<noteq> None"
  shows "orderly k xs None {} (adoption_failed w p r error s)"
proof -
  obtain t b where t: "leave_unsupervised w p (hr_child_pid r) (hr_child_start_token r) s = (t, b)" by fastforce
  have "orderly k xs None {} t"
    using orderly_leave_unsupervised(1)[OF inv live known, of w "hr_child_pid r" "hr_child_start_token r"] by (simp add: t)
  then show ?thesis
    by (rule inv_quiet) (auto simp: adoption_failed_def t intro!: quiet_intros split: bool.splits)
qed

text \<open>A launch that was taken and has failed: its process shows the state from before it.\<close>

lemma taken_prior_state:
  assumes inv: "orderly k xs (Some (p, g)) {} s" and take: "take_launch p g s = (t, Some l)"
  shows "orderly k (spent p g # xs) None {} (become p (launch_prior_state l) t)"
  using taken_launch(1)[OF assms] inv_become[OF taken_launch(1)[OF assms], of "launch_prior_state l" p]
    taken_launch(5)[OF assms] by (auto simp: core_of_def)

lemma orderly_reconnect_given_up:
  assumes inv: "orderly (k + 4) xs (Some (p, g)) {} s" and take: "take_launch p g s = (t, Some l)"
  shows "orderly k (spent p g # xs) None {} (let u = reconnect_failed w p carried r error (become p (launch_prior_state l) t)
           in if process_of u p = None then u else apply_pending w p m None i u)"
proof -
  note T = taken_launch[OF assms]
  have o1: "orderly (Suc (Suc (Suc (Suc k)))) (spent p g # xs) None {} (become p (launch_prior_state l) t)"
    using taken_prior_state[OF assms] by (simp add: numeral_eq_Suc)
  have o2: "orderly (Suc (Suc k)) (spent p g # xs) None {} (reconnect_failed w p carried r error (become p (launch_prior_state l) t))"
    using T(2,6) by (intro orderly_reconnect_failed[OF o1]) simp_all
  show ?thesis
    unfolding Let_def using inv_weaken[OF o2, of k] orderly_apply_pending[OF o2] by simp
qed

lemma with_membership_state [simp]: "carried_state (with_membership c m) = carried_state c"
  by (simp add: with_membership_def split: option.splits)

lemma orderly_stopped_adoption:
  assumes inv: "orderly k xs (Some (p, g)) {} s" and take: "take_stopped_adoption (sup_launches s) p g = (book, True)"
    and known_generation: "known_generation s p g"
  shows "orderly k (spent p g # xs) None {} (s\<lparr>sup_launches := book\<rparr>)"
proof -
  have b: "stopped_adoption s p = Some g" "s\<lparr>sup_launches := book\<rparr> = on_launches (\<lambda>_. book) s"
    "pending (on_launches (\<lambda>_. book) s) = pending s" "detaching (on_launches (\<lambda>_. book) s) = detaching s"
    "stopped_adoption (on_launches (\<lambda>_. book) s) = (stopped_adoption s)(p := None)"
    using take by (auto simp: take_stopped_adoption_def on_launches_def core_defs split: if_splits)
  have "orderly k xs None {} (on_launches (\<lambda>_. book) s)"
  proof (rule invI, goal_cases)
    case (5 q h)
    then show ?case using inv_stopped[OF inv, of q h] by (simp add: b split: if_splits)
  next
    case (7 q c)
    then show ?case using inv_fits[OF inv, of q c] by (simp add: b fits_def)
  next
    case (8 q c)
    then have "fits (outstanding xs s) s q c" using inv_fits[OF inv, of q c] by (simp add: b)
    with 8 show ?case using inv_answered[OF inv, of q c] b(1) by (auto simp: b(3) fits_def)
  qed (use inv_D[OF inv] inv_lossless[OF inv] in \<open>simp_all add: b\<close>)
  then show ?thesis
    unfolding b(2)
  proof (rule orderly_spent)
    show "fst c \<noteq> g" if "pending (on_launches (\<lambda>_. book) s) p = Some c" for c
      using inv_fits[OF inv, of p c] that b(1) by (auto simp: b(3) fits_def)
    show "known_generation (on_launches (\<lambda>_. book) s) p g" using known_generation by (simp add: known_generation_def current_generation_def)
  qed
qed

lemma orderly_settle_adoption:
  assumes inv: "orderly (k + 3 * n + 4) xs (Some (p, g)) {} s" and known_generation: "known_generation s p g"
    and kind: "\<And>c. pending s p = Some c \<Longrightarrow> fst c = g \<Longrightarrow> \<exists>carried. snd (snd c) = Purpose_Adopt carried"
    and early: "\<And>l. lb_pending (sup_launches s) p = Some l \<Longrightarrow> length (launch_early l) \<le> n"
  shows "orderly k (spent p g # xs) None {} (settle_adoption w p g r result s)"
proof -
  obtain t lo where take: "take_launch p g s = (t, lo)" by fastforce
  show ?thesis
  proof (cases lo)
    case None
    then have t: "t = s" using take_launch_NoneD(1) take by blast
    obtain book b where stopped: "take_stopped_adoption (sup_launches s) p g = (book, b)" by fastforce
    obtain u release where u: "stale_release_of p g s = (u, release)" by fastforce
    have "u = s\<lparr>sup_launches := fst (LaunchBook_take (sup_launches s) p g)\<rparr>"
      using u by (auto simp: stale_release_of_def split: prod.splits)
    then have ou: "orderly k (spent p g # xs) None {} u"
      using inv_weaken[OF stale_launch[OF inv take[unfolded None] known_generation], of k] by simp
    have qu: "quiet u (report_superseded_failure w r error u)" for error by (intro quiet_intros)
    show ?thesis
    proof (cases b)
      case True
      have "orderly k (spent p g # xs) None {} (s\<lparr>sup_launches := book\<rparr>)"
        using inv_weaken[OF orderly_stopped_adoption[OF inv _ known_generation], of book k] stopped True by simp
      moreover have "quiet (s\<lparr>sup_launches := book\<rparr>) (settle_adoption w p g r result s)"
        by (auto simp: settle_adoption_def take None t stopped True Let_def intro!: quiet_intros split: sum.splits)
      ultimately show ?thesis by (rule inv_quiet)
    next
      case False
      with ou qu show ?thesis
        by (auto simp: settle_adoption_def take None t stopped u intro: orderly_release_stale inv_quiet split: sum.splits)
    qed
  next
    case (Some l)
    note L = take_launch_SomeD[OF take[unfolded Some]]
    note T = taken_launch[OF inv take[unfolded Some]]
    obtain carried where adopt: "launch_purpose l = Purpose_Adopt carried"
      using kind[OF L(2)] L(3) by (cases "launch_purpose l") (auto simp: core_of_def)
    have room: "orderly (Suc (Suc k) + 3 * length (launch_early l)) (spent p g # xs) None {p} t"
      using inv_weaken[OF T(1)] early[OF L(5)] by simp
    have inv4: "orderly (k + 4) xs (Some (p, g)) {} s" by (rule inv_weaken[OF inv]) simp_all
    have prior: "orderly (Suc (Suc k)) (spent p g # xs) None {} (become p (launch_prior_state l) t)"
      using inv_weaken[OF taken_prior_state[OF inv take[unfolded Some]]] by simp
    let ?carried = "map_option (\<lambda>c. with_membership c (launch_membership l)) carried"
    have st: "carried_state c \<noteq> Some Starting" if "?carried = Some c" "\<not> detaching t" for c
      using that T(5) by (auto simp: adopt core_of_def)
    have adopted: "orderly (Suc (Suc k)) (spent p g # xs) None {} (adoption_succeeded w p g r handle ?carried (launch_early l) t)" for handle
      by (rule orderly_adoption_succeeded[OF room T(2,3,4) st])
    have failed: "orderly (Suc (Suc k)) (spent p g # xs) None {} (adoption_failed w p r error (become p (launch_prior_state l) t))" for error
      using T(2,6) by (intro orderly_adoption_failed[OF prior]) (simp_all add: dead_def)
    show ?thesis
    proof (cases result)
      case (Inl error)
      with failed orderly_reconnect_given_up[OF inv4 take[unfolded Some]] show ?thesis
        by (cases carried) (simp_all add: settle_adoption_def take Some adopt orderly_apply_pending)
    next
      case (Inr handle)
      with adopted show ?thesis
        by (simp add: settle_adoption_def take Some adopt Let_def orderly_apply_pending)
    qed
  qed
qed

lemma orderly_settle_superseded_search:
  assumes inv: "orderly k xs None {} s" and known: "generation_of s p \<noteq> None"
  shows "orderly k xs None {} (settle_superseded_search w p r s)"
proof -
  obtain t running where t: "child_runs_or_collect w r s = (t, running)" by fastforce
  have qt: "quiet s t" using quiet_adoption_notices(2)[OF quiet_refl, of s w r] by (simp add: t)
  obtain u b where u: "leave_unsupervised w p (hr_child_pid r) (hr_child_start_token r) t = (u, b)" by fastforce
  have ou: "orderly k xs None {} u" if "\<not> holds_process t p"
    using orderly_leave_unsupervised(1)[OF inv_quiet[OF inv qt], of p w "hr_child_pid r" "hr_child_start_token r"]
      that known quiet_core(4)[OF qt] by (simp add: u holds_process_def)
  have qn: "quiet v (notify_process (if b then schedule_adoption_retry p v else v) lv no m)" for v lv no m
    by (auto intro!: quiet_intros)
  have qm: "quiet t (notify_process t lv no m)" for lv no m by (intro quiet_intros)
  show ?thesis
    using inv_quiet[OF inv qt] inv_quiet[OF inv_quiet[OF inv qt] qm] inv_quiet[OF ou qn]
    by (auto simp: settle_superseded_search_def t u Let_def split: bool.splits)
qed

lemma orderly_handle_reconnect_located:
  assumes inv: "orderly (k + 4) xs (Some (p, g)) {} s" and known_generation: "known_generation s p g"
    and kind: "\<And>c. pending s p = Some c \<Longrightarrow> fst c = g \<Longrightarrow> \<exists>carried. snd (snd c) = Purpose_Adopt (Some carried)"
  shows "orderly k (spent p g # xs) None {} (handle_reconnect_located w p g r s) \<or>
    orderly k xs None {} (handle_reconnect_located w p g r s) \<and>
    (\<exists>h. Adopting p g h True \<in> set (sup_out (handle_reconnect_located w p g r s)))"
proof -
  obtain t lo where take: "take_launch p g s = (t, lo)" by fastforce
  show ?thesis
  proof (cases lo)
    case None
    let ?u = "s\<lparr>sup_launches := fst (LaunchBook_take (sup_launches s) p g)\<rparr>"
    have ou: "orderly k (spent p g # xs) None {} ?u"
      by (rule inv_weaken[OF stale_launch[OF inv take[unfolded None] known_generation]]) auto
    have "generation_of ?u = generation_of s" by (simp add: generation_of_def fun_eq_iff)
    with ou orderly_settle_superseded_search[OF ou] take_launch_NoneD(1)[OF take[unfolded None]] known_generation show ?thesis
      by (auto simp: known_generation_def handle_reconnect_located_def take None Let_def split: option.splits)
  next
    case (Some l)
    note L = take_launch_SomeD[OF take[unfolded Some]]
    note T = taken_launch[OF inv take[unfolded Some]]
    obtain carried where adopt: "launch_purpose l = Purpose_Adopt (Some carried)"
      using kind[OF L(2)] L(3) by (cases "launch_purpose l") (auto simp: core_of_def)
    then have adopter: "sup_adopter t" using T(7) by simp
    show ?thesis
    proof (cases "detaching s")
      case True
      have o: "orderly k xs None {} t"
        unfolding L(1) by (rule orderly_pending_removed) (use inv_weaken[OF inv, of k] True in auto)
      have "orderly k (spent p g # xs) None {} t"
        by (rule orderly_spent[OF o]) (use T(2,6) in \<open>simp_all add: dead_def known_generation_def current_generation_def\<close>)
      then show ?thesis
        using True by (simp add: handle_reconnect_located_def take Some detaching_def split: option.splits)
    next
      case False
      let ?b = "on_launches (\<lambda>book. LaunchBook_begin book p l) t"
      have "quiet s ?b"
        unfolding L(1) using L(2)
        by (intro quietI[OF quiet_refl, where es = "[]"]) (auto simp: core_def fun_upd_idem)
      from inv_quiet[OF inv this] have "orderly (k + 4) xs (Some (p, g)) {} ?b" .
      then have "orderly (k + 4) xs None {} (emit (Adopting p g r True) ?b)" for r
        by (rule orderly_emit_answer) (use L T(6) adopt in \<open>auto simp: core_of_def\<close>)
      then have begun: "orderly k xs None {} (emit (Adopting p g r True) ?b)" for r
        by (rule inv_weaken) auto
      have given_up: "orderly k (spent p g # xs) None {} (reconnect_unlocated w p l carried t)"
        using orderly_reconnect_given_up[OF inv take[unfolded Some]] by (simp add: reconnect_unlocated_def)
      have out: "\<exists>h. Adopting p g h True \<in> set (sup_out (emit (Adopting p g r True) ?b))" for r
        by (auto simp: emit_def)
      show ?thesis
        using False adopter adopt begun given_up out
        by (auto simp: handle_reconnect_located_def take Some detaching_def reconnect_located_def split: option.splits)
    qed
  qed
qed

section \<open>Adopting again\<close>

lemma retryable_pidD:
  assumes "orderly k xs a X s" and "retryable_pid w s p = Some pid"
  shows "pending s p = None" and "state_of s p = Some Unsupervised" and "\<not> is_live s p" and "process_of s p \<noteq> None"
proof -
  from assms(2) have "\<not> is_starting s p" "state_of s p = Some Unsupervised" "is_unsupervised s p"
    by (auto simp: retryable_pid_def running_unsupervised_pid_def is_unsupervised_def bind_eq_Some_conv split: if_splits option.splits)
  then show "pending s p = None" "state_of s p = Some Unsupervised" "\<not> is_live s p" "process_of s p \<noteq> None"
    using inv_live[OF assms(1), of p] by (auto simp: is_starting_pending state_of_def)
qed

lemma orderly_begin_retry_adoption:
  assumes inv: "orderly (Suc k) xs None {} s" and retry: "retryable_pid w s p = Some pid"
  shows "orderly k xs None {} (begin_retry_adoption p r s)"
proof (cases "sup_adopter s")
  case True
  note R = retryable_pidD[OF inv retry]
  let ?env = "bmap_extend [] (hr_launch_environment r)"
  have q: "quiet (bump_generation p s) (set_launch_environment p ?env (bump_generation p s))" by (intro quiet_intros)
  have "orderly k xs None {} (emit (Adopting p (current_generation (bump_generation p s) p) r False)
      (on_launches (\<lambda>book. LaunchBook_begin book p (PendingLaunch_new (current_generation (bump_generation p s) p)
         Unsupervised (Purpose_Adopt None))) (set_launch_environment p ?env (bump_generation p s))))"
    by (rule orderly_new_launch(2)[OF inv R(3,4) _ _ _ q refl]) (use R(1) in auto)
  then show ?thesis
    using True by (simp add: begin_retry_adoption_def Let_def)
next
  case False
  with inv_weaken[OF inv, of k] show ?thesis by (simp add: begin_retry_adoption_def)
qed

lemma orderly_handle_adoption_retry_due:
  "orderly k xs None {} s \<Longrightarrow> orderly k xs None {} (handle_adoption_retry_due w p attempt s)"
  by (erule inv_quiet) (auto simp: handle_adoption_retry_due_def intro!: quiet_intros)

lemma orderly_handle_adoption_probed:
  assumes inv: "orderly (Suc k) xs None {} s"
  shows "orderly k xs None {} (handle_adoption_probed w p attempt asked r s)"
proof -
  have q: "quiet s (schedule_adoption_retry p (if asked then refuse_unsupervised_start p pid s else s))" for pid
    by (auto intro!: quiet_intros)
  have o: "orderly k xs None {} s" by (rule inv_weaken[OF inv]) auto
  from o inv_quiet[OF o q] orderly_begin_retry_adoption[OF inv] show ?thesis
    by (auto simp: handle_adoption_probed_def Let_def split: option.splits)
qed

lemma stop_removed_starting:
  assumes "pending s p \<noteq> None"
  shows "quiet s (stop_removed w p s)"
proof -
  let ?t = "set_membership p RetireOnExit (notify s Level_Warning (Some p) (utf ''stopped: removed from the project''))"
  have q: "quiet s ?t" by (intro quiet_intros)
  obtain u asked where u: "asked_of_launch (\<lambda>book. record_intent book p Intent_Stop) ?t = (u, asked)" by fastforce
  note ask = asked_of_launch_intent[OF u]
  have "asked" using ask(2) assms quiet_core(5)[OF q] by simp
  then have "stop_removed w p s = u" by (simp add: stop_removed_def Let_def u)
  with quiet_trans[OF q ask(1)] show ?thesis by simp
qed

lemma orderly_stop_removed:
  assumes inv: "orderly (Suc (Suc k)) xs None {} s"
  shows "orderly k xs None {} (stop_removed w p s)"
proof -
  let ?t = "set_membership p RetireOnExit (notify s Level_Warning (Some p) (utf ''stopped: removed from the project''))"
  obtain u asked where u: "asked_of_launch (\<lambda>book. record_intent book p Intent_Stop) ?t = (u, asked)" by fastforce
  have "quiet s ?t" by (intro quiet_intros)
  from quiet_trans[OF this asked_of_launch_intent(1)[OF u]] have ou: "orderly (Suc (Suc k)) xs None {} u"
    by (rule inv_quiet[OF inv])
  have "\<not> holds_process u p \<Longrightarrow> orderly k xs None {} (retire_pane p u)"
    by (rule inv_weaken[OF orderly_retire_pane[OF ou]]) (auto simp: holds_process_def)
  with inv_weaken[OF ou, of k] orderly_stop_pane[OF ou] show ?thesis
    by (simp add: stop_removed_def Let_def u)
qed

lemma orderly_begin_adoption:
  assumes inv: "orderly (Suc (Suc (Suc k))) xs None {} s" and dead: "dead s p" and left: "\<not> is_unsupervised s p"
    and proc: "process_of s p \<noteq> None"
  shows "orderly k xs None {} (begin_adoption w r p gone s)"
proof -
  let ?s1 = "set_launch_environment p (bmap_extend [] (hr_launch_environment r)) s"
  let ?b = "bump_generation p ?s1"
  let ?stopped = "if gone then stop_removed w p else id"
  have q1: "quiet s ?s1" by (intro quiet_intros)
  note o1 = inv_quiet[OF inv q1]
  have d1: "dead ?s1 p" using dead q1 by (simp add: quiet_dead)
  have ob: "orderly (Suc (Suc k)) xs None {} ?b"
    by (rule orderly_bump[OF o1]) (use d1 in \<open>simp add: dead_def\<close>)
  show ?thesis
  proof (cases "sup_adopter ?b")
    case False
    obtain t b where t: "leave_unsupervised w p (hr_child_pid r) (hr_child_start_token r) ?b = (t, b)" by fastforce
    have "orderly (Suc (Suc k)) xs None {} t"
      using orderly_leave_unsupervised(1)[OF ob, of p w "hr_child_pid r" "hr_child_start_token r"] d1
      by (simp add: t dead_def)
    moreover have "quiet t (notify (if b then t else collect_exit r t) lv po m)" for lv po m
      by (auto intro!: quiet_intros)
    ultimately have o2: "orderly (Suc (Suc k)) xs None {} (notify (if b then t else collect_exit r t) lv po m)" for lv po m
      by (rule inv_quiet)
    from orderly_stop_removed[OF o2] inv_weaken[OF o2, of k] show ?thesis
      using False by (simp add: begin_adoption_def Let_def t)
  next
    case True
    let ?g = "current_generation ?b p"
    let ?l = "PendingLaunch_new ?g (unwrap_or (state_of ?b p) Pending) (Purpose_Adopt None)"
    have ids: "p \<in> fst ` set (states ?s1)"
      using proc process_of_iff[OF inv_distinct[OF inv]] quiet_core(1)[OF q1] by simp
    have "state_of ?b p = state_of ?s1 p"
      by (simp add: state_of_def process_of_def bump_generation_def advance_generation_def on_launches_def)
    then have "\<not> detaching ?s1 \<longrightarrow> never_starting (?g, unwrap_or (state_of ?b p) Pending, Purpose_Adopt None)"
      using not_starting[OF o1, of p] d1 by (cases "state_of ?s1 p") (auto simp: dead_def)
    then have fits: "fits (outstanding xs ?b) ?b p (core_of ?l)"
      using fits_after_bump[OF o1 _ ids] d1 by (simp add: dead_def)
    let ?c = "on_launches (\<lambda>book. LaunchBook_begin book p ?l) ?b"
    have "orderly (Suc (Suc k)) xs (Some (p, ?g)) {} ?c" using orderly_begin[OF ob fits] by simp
    then have "orderly (Suc (Suc k)) xs (Some (p, ?g)) ({} - {p}) (become p Starting ?c)"
      by (rule inv_become) (use left quiet_core(3)[OF q1] in simp)
    then have oc: "orderly (Suc (Suc k)) xs (Some (p, ?g)) {} (become p Starting ?c)" by simp
    have qc: "quiet (become p Starting ?c) (?stopped (become p Starting ?c))"
      using stop_removed_starting[of "become p Starting ?c" p w] by simp
    have "orderly (Suc (Suc k)) xs None {} (emit (Adopting p ?g r False) (?stopped (become p Starting ?c)))"
      by (rule orderly_emit_answer[OF inv_quiet[OF oc qc]]) (use quiet_core[OF qc] in \<open>simp_all\<close>)
    from inv_weaken[OF this, of k] show ?thesis
      using True by (simp add: begin_adoption_def Let_def)
  qed
qed

end
