(* ===== verification/SupervisorCommands.thy ===== *)
theory SupervisorCommands
  imports SupervisorSteps
begin

text \<open>
  Timers, commands on names and on the whole project, a changed stack and the shutdown keep the
  invariant of a supervisor's launches.
\<close>

section \<open>Timers\<close>

lemma orderly_handle_respawn:
  assumes inv: "orderly (Suc (Suc k)) xs None {} s" and "generation_of s p = Some g \<Longrightarrow> \<not> is_live s p"
  shows "orderly k xs None {} (handle_respawn w p g s)"
  using inv_weaken[OF inv, of k] orderly_spawn_with[OF inv] assms(2) by (simp add: handle_respawn_def spawn_def)

lemma orderly_handle_force_stop:
  assumes inv: "orderly (Suc k) xs None {} s" and none: "\<And>c. pending s p = Some c \<Longrightarrow> fst c \<noteq> g"
  shows "orderly k xs None {} (handle_force_stop w p g d s)"
proof -
  let ?t = "on_pane advance_shutdown p s"
  have q: "quiet s ?t" by (intro quiet_intros) (simp_all add: advance_shutdown_def)
  have o: "orderly k xs None {} s" by (rule inv_weaken[OF inv]) auto
  have "orderly k xs None {} (escalate_unsupervised w p ?t)"
    if "generation_of s p = Some g" "pane_of s p = Some x" "pane_unsupervised x \<noteq> None" for x
  proof (rule orderly_escalate_unsupervised[OF inv_quiet[OF inv q]])
    have "is_unsupervised s p" using that by (simp add: is_unsupervised_def)
    then show "\<not> is_live ?t p" using inv_live[OF inv, of p] quiet_core(2)[OF q] by auto
    show "settled ?t p"
      using that(1) none quiet_core[OF q] by (auto simp: settled_def current_generation_def)
  qed
  moreover have "orderly k xs None {} (notify (become p Stopping (emit (Killing h) ?t)) lv po m)" for h lv po m
  proof (rule inv_quiet)
    show "orderly k xs None {} (become p Stopping (emit (Killing h) ?t))"
      using inv_become[OF inv_quiet[OF o, of "emit (Killing h) ?t"], of Stopping p] q by (simp add: quiet_intros)
  qed (intro quiet_intros)
  moreover have "quiet s (notify (on_pane (change_intent f) p (emit (Killing h) ?t)) lv po m)" for f h lv po m
    using q by (auto intro!: quiet_intros)
  ultimately show ?thesis
    using o inv_quiet[OF o] q by (auto simp: handle_force_stop_def Let_def split: option.splits)
qed

section \<open>Adopting a found holder\<close>

lemma fold_max_start: "(a :: nat) \<le> fold max zs a"
  by (induction zs arbitrary: a) (auto intro: order_trans[OF max.cobounded2])

lemma fold_max_above: "(x :: nat) \<in> set zs \<Longrightarrow> x \<le> fold max zs a"
  by (induction zs arbitrary: a) (auto intro: order_trans[OF max.cobounded1 fold_max_start])

lemma add_removed_pane_fresh:
  assumes "add_removed_pane r s = (t, p)"
  shows "p \<notin> fst ` set (states s)" and "generation_of s p = None"
proof -
  let ?ids = "map (\<lambda>process. proc_id process + 1) (sup_workspace s) @ map (\<lambda>(pane, _). pane + 1) (sup_generations s)"
  have p: "p = fold max ?ids 0" using assms by (simp add: add_removed_pane_def Let_def)
  have "q < p" if "q + 1 \<in> set ?ids" for q
    using fold_max_above[OF that, of 0] unfolding p by simp
  then show "p \<notin> fst ` set (states s)" "generation_of s p = None"
    unfolding states_def generation_of_def map_of_eq_None_iff by (force simp: image_iff)+
qed

lemma shown_in: "y \<in> set (sup_workspace s) \<Longrightarrow> (proc_id y, proc_state y) \<in> set (states s)"
  by (simp add: states_def)

lemma orderly_add_removed_pane:
  assumes inv: "orderly k xs None {} s" and add: "add_removed_pane r s = (t, p)"
  shows "orderly k xs None {} t" and "dead t p" and "\<not> is_unsupervised t p" and "process_of t p \<noteq> None"
proof -
  note fresh = add_removed_pane_fresh[OF add]
  obtain x where t: "t = s\<lparr>sup_workspace := sup_workspace s @ [x]\<rparr>" and x: "proc_id x = p" "proc_state x = Pending"
    using add by (auto simp: add_removed_pane_def Let_def workspace_push_def)
  have d: "distinct (map proc_id (sup_workspace s))" using inv_distinct[OF inv] by (simp add: states_def comp_def)
  have ids: "fst ` set (states s) = proc_id ` set (sup_workspace s)" by (simp add: states_def image_image)
  have starting: "pending s (proc_id y) \<noteq> None \<and> \<not> is_unsupervised s (proc_id y)"
    if "y \<in> set (sup_workspace s)" "proc_state y = Starting" "\<not> detaching s" for y
    using inv_starting[OF inv that(3), of "proc_id y"] shown_in[OF that(1)] that(2) by simp
  show o: "orderly k xs None {} t"
    unfolding t
  proof (rule orderly_workspace[OF inv], goal_cases)
    case (2 q)
    then show ?case using inv_live[OF inv, of q] pending_states[OF inv, of q] by (auto simp: ids)
  next
    case (3 y)
    then show ?case using starting[of y] x by auto
  qed (use d fresh x ids in auto)
  show "dead t p" using inv_live[OF inv, of p] pending_states[OF inv, of p] fresh by (auto simp: t dead_def)
  show "\<not> is_unsupervised t p" using inv_left[OF inv, of p] fresh by (auto simp: t)
  show "process_of t p \<noteq> None" unfolding process_of_iff[OF inv_distinct[OF o]] by (simp add: t x)
qed

lemma pane_named_process: "pane_named w s name = Some p \<Longrightarrow> p \<in> fst ` set (states s)"
  by (auto simp: pane_named_def states_def find_Some_iff image_image)

lemma orderly_adopt:
  assumes inv: "orderly (Suc (Suc (Suc k))) xs None {} s"
  shows "orderly k xs None {} (adopt w r s)"
proof (cases "pane_named w s (hr_process r)")
  case None
  obtain t p where t: "add_removed_pane r s = (t, p)" by fastforce
  from orderly_begin_adoption[OF orderly_add_removed_pane[OF inv t]] None show ?thesis
    by (simp add: adopt_def adoptable_pane_def t)
next
  case (Some p)
  show ?thesis
  proof (cases "holds_process s p")
    case True
    have "quiet s (fst (adoptable_pane w r s))"
      using Some True by (auto simp: adoptable_pane_def split_beta intro!: quiet_intros)
    from inv_weaken[OF inv_quiet[OF inv this], of k] Some True show ?thesis
      by (auto simp: adopt_def adoptable_pane_def split: prod.splits)
  next
    case False
    have "process_of s p \<noteq> None" using process_of_iff[OF inv_distinct[OF inv]] pane_named_process[OF Some] by simp
    with orderly_begin_adoption[OF inv] False Some show ?thesis
      by (simp add: adopt_def adoptable_pane_def holds_process_def dead_def is_starting_pending)
  qed
qed

section \<open>Commands\<close>

lemma orderly_on_named:
  assumes inv: "orderly m xs None {} s" and "k \<le> m" and act: "\<And>p t. orderly m xs None {} t \<Longrightarrow> orderly k xs None {} (act p t)"
  shows "orderly k xs None {} (on_named w name act s)"
proof -
  have "quiet s (fst (resolve w s name))"
    by (auto simp: resolve_def intro!: quiet_intros split: option.splits)
  note o = inv_quiet[OF inv this]
  from act[OF o] inv_weaken[OF o assms(2)] show ?thesis
    by (auto simp: on_named_def split: prod.splits option.splits)
qed

lemma orderly_named_commands:
  assumes "orderly (Suc (Suc k)) xs None {} s"
  shows "orderly k xs None {} (start_process w name environment s)"
    and "orderly k xs None {} (stop_process w name s)"
    and "orderly k xs None {} (restart_process w name environment s)"
    and "orderly k xs None {} (pause_process w name s)"
    and "orderly k xs None {} (resume_process w name s)"
    and "orderly k xs None {} (force_kill w name s)"
  unfolding start_process_def stop_process_def restart_process_def pause_process_def resume_process_def force_kill_def
  by (rule orderly_on_named[OF assms]; auto intro: orderly_start_pane orderly_stop_pane orderly_restart_pane
      orderly_force_kill_pane inv_weaken[OF orderly_pause_pane] inv_weaken[OF orderly_resume_pane])+

text \<open>Steps over a list of panes, each with room of its own.\<close>

lemma orderly_fold:
  assumes "\<And>p t j. p \<in> set ps \<Longrightarrow> orderly (j + m) xs None {} t \<Longrightarrow> Q t \<Longrightarrow> orderly j xs None {} (f p t) \<and> Q (f p t)"
    and "orderly (k + m * length ps) xs None {} s" and "Q s"
  shows "orderly k xs None {} (fold f ps s) \<and> Q (fold f ps s)"
  using assms
proof (induction ps arbitrary: s)
  case (Cons p ps)
  have "orderly (k + m * length ps) xs None {} (f p s) \<and> Q (f p s)"
    by (rule Cons.prems(1)) (use Cons.prems(2,3) in \<open>simp_all add: algebra_simps\<close>)
  with Cons.IH[of "f p s"] Cons.prems(1) show ?case by simp
qed simp

lemma orderly_down:
  assumes "orderly (k + 2 * length (sup_workspace s)) xs None {} s"
  shows "orderly k xs None {} (fst (down w s))"
proof -
  let ?ps = "map proc_id (filter (\<lambda>process. may_be_running (proc_state process)) (sup_workspace s))"
  have "quiet s (s\<lparr>sup_batch := Some []\<rparr>)" by (intro quiet_intros)
  from inv_weaken[OF inv_quiet[OF assms this], of "k + 2 * length ?ps" "{}"]
  have "orderly (k + 2 * length ?ps) xs None {} (s\<lparr>sup_batch := Some []\<rparr>)" by simp
  from orderly_fold[where Q = "\<lambda>_. True" and f = "stop_pane w", OF _ this] orderly_stop_pane
  have o: "orderly k xs None {} (fold (stop_pane w) ?ps (s\<lparr>sup_batch := Some []\<rparr>))" by simp
  show ?thesis
    unfolding down_def Let_def finish_batch_def fst_conv by (rule inv_quiet[OF o]) (intro quiet_intros)
qed

lemma orderly_idle_stop_if_due:
  assumes "orderly (k + 2 * length (sup_workspace s)) xs None {} s"
  shows "orderly k xs None {} (fst (idle_stop_if_due w now s))"
proof -
  let ?t = "s\<lparr>sup_left_at := None\<rparr>"
  have q: "quiet s ?t" by (intro quiet_intros)
  have "orderly k xs None {} (fst (down w ?t))" using orderly_down[of k ?t] inv_quiet[OF assms q] by simp
  moreover have "quiet u (u\<lparr>sup_idle_stopping := names\<rparr>)" for u names by (intro quiet_intros)
  moreover have "orderly k xs None {} s" "orderly k xs None {} ?t"
    using inv_weaken[OF assms, of k] inv_weaken[OF inv_quiet[OF assms q], of k] by simp_all
  ultimately show ?thesis
    by (auto simp: idle_stop_if_due_def Let_def split: option.splits prod.splits intro: inv_quiet)
qed

section \<open>Steps that start no process\<close>

text \<open>No pane comes to hold a process by such a step; only the answer of a launch does that.\<close>

definition calm :: "supervisor \<Rightarrow> supervisor \<Rightarrow> bool" where
  "calm s t \<longleftrightarrow> (\<forall>q. is_live t q \<longrightarrow> is_live s q)"

named_theorems calm_intros

lemma calm_refl [calm_intros]: "calm s s"
  by (simp add: calm_def)

lemma calm_trans: "calm s t \<Longrightarrow> calm t u \<Longrightarrow> calm s u"
  by (simp add: calm_def)

lemma calm_quiet: "quiet s t \<Longrightarrow> calm s t"
  by (simp add: calm_def quiet_core)

lemma calm_then_quiet: "calm s t \<Longrightarrow> quiet t u \<Longrightarrow> calm s u"
  by (rule calm_trans[OF _ calm_quiet])

lemma calm_primitives [calm_intros]:
  assumes "calm s t"
  shows "calm s (become p st t)" and "calm s (bump_generation p t)" and "calm s (emit e t)" and "calm s (on_launches f t)"
    and "calm s (on_pane take_handle p t)" and "calm s (on_pane (\<lambda>x. x\<lparr>pane_unsupervised := c x\<rparr>) p t)"
    and "calm s (on_pane (\<lambda>x. x\<lparr>pane_intent := i\<rparr>) p t)" and "calm s (on_metrics g t)" and "calm s (on_attach h t)"
    and "calm s (on_restarts j t)" and "calm s (t\<lparr>sup_workspace := ws\<rparr>)" and "calm s (drop_handle site p t)"
    and "calm s (t\<lparr>sup_panes := AList.delete p (sup_panes t)\<rparr>)"
    and "calm s (on_pane (\<lambda>x. take_handle x\<lparr>pane_intent := i\<rparr>) p t)" and "calm s (t\<lparr>sup_failing_reads := z\<rparr>)"
  using assms
  by (auto simp: calm_def drop_handle_def is_live_def pane_of_on_pane take_handle_def pane_of_def delete_conv' emit_def split: option.splits if_splits)

lemma calm_deactivate [calm_intros]: "calm s t \<Longrightarrow> calm s (deactivate p t)"
  by (auto simp: deactivate_def Let_def intro!: calm_intros)

lemma calm_retire_pane [calm_intros]:
  assumes "calm s t"
  shows "calm s (retire_pane p t)"
proof -
  let ?u = "forget_readiness p ((\<lambda>s. s\<lparr>sup_replays := (sup_replays s)(p := None)\<rparr>)
    (emit (Forget_Tap p) (forget_probes p (end_waits p None Wait_Stopped Exited (emit (Forget_Log_Read p) t)))))"
  have "quiet t ?u" by (intro quiet_intros) simp_all
  then have "calm s ?u" by (rule calm_then_quiet[OF assms])
  then show ?thesis unfolding retire_pane_def Let_def by (intro calm_intros)
qed

lemma calm_settle_unsupervised_exit: "calm s (settle_unsupervised_exit p s)"
proof -
  let ?t = "case sup_collect_after_stop s p of
      Some socket \<Rightarrow> emit (Collecting socket False) (s\<lparr>sup_collect_after_stop := (sup_collect_after_stop s)(p := None)\<rparr>)
    | None \<Rightarrow> s"
  have "quiet s ?t" by (auto intro!: quiet_intros split: option.splits)
  from calm_quiet[OF this] show ?thesis
    unfolding settle_unsupervised_exit_def Let_def by (auto intro!: calm_intros split: option.splits)
qed

lemma calm_refuse_unsupervised_launch: "calm s (fst (refuse_unsupervised_launch w p s))"
proof -
  have q: "quiet s (if snd (retry_adoption_now w p s) then fst (retry_adoption_now w p s)
      else refuse_unsupervised_start p pid (fst (retry_adoption_now w p s)))" for pid
    by (auto simp: refuse_unsupervised_start_def intro!: quiet_intros)
  have "calm s (notify_process (settle_unsupervised_exit p s) lv name m)" for lv name m
    by (rule calm_then_quiet[OF calm_settle_unsupervised_exit[of s p]]) (intro quiet_intros)
  with calm_quiet[OF q] calm_refl calm_settle_unsupervised_exit[of s p] show ?thesis
    by (auto simp: refuse_unsupervised_launch_def Let_def split_beta split: option.splits)
qed

lemma calm_launch: "calm s (launch w p environment s)"
proof -
  have b: "calm u t \<Longrightarrow> calm u (begin_run w p t)" for u t
    by (rule calm_then_quiet) (auto intro: quiet_intros)
  have n: "calm s (notify s lv po m)" for lv po m
    by (rule calm_quiet) (intro quiet_intros)
  have e: "calm s (case environment of Some env \<Rightarrow> set_launch_environment p env s | None \<Rightarrow> s)"
    by (auto simp: set_launch_environment_def intro!: calm_intros split: option.splits)
  show ?thesis
    unfolding launch_def Let_def using n e by (auto intro!: calm_intros b split: option.splits)
qed

lemma calm_spawn_with: "calm s (spawn_with w p environment s)"
proof -
  obtain s1 b1 where r1: "refuse_unsupervised_launch w p s = (s1, b1)" by fastforce
  obtain s2 b2 where r2: "refuse_stored_problem w p s1 = (s2, b2)" by fastforce
  obtain s3 b3 where r3: "refuse_blocked_launch p s2 = (s3, b3)" by fastforce
  have c1: "calm s s1" using calm_refuse_unsupervised_launch[of s w p] by (simp add: r1)
  have c2: "calm s s2"
    using calm_then_quiet[OF c1, of s2] quiet_refuse_stored_problem[of s1 s1 w p] by (simp add: r2)
  have "calm s2 (block_launch p block s2)" for block
    unfolding block_launch_def Let_def
    by (rule calm_primitives(1)) (rule calm_quiet, auto intro!: quiet_intros split: option.splits)
  then have "calm s2 s3" using r3 by (auto simp: refuse_blocked_launch_def calm_intros split: option.splits)
  then have c3: "calm s s3" by (rule calm_trans[OF c2])
  show ?thesis
    using c1 c2 c3 calm_trans[OF c3 calm_launch, of w p environment] calm_refl
    by (auto simp: spawn_with_def r1 r2 r3 split: bool.splits)
qed

lemma orderly_up:
  assumes "orderly (k + 2 * length (sup_workspace s)) xs None {} s"
  shows "orderly k xs None {} (fst (up w environment s))"
proof -
  let ?ps = "autostart_panes w s" and ?s = "s\<lparr>sup_batch := Some []\<rparr>"
  let ?Q = "\<lambda>t. \<forall>p \<in> set ?ps. \<not> is_live t p"
  have q: "quiet s ?s" by (intro quiet_intros)
  have len: "length ?ps \<le> length (sup_workspace s)"
    unfolding autostart_panes_def by (metis (no_types, lifting) length_filter_le length_map le_trans)
  have "orderly j xs None {} (up_pane w environment p t) \<and> ?Q (up_pane w environment p t)"
    if p: "p \<in> set ?ps" and o: "orderly (j + 2) xs None {} t" and Q: "?Q t" for p t j
  proof -
    let ?t = "on_restarts (\<lambda>book. end_crash_streak book p) t"
    have qt: "quiet t ?t" by (intro quiet_intros)
    have "orderly j xs None {} (up_pane w environment p t)"
      unfolding up_pane_def by (rule orderly_spawn_with) (use inv_quiet[OF o qt] Q p in auto)
    moreover have "calm ?t (up_pane w environment p t)" unfolding up_pane_def by (rule calm_spawn_with)
    ultimately show ?thesis using Q by (auto simp: calm_def)
  qed
  moreover have "orderly (k + 2 * length ?ps) xs None {} ?s"
    by (rule inv_weaken[OF inv_quiet[OF assms q]]) (use len in auto)
  moreover have "?Q ?s" by (auto simp: autostart_panes_def quiet_is_live[OF q])
  ultimately have o: "orderly k xs None {} (fold (up_pane w environment) ?ps ?s)"
    using orderly_fold[of ?ps 2 xs ?Q "up_pane w environment" k ?s] by blast
  have "fst (up w environment s) = (fold (up_pane w environment) ?ps ?s)\<lparr>sup_batch := None\<rparr>"
    by (simp add: up_def finish_batch_def Let_def)
  then show ?thesis using inv_quiet[OF o] by (simp add: quiet_intros)
qed

lemma orderly_restore_ends:
  assumes "orderly k xs None {} s"
  shows "orderly k xs None {} (restore_ends w runs s)"
proof -
  have "orderly j xs None {} (restore_end w run t)" if o: "orderly j xs None {} t" for run t j
  proof -
    obtain name outcome at where run: "run = (name, outcome, at)" by (cases run)
    have "orderly j xs None {} (become p st (on_restarts f t))" if "st \<noteq> Starting" for p st f
      using inv_become[OF inv_quiet[OF o, of "on_restarts f t"], of st p] that by (simp add: quiet_intros)
    with o show ?thesis by (auto simp: restore_end_def run split: option.splits)
  qed
  with orderly_fold[where Q = "\<lambda>_. True" and m = 0 and f = "restore_end w"] assms show ?thesis
    by (simp add: restore_ends_def)
qed


section \<open>A changed stack\<close>

lemma match_specs_state:
  assumes "match_specs nfc (index_by_key nfc ws) n specs = (synced, matched, new)" and "q \<in> set synced"
    and "proc_state q \<noteq> Pending"
  shows "\<exists>p \<in> set ws. proc_id p = proc_id q \<and> proc_state p = proc_state q"
proof -
  from match_specs_origin[OF assms(1,2)] assms(3) obtain key p
    where "index_by_key nfc ws key = Some p" and q: "q = set_spec p (proc_spec q)"
    by (metis to_process_fresh(2))
  then have "p \<in> set ws" by (auto simp: index_by_key_find dest: find_SomeD)
  moreover have "proc_id p = proc_id q" "proc_state p = proc_state q" by (subst q, simp)+
  ultimately show ?thesis by blast
qed

lemma length_disjoint_filters:
  "(\<And>x. \<not> (P x \<and> Q x)) \<Longrightarrow> length (filter P zs) + length (filter Q zs) \<le> length zs"
  by (induction zs) auto

lemma orderly_synced:
  assumes inv: "orderly k xs None {} s"
    and sync: "sync = StackSync_apply nfc (sup_workspace s) specs (holds_process s)"
  shows "orderly k xs None {} (s\<lparr>sup_workspace := sync_workspace sync\<rparr>)"
    and "\<forall>p \<in> set (sync_removed sync). \<not> is_live s p"
    and "length (sync_removed sync) + length (sync_retiring sync) \<le> length (sup_workspace s)"
proof -
  let ?ws = "sup_workspace s"
  have d: "distinct (map proc_id ?ws)" using inv_distinct[OF inv] by (simp add: states_def comp_def)
  let ?kept = "filter (\<lambda>p. \<not> goes_on nfc ?ws specs p \<and> holds_process s (proc_id p)) ?ws"
  obtain synced matched where
    m: "match_specs nfc (index_by_key nfc ?ws) (next_pane_id ?ws) specs = (synced, matched, sync_added sync)"
    and ws: "sync_workspace sync = synced @ ?kept" and ret: "sync_retiring sync = map proc_id ?kept"
    and rem: "sync_removed sync = map proc_id (filter (\<lambda>p. \<not> goes_on nfc ?ws specs p \<and> \<not> holds_process s (proc_id p)) ?ws)"
    by (rule StackSync_apply_fields[OF d sync[symmetric]])
  show "orderly k xs None {} (s\<lparr>sup_workspace := sync_workspace sync\<rparr>)"
    unfolding ws
  proof (rule orderly_workspace[OF inv], goal_cases)
    case 1
    show ?case using sync_ids_distinct[OF d m] .
  next
    case (2 q)
    then have "q \<in> fst ` set (states s)" and "holds_process s q"
      using inv_live[OF inv, of q] pending_states[OF inv, of q]
      by (auto simp: holds_process_def is_starting_pending)
    then obtain y where "y \<in> set ?ws" "proc_id y = q" by (auto simp: states_def)
    then have "q \<in> proc_id ` set synced \<or> y \<in> set ?kept"
      using goes_on_synced[OF d m, of y] \<open>holds_process s q\<close> by (cases "goes_on nfc ?ws specs y") (auto simp: image_iff intro: bexI[rotated])
    with \<open>proc_id y = q\<close> show ?case by auto
  next
    case (3 x)
    then obtain y where y: "y \<in> set ?ws" "proc_id y = proc_id x" "proc_state y = Starting"
      using match_specs_state[OF m, of x] by auto
    then show ?case using inv_starting[OF inv 3(3), of "proc_id x"] shown_in[OF y(1)] by simp
  qed
  show "\<forall>p \<in> set (sync_removed sync). \<not> is_live s p" by (auto simp: rem holds_process_def)
  show "length (sync_removed sync) + length (sync_retiring sync) \<le> length ?ws"
    unfolding rem ret length_map by (rule length_disjoint_filters) blast
qed

lemma orderly_retire_removed:
  assumes "orderly (k + length ps) xs None {} s" and "\<forall>p \<in> set ps. \<not> is_live s p"
  shows "orderly k xs None {} (fold retire_pane ps s)"
proof -
  have "orderly j xs None {} (retire_pane p t) \<and> (\<forall>p \<in> set ps. \<not> is_live (retire_pane p' t) p)"
    if "p \<in> set ps" "orderly (j + 1) xs None {} t" "\<forall>p \<in> set ps. \<not> is_live t p" for p p' t j
    using orderly_retire_pane[of j xs "{}" t p] calm_retire_pane[OF calm_refl, of t p'] that by (auto simp: calm_def)
  with assms show ?thesis
    using orderly_fold[where Q = "\<lambda>t. \<forall>p \<in> set ps. \<not> is_live t p" and f = retire_pane and m = 1 and ps = ps and s = s]
    by simp
qed

lemma orderly_apply_stack:
  assumes inv: "orderly (k + 2 * length (sup_workspace s)) xs None {} s"
  shows "orderly k xs None {} (apply_stack w stack s)"
proof -
  define s1 where "s1 = s\<lparr>sup_project := stack_project stack\<rparr>"
  define sync where "sync = StackSync_apply (world_nfc w) (sup_workspace s1) (stack_processes stack) (holds_process s1)"
  define s2 where "s2 = fold retire_pane (sync_removed sync) (s1\<lparr>sup_workspace := sync_workspace sync\<rparr>)"
  define s3 where "s3 = fold (\<lambda>p. set_membership p Tracked)
    (filter (\<lambda>p. p \<notin> set (sync_added sync) \<and> p \<notin> set (sync_retiring sync)) (map proc_id (sup_workspace s2))) s2"
  have "quiet s s1" unfolding s1_def by (intro quiet_intros)
  note o1 = inv_quiet[OF inv this]
  note synced = orderly_synced[OF o1 sync_def]
  have len: "length (sync_removed sync) + length (sync_retiring sync) \<le> length (sup_workspace s)"
    using synced(3) by (simp add: s1_def)
  have "orderly (k + length (sync_retiring sync) * 2 + length (sync_removed sync)) xs None {}
      (s1\<lparr>sup_workspace := sync_workspace sync\<rparr>)"
    by (rule inv_weaken[OF synced(1)]) (use len in auto)
  then have o2: "orderly (k + 2 * length (sync_retiring sync)) xs None {} s2"
    unfolding s2_def using synced(2) by (intro orderly_retire_removed) (simp_all add: algebra_simps)
  have q3: "quiet s2 s3" unfolding s3_def by (intro quiet_fold quiet_intros) simp_all
  have "orderly j xs None {} (retire_removed w p t)" if "orderly (j + 2) xs None {} t" for p t j
    unfolding retire_removed_def
    by (rule orderly_stop_pane, rule inv_quiet) (use that in \<open>auto intro: quiet_intros\<close>)
  then have "orderly k xs None {} (fold (retire_removed w) (sync_retiring sync) s3)"
    using orderly_fold[where Q = "\<lambda>_. True" and m = 2 and f = "retire_removed w", OF _ inv_quiet[OF o2 q3]] by simp
  then show ?thesis
    by (simp add: apply_stack_def Let_def s1_def[symmetric] sync_def[symmetric] s2_def[symmetric] s3_def[symmetric])
qed

section \<open>Detaching\<close>

lemma orderly_detach:
  assumes inv: "orderly k xs a X s"
  shows "orderly k xs a X (on_launches (\<lambda>book. book\<lparr>lb_detaching := True\<rparr>) s)" (is "orderly k xs a X ?t")
proof -
  have t: "pending ?t = pending s" "stopped_adoption ?t = stopped_adoption s" "detaching ?t"
    by (auto simp: on_launches_def pending_def stopped_adoption_def detaching_def)
  have c: "current_generation ?t = current_generation s" by (simp add: current_generation_def fun_eq_iff)
  show ?thesis
  proof (rule invI, goal_cases)
    case (7 p c)
    then show ?case using inv_fits[OF inv, of p c] t c by (simp add: fits_def)
  next
    case (8 p c)
    then show ?case using inv_answered[OF inv, of p c] t by simp
  qed (use inv_D[OF inv] inv_lossless[OF inv] t c in simp_all)
qed

lemma orderly_drop_pane_handle:
  assumes "orderly k xs a X s"
  shows "orderly k xs a X (drop_pane_handle p s)"
  unfolding drop_pane_handle_def
proof (rule orderly_take_handle)
  have "quiet s (drop_handle At_Shutdown p s)"
    by (auto simp: drop_handle_def intro!: quiet_emit split: option.splits)
  then show "orderly k xs a X (drop_handle At_Shutdown p s)" by (rule inv_quiet[OF assms])
qed

lemma drop_pane_handle_keeps [simp]:
  "sup_generations (drop_pane_handle p s) = sup_generations s"
  "length (sup_panes (drop_pane_handle p s)) = length (sup_panes s)"
  "detaching (drop_pane_handle p s) = detaching s"
proof -
  have "length (AList.update p v zs) = length zs" if "map_of zs p \<noteq> None" for v :: pane and zs
    using that by (induction zs) (auto split: if_splits)
  then show "length (sup_panes (drop_pane_handle p s)) = length (sup_panes s)"
    by (auto simp: drop_pane_handle_def drop_handle_def on_pane_def pane_of_def emit_def split: option.splits)
qed (auto simp: drop_pane_handle_def drop_handle_def on_pane_def emit_def detaching_def split: option.splits)

lemma orderly_shutdown:
  assumes inv: "orderly (k + length (sup_generations s) + length (sup_panes s)) xs None {} s"
  shows "orderly k xs None {} (shutdown s)"
proof -
  let ?P = "\<lambda>t. sup_generations t = sup_generations s \<and> length (sup_panes t) = length (sup_panes s) \<and> detaching t"
  define room where "room = k + length (sup_generations s) + length (sup_panes s)"
  define s1 where "s1 = on_launches (\<lambda>book. book\<lparr>lb_detaching := True\<rparr>) s"
  define s2 where "s2 = fold drop_pane_handle (map fst (sup_panes s1)) s1"
  define s3 where "s3 = on_attach (\<lambda>book. keep_held book (\<lambda>p. p \<in> set (filter (is_spawning s2) (holding (sup_attach s2))))) s2"
  define known where "known = remdups (map fst (sup_generations s3) @ map fst (sup_panes s3))"
  have "orderly room xs None {} s1" unfolding s1_def room_def by (rule orderly_detach[OF inv])
  moreover have "?P s1" by (simp add: s1_def on_launches_def detaching_def)
  ultimately have o2: "orderly room xs None {} s2" and P2: "?P s2"
    using orderly_fold[where Q = ?P and m = 0 and f = drop_pane_handle and k = room and s = s1 and ps = "map fst (sup_panes s1)"]
      orderly_drop_pane_handle unfolding s2_def by simp_all
  have q3: "quiet s2 s3" unfolding s3_def by (intro quiet_intros)
  have "length known \<le> length (sup_generations s) + length (sup_panes s)"
    using P2 length_remdups_leq[of "map fst (sup_generations s3) @ map fst (sup_panes s3)"]
    by (simp add: known_def s3_def on_attach_def)
  with inv_weaken[OF inv_quiet[OF o2 q3], of "k + 1 * length known" "{}"]
  have "orderly (k + 1 * length known) xs None {} s3" by (simp add: room_def)
  moreover have "orderly j xs None {} (advance_generation p t) \<and> detaching (advance_generation p t)"
    if "orderly (j + 1) xs None {} t" "detaching t" for p t j
    using orderly_advance[of j xs None "{}" t p] that by simp
  moreover have "detaching s3" using P2 quiet_core[OF q3] by simp
  ultimately have "orderly k xs None {} (fold advance_generation known s3)"
    using orderly_fold[where Q = detaching and m = 1 and f = advance_generation and ps = known and s = s3] by simp
  then show ?thesis
    by (simp only: shutdown_def Let_def s1_def[symmetric] s2_def[symmetric] s3_def[symmetric] known_def[symmetric])
qed


end
