(* ===== verification/SupervisorSystem.thy ===== *)
theory SupervisorSystem
  imports SupervisorCommands
begin

text \<open>
  The supervisor of one project together with what it waits for: the threads that launch, locate,
  adopt and probe, and its timers. A step is a command, an output of a process, or the answer of
  something that is out; what the supervisor then sends goes out. The theorems hold in every
  configuration such steps reach, whatever the answers are and in whatever order they come.
\<close>

section \<open>Events and commands\<close>

text \<open>
  The events of \<open>ServiceEvent\<close> that reach a supervisor's launches. A blocked launch comes with the
  block made of the port and its occupant.
\<close>

datatype service_event =
    Output pane_id spawn_generation process_output
  | Respawn pane_id spawn_generation
  | ForceStop pane_id spawn_generation shutdown_generation
  | Spawned pane_id spawn_generation "ustring + process_handle"
  | LaunchBlocked pane_id spawn_generation port_block
  | Adopted pane_id spawn_generation holder_record "ustring + process_handle"
  | AdoptionRetryDue pane_id retry_id
  | AdoptionProbed pane_id retry_id bool "holder_record option"
  | ReconnectLocated pane_id spawn_generation "holder_record option"

fun handle :: "world \<Rightarrow> service_event \<Rightarrow> supervisor \<Rightarrow> supervisor" where
  "handle w (Output p g out) s = handle_output w p g out s"
| "handle w (Respawn p g) s = handle_respawn w p g s"
| "handle w (ForceStop p g d) s = handle_force_stop w p g d s"
| "handle w (Spawned p g result) s = handle_spawned w p g result s"
| "handle w (LaunchBlocked p g block) s = handle_launch_blocked w p g block s"
| "handle w (Adopted p g r result) s = handle_adopted w p g r result s"
| "handle w (AdoptionRetryDue p attempt) s = handle_adoption_retry_due w p attempt s"
| "handle w (AdoptionProbed p attempt asked r) s = handle_adoption_probed w p attempt asked r s"
| "handle w (ReconnectLocated p g r) s = handle_reconnect_located w p g r s"

text \<open>What a thread or a timer that is out may answer.\<close>

inductive answered_by :: "effect \<Rightarrow> service_event \<Rightarrow> bool" where
  "answered_by (Launching p g request ports) (Spawned p g result)"
| "answered_by (Launching p g request (Some ports)) (LaunchBlocked p g block)"
| "answered_by (Locating p g pid) (ReconnectLocated p g r)"
| "answered_by (Adopting p g r reconnecting) (Adopted p g r result)"
| "answered_by (Probing p attempt asked pid) (AdoptionProbed p attempt asked found_record)"
| "answered_by (Respawning p g delay) (Respawn p g)"
| "answered_by (ForceStopping p g d delay) (ForceStop p g d)"
| "answered_by (Retrying p attempt delay) (AdoptionRetryDue p attempt)"

text \<open>The commands of clients and the work of the service's own ticks.\<close>

inductive act :: "supervisor \<Rightarrow> supervisor \<Rightarrow> bool" where
  act_start: "act s (start_process w name environment s)"
| act_stop: "act s (stop_process w name s)"
| act_restart: "act s (restart_process w name environment s)"
| act_pause: "act s (pause_process w name s)"
| act_resume: "act s (resume_process w name s)"
| act_kill: "act s (force_kill w name s)"
| act_up: "act s (fst (up w environment s))"
| act_down: "act s (fst (down w s))"
| act_adopt: "act s (adopt w r s)"
| act_ends: "act s (restore_ends w runs s)"
| act_stack: "act s (apply_stack w stack s)"
| act_idle: "act s (fst (idle_stop_if_due w now s))"
| act_shells: "act s (set_shells shells s)"
| act_left: "act s (arm_idle now s)"
| act_held: "act s (hold_up s)"
| act_stopping: "act s (fst (idle_stopping stopping s))"
| act_forget: "act s (forget_idle_stopping s)"
| act_release: "act s (release_settled_exits w s)"
| act_settings: "act s (apply_settings settings s)"
| act_ports: "act s (set_held_ports held s)"
| act_shutdown: "act s (shutdown s)"

section \<open>Configurations\<close>

text \<open>
  Generations are 64-bit counters that wrap around. A step is taken while every pane has room for as
  many generations as one event may use up: two for each process, one for each known pane, and three
  for each output that waited for the answer of a launch.
\<close>

definition early_outputs :: "supervisor \<Rightarrow> pane_id \<Rightarrow> nat" where
  "early_outputs s p = (case lb_pending (sup_launches s) p of Some l \<Rightarrow> length (launch_early l) | None \<Rightarrow> 0)"

definition demand :: "supervisor \<Rightarrow> pane_id \<Rightarrow> nat" where
  "demand s p = 2 * length (sup_workspace s) + length (sup_generations s) + length (sup_panes s) +
     3 * early_outputs s p + 4"

definition roomy :: "supervisor \<Rightarrow> bool" where
  "roomy s \<longleftrightarrow> (\<forall>p q. unat (current_generation s q) + demand s p < 2 ^ 64)"

type_synonym config = "supervisor \<times> effect list"

datatype step_label = Acted | Heard | Answered effect

definition sent :: "supervisor \<Rightarrow> effect list \<Rightarrow> config" where
  "sent s xs = (s\<lparr>sup_out := []\<rparr>, xs @ sup_out s)"

inductive step :: "step_label \<Rightarrow> config \<Rightarrow> config \<Rightarrow> bool" where
  step_act: "roomy s \<Longrightarrow> act s t \<Longrightarrow> step Acted (s, xs) (sent t xs)"
| step_output: "roomy s \<Longrightarrow> step Heard (s, xs) (sent (handle w (Output p g out) s) xs)"
| step_answer: "roomy s \<Longrightarrow> e \<in> set xs \<Longrightarrow> answered_by e event \<Longrightarrow>
    step (Answered e) (s, xs) (sent (handle w event s) (remove1 e xs))"

inductive reachable :: "config \<Rightarrow> bool" where
  reachable_new: "reachable (Supervisor_new w stack settings adopter notifier probes_ports probes recorder, [])"
| reachable_step: "reachable c \<Longrightarrow> step l c d \<Longrightarrow> reachable d"

inductive_simps step_simps: "step l c d"
inductive_cases stepE: "step l c d"

section \<open>Every configuration is orderly\<close>

definition sound :: "config \<Rightarrow> bool" where
  "sound c \<longleftrightarrow> orderly 0 (snd c) None {} (fst c) \<and> sup_out (fst c) = []"

lemma orderly_sent:
  assumes "orderly k xs None {} s"
  shows "sound (sent s xs)"
proof -
  have "core (s\<lparr>sup_out := []\<rparr>) = core s" by (auto simp: core_def core_defs)
  then have c: "states (s\<lparr>sup_out := []\<rparr>) = states s" "is_live (s\<lparr>sup_out := []\<rparr>) = is_live s"
    "is_unsupervised (s\<lparr>sup_out := []\<rparr>) = is_unsupervised s" "generation_of (s\<lparr>sup_out := []\<rparr>) = generation_of s"
    "pending (s\<lparr>sup_out := []\<rparr>) = pending s" "detaching (s\<lparr>sup_out := []\<rparr>) = detaching s"
    "stopped_adoption (s\<lparr>sup_out := []\<rparr>) = stopped_adoption s" "sup_adopter (s\<lparr>sup_out := []\<rparr>) = sup_adopter s"
    by (simp_all add: core_def)
  have g: "current_generation (s\<lparr>sup_out := []\<rparr>) = current_generation s"
    by (rule current_generation_core[OF c(4)])
  have "orderly 0 xs None {} s" by (rule inv_weaken[OF assms]) simp_all
  then show ?thesis
    unfolding sound_def sent_def orderly_def fits_def c g fst_conv snd_conv by simp
qed

lemma roomy_orderly:
  assumes "orderly 0 xs None {} s" and "roomy s" and "k \<le> demand s p"
  shows "orderly k xs None {} s"
proof (rule inv_more_room[OF assms(1)])
  show "unat (current_generation s q) + k < 2 ^ 64" for q
    using assms(2,3) unfolding roomy_def by (meson add_le_cancel_left le_less_trans)
qed

lemma orderly_new: "sound (Supervisor_new w stack settings adopter notifier probes_ports probes recorder, [])"
proof -
  let ?s = "Supervisor_new w stack settings adopter notifier probes_ports probes recorder"
  let ?sync = "StackSync_apply (world_nfc w) [] (stack_processes stack) (\<lambda>_. False)"
  obtain synced matched where
    m: "match_specs (world_nfc w) (index_by_key (world_nfc w) []) (next_pane_id []) (stack_processes stack) =
      (synced, matched, sync_added ?sync)" and ws: "sync_workspace ?sync = synced"
    by (rule StackSync_apply_fields[of "[]" "world_nfc w" "stack_processes stack" "\<lambda>_. False" ?sync]) auto
  have d: "distinct (map proc_id synced)" using sync_ids_distinct[of "[]", OF _ m, of "\<lambda>_. False"] by simp
  have st: "(p, Starting) \<notin> set (states ?s)" for p
    using match_specs_state[OF m] by (force simp: states_def Supervisor_new_def ws)
  have "orderly 0 [] None {} ?s"
    by (rule invI)
      (use d st in \<open>auto simp: states_def Supervisor_new_def ws is_live_def is_unsupervised_def pane_of_def
         current_generation_def generation_of_def pending_def stopped_adoption_def comp_def SpawnGeneration_initial_def\<close>)
  then show ?thesis by (simp add: sound_def Supervisor_new_def)
qed

lemma orderly_act:
  assumes o: "orderly 0 xs None {} s" and room: "roomy s" and "act s t"
  shows "orderly 0 xs None {} t"
proof -
  have r: "orderly k xs None {} s" if "k \<le> 2 * length (sup_workspace s) + length (sup_generations s) + length (sup_panes s) + 4" for k
    by (rule roomy_orderly[OF o room, of k 0]) (use that in \<open>simp add: demand_def\<close>)
  have two: "orderly (Suc (Suc 0)) xs None {} s" by (rule r) simp
  have all: "orderly (0 + 2 * length (sup_workspace s)) xs None {} s" by (rule r) simp
  from assms(3) show ?thesis
  proof cases
    case act_adopt
    then show ?thesis using orderly_adopt[of 0 xs s] r[of 3] by (simp add: numeral_3_eq_3)
  next
    case act_shutdown
    then show ?thesis using orderly_shutdown[of 0 s xs] r by simp
  next
    case act_release
    then show ?thesis using inv_quiet[OF o quiet_release_settled_exits] by simp
  qed (use orderly_named_commands[OF two] orderly_up[OF all] orderly_down[OF all] orderly_restore_ends[OF o]
      orderly_apply_stack[OF all] orderly_idle_stop_if_due[OF all] in
      \<open>auto simp: set_shells_def arm_idle_def hold_up_def idle_stopping_def forget_idle_stopping_def apply_settings_def
         set_held_ports_def Let_def intro!: inv_quiet[OF o] quiet_intros\<close>)
qed

lemma answers_stamp: "answers e p c \<Longrightarrow> stamp e = Some (p, fst c)"
  by (cases e; cases c) auto

lemma answers_timer [simp]: "\<not> answers (ForceStopping q g h d) p c" "\<not> answers (Respawning q g d) p c"
  by (cases c; simp)+

lemma answers_thread: "answers e p c \<Longrightarrow> e \<noteq> Respawning q g d \<and> e \<noteq> ForceStopping q g h d"
  by (cases c) auto

text \<open>The thread or timer that answers is no longer out.\<close>

lemma orderly_answered:
  assumes o: "orderly k xs None {} s" and "sup_out s = []" and "stamp e = Some (p, g)" and "e \<in> set xs"
  shows "orderly k (remove1 e xs) (Some (p, g)) {} s" and "known_generation s p g"
    and "\<And>c. pending s p = Some c \<Longrightarrow> fst c = g \<Longrightarrow> answers e p c"
proof -
  have e: "e \<in> outstanding xs s" using assms(4) by simp
  show "known_generation s p g" using inv_stamp[OF o e assms(3)] inv_known[OF o e assms(3)] by (simp add: known_generation_def)
  show fit: "answers e p c" if "pending s p = Some c" "fst c = g" for c
    using inv_fits[OF o that(1)] that(2) assms(3) e unfolding fits_def by blast
  show "orderly k (remove1 e xs) (Some (p, g)) {} s"
  proof (rule inv_fewer[OF o set_remove1_subset])
    fix q c
    assume "pending s q = Some c"
    then obtain e' where "e' \<in> set xs" "answers e' q c" using inv_answered[OF o, of q c] assms(2) by auto
    then show "Some (p, g) = Some (q, fst c) \<or> (\<exists>e \<in> outstanding (remove1 e xs) s. answers e q c)"
      using answers_stamp[of e q c] assms(3) in_set_remove1[of e' e xs] by (cases "e' = e") auto
  qed
qed

lemma orderly_unanswered:
  assumes o: "orderly k xs None {} s" and "sup_out s = []" and "\<And>p c. \<not> answers e p c"
  shows "orderly k (remove1 e xs) None {} s"
proof (rule inv_fewer[OF o set_remove1_subset])
  fix q c
  assume "pending s q = Some c"
  then obtain e' where "e' \<in> set xs" "answers e' q c" using inv_answered[OF o, of q c] assms(2) by auto
  then show "None = Some (q, fst c) \<or> (\<exists>e \<in> outstanding (remove1 e xs) s. answers e q c)"
    using assms(3) in_set_remove1[of e' e xs] by (cases "e' = e") auto
qed

text \<open>
  A launch or an adoption that answers is settled: whatever launch of the pane is in flight afterwards
  has another generation. The search of a reconnect settles it too or goes on to adopt.
\<close>

lemma orderly_launch_answered:
  assumes o: "orderly 0 xs None {} s" and out: "sup_out s = []" and room: "roomy s" and e: "e \<in> set xs"
    and stamp: "stamp e = Some (p, g)" and ans: "answered_by e event"
    and thread: "\<And>h d. e \<noteq> Respawning p g h \<and> e \<noteq> ForceStopping p g d h"
  shows "orderly 0 (spent p g # remove1 e xs) None {} (handle w event s) \<or>
    orderly 0 (remove1 e xs) None {} (handle w event s) \<and> (\<exists>pid. e = Locating p g pid) \<and>
    (\<exists>h. Adopting p g h True \<in> set (sup_out (handle w event s)))"
proof -
  define n where "n = early_outputs s p"
  have "orderly (0 + 3 * n + 4) xs None {} s" by (rule roomy_orderly[OF o room, of _ p]) (simp add: demand_def n_def)
  note A = orderly_answered[OF this out stamp e]
  have early: "length (launch_early l) \<le> n" if "lb_pending (sup_launches s) p = Some l" for l
    using that by (simp add: n_def early_outputs_def)
  have small: "orderly k (remove1 e xs) (Some (p, g)) {} s" if "k \<le> 3 * n + 4" for k
    by (rule inv_weaken[OF A(1)]) (use that in auto)
  from ans show ?thesis
  proof cases
    case (1 p' g' request ports result)
    have "snd (snd c) = Purpose_Spawn False" if "pending s p = Some c" "fst c = g" for c
      using A(3)[OF that] stamp by (cases c) (simp add: 1)
    then show ?thesis
      using orderly_settle_spawn[OF small[of "0 + 3 * n + 3"] A(2) _ early, of w result] stamp 1 by (simp add: handle_spawned_def)
  next
    case (2 p' g' request ports block)
    then show ?thesis
      using orderly_handle_launch_blocked[OF small[of "Suc (Suc 0)"] A(2), of w block] stamp by simp
  next
    case (3 p' g' pid r)
    have "\<exists>carried. snd (snd c) = Purpose_Adopt (Some carried)" if "pending s p = Some c" "fst c = g" for c
      using A(3)[OF that] stamp by (cases c) (simp add: 3)
    then show ?thesis
      using orderly_handle_reconnect_located[OF small[of "0 + 4"] A(2), of w r] stamp 3 by simp
  next
    case (4 p' g' r reconnecting result)
    have "\<exists>carried. snd (snd c) = Purpose_Adopt carried" if "pending s p = Some c" "fst c = g" for c
      using A(3)[OF that] stamp by (cases c) (simp add: 4)
    then have "orderly 0 (spent p g # remove1 e xs) None {} (settle_adoption w p g r result s)"
      using orderly_settle_adoption[OF A(1,2) _ early] by simp
    then have "orderly 0 (spent p g # remove1 e xs) None {} (handle_adopted w p g r result s)"
      unfolding handle_adopted_def by (rule inv_quiet) (auto intro!: quiet_intros)
    then show ?thesis using stamp 4 by simp
  qed (use thread stamp in auto)
qed

lemma orderly_timer_answered:
  assumes o: "orderly 0 xs None {} s" and out: "sup_out s = []" and room: "roomy s" and e: "e \<in> set xs"
    and ans: "answered_by e event" and timer: "\<And>p c. \<not> answers e p c"
  shows "orderly 0 (remove1 e xs) None {} (handle w event s)"
proof -
  have r: "orderly k (remove1 e xs) None {} s" if "k \<le> 4" for k
    by (rule orderly_unanswered[OF roomy_orderly[OF o room, of k 0] out timer]) (use that in \<open>simp add: demand_def\<close>)
  have e': "e \<in> outstanding xs s" using e by simp
  from ans show ?thesis
  proof cases
    case (5 p attempt asked pid r)
    then show ?thesis using orderly_handle_adoption_probed[OF r] by simp
  next
    case (6 p g d)
    then have "\<not> is_live s p" if "generation_of s p = Some g"
      using inv_respawn[OF o, of p d] e' that by (simp add: current_generation_def)
    then show ?thesis using orderly_handle_respawn[of 0 "remove1 e xs" s p g w] r[of 2] 6 by (simp add: numeral_2_eq_2)
  next
    case (7 p g d delay)
    have "fst c \<noteq> g" if "pending s p = Some c" for c
      using orderly_answered(3)[OF o out _ e that] timer[of p c] 7 by auto
    then show ?thesis using orderly_handle_force_stop[OF r] 7 by simp
  next
    case (8 p attempt delay)
    then show ?thesis using orderly_handle_adoption_retry_due[OF r] by simp
  qed (use timer[of _ "(_, _, Purpose_Spawn False)"] timer[of _ "(_, _, Purpose_Adopt (Some undefined))"] in auto)
qed

lemma sound_step:
  assumes "step l c d" and "sound c"
  shows "sound d"
  using assms
proof cases
  case (step_act s t xs)
  have "orderly 0 xs None {} t"
    by (rule orderly_act[of xs s]) (use assms(2) step_act in \<open>simp_all add: sound_def\<close>)
  then show ?thesis using orderly_sent step_act by simp
next
  case (step_output s xs w p g out)
  have "orderly (0 + 3) xs None {} s"
    by (rule roomy_orderly[of xs s _ 0]) (use assms(2) step_output in \<open>simp_all add: sound_def demand_def\<close>)
  then show ?thesis using orderly_sent[OF orderly_handle_output[of 0 xs s w p g out]] step_output by simp
next
  case (step_answer s e xs event w)
  then have o: "orderly 0 xs None {} s" and out: "sup_out s = []" using assms(2) by (simp_all add: sound_def)
  have "orderly 0 (remove1 e xs) None {} (handle w event s)"
  proof (cases "\<exists>p c. answers e p c")
    case True
    then obtain p c where a: "answers e p c" by blast
    from orderly_launch_answered[OF o out step_answer(4,5) answers_stamp[OF a] step_answer(6) answers_thread[OF a], of w]
    show ?thesis using orderly_unspent(1)[of 0 p "fst c" "remove1 e xs" "{}" "handle w event s"] by argo
  next
    case False
    then have "\<not> answers e p c" for p c by blast
    from orderly_timer_answered[OF o out step_answer(4,5,6) this] show ?thesis .
  qed
  then show ?thesis using orderly_sent step_answer by simp
qed

lemma reachable_sound: "reachable c \<Longrightarrow> sound c"
  by (induction rule: reachable.induct) (auto intro: orderly_new sound_step)

section \<open>One run of each pane\<close>

lemma reachable_orderly:
  assumes "reachable (s, xs)"
  shows "orderly 0 xs None {} s" and "outstanding xs s = set xs"
  using reachable_sound[OF assms] by (simp_all add: sound_def)

lemma pending_core: "lb_pending (sup_launches s) p = Some l \<Longrightarrow> pending s p = Some (core_of l)"
  by (simp add: pending_def)

lemma reachable_timer:
  assumes "reachable (s, xs)" and "e \<in> set xs" and "stamp e = Some (p, g)" and "pending s p = Some c" and "\<not> answers e p c"
  shows "fst c \<noteq> g"
proof
  assume "fst c = g"
  with inv_fits[OF reachable_orderly(1)[OF assms(1)] assms(4)] assms(2,3) have "answers e p c" by (auto simp: fits_def)
  with assms(5) show False by simp
qed

text \<open>C1. While a pane's process runs, no launch of that pane is in flight, the process is not also counted as
  left running unsupervised, it is a process of the workspace, and every restart timer still out for
  the pane does nothing when it is due: no event and no command, in any order, gives a pane a second
  run.\<close>

theorem one_run_per_pane:
  assumes "reachable (s, xs)" and "is_live s p"
  shows "lb_pending (sup_launches s) p = None \<and> \<not> is_unsupervised s p \<and> process_of s p \<noteq> None \<and>
    (\<forall>g d. Respawning p g d \<in> set xs \<longrightarrow> handle_respawn w p g s = s)"
proof (intro conjI allI impI)
  note o = reachable_orderly(1)[OF assms(1)]
  show "lb_pending (sup_launches s) p = None" using live_none[OF o assms(2)] by (simp add: pending_def)
  show "\<not> is_unsupervised s p" "process_of s p \<noteq> None"
    using inv_live[OF o assms(2)] process_of_iff[OF inv_distinct[OF o], of p] by simp_all
  fix g d
  assume "Respawning p g d \<in> set xs"
  then have "generation_of s p \<noteq> Some g"
    using inv_respawn[OF o, of p d] assms(2) by (auto simp: current_generation_def)
  then show "handle_respawn w p g s = s" by (simp add: handle_respawn_def)
qed

text \<open>C3. While a launch is in flight and the service is not detaching, the timers of the pane's earlier runs are
  inert: a forced stop that comes due kills nothing and escalates nothing, and a restart that comes due
  starts nothing, so what was asked of an earlier run never reaches the next one.\<close>

theorem timers_of_earlier_runs_are_inert:
  assumes "reachable (s, xs)" and "lb_pending (sup_launches s) p = Some l" and "\<not> lb_detaching (sup_launches s)"
  shows "(\<forall>g d delay. ForceStopping p g d delay \<in> set xs \<longrightarrow> handle_force_stop w p g d s = s) \<and>
    (\<forall>g delay. Respawning p g delay \<in> set xs \<longrightarrow> g \<noteq> launch_generation l \<and> handle_respawn w p g s = s)"
proof -
  note o = reachable_orderly(1)[OF assms(1)] and c = pending_core[OF assms(2)]
  have g: "generation_of s p = Some (launch_generation l)"
    using inv_fits[OF o c] assms(3) by (simp add: fits_def detaching_def)
  have "handle_force_stop w p g d s = s" if "ForceStopping p g d delay \<in> set xs" for g d delay
    using reachable_timer[OF assms(1) that _ c] g by (auto simp: handle_force_stop_def)
  moreover have "g \<noteq> launch_generation l \<and> handle_respawn w p g s = s" if "Respawning p g delay \<in> set xs" for g delay
    using reachable_timer[OF assms(1) that _ c] g by (auto simp: handle_respawn_def)
  ultimately show ?thesis by blast
qed

text \<open>C4. The supervisor never drops the handle of a running process by accident. A handle is let go only by the
  service's own shutdown, for a launch that answers after the service began to detach, for the
  adoption of a process stopped meanwhile, or when the connection is being made anew; never because a
  pane was deactivated, retired or given another process.\<close>

theorem no_handle_is_lost:
  assumes "reachable (s, xs)" and "Dropped site h \<in> set xs"
  shows "site = At_Shutdown \<or> site = At_Stale_Release \<or> site = At_Stopped_Adoption \<or> site = At_Reconnect"
  using inv_lossless[OF reachable_orderly(1)[OF assms(1)], of "Dropped site h"] assms(2) by (cases site) auto

definition is_thread :: "effect \<Rightarrow> bool" where
  "is_thread e \<longleftrightarrow> (case e of Launching _ _ _ _ \<Rightarrow> True | Locating _ _ _ \<Rightarrow> True | Adopting _ _ _ _ \<Rightarrow> True | _ \<Rightarrow> False)"

lemma answers_is_thread: "answers e p c \<Longrightarrow> is_thread e"
  by (cases e; cases c) (auto simp: is_thread_def)

lemma launch_answered:
  assumes "reachable (s, xs)" and "lb_pending (sup_launches s) p = Some l"
  shows "\<exists>e \<in> set xs. is_thread e \<and> stamp e = Some (p, launch_generation l)"
proof -
  from inv_answered[OF reachable_orderly(1)[OF assms(1)] pending_core[OF assms(2)]] reachable_orderly(2)[OF assms(1)]
  obtain e where "e \<in> set xs" "answers e p (core_of l)" by auto
  then show ?thesis using answers_is_thread[of e p "core_of l"] answers_stamp[of e p "core_of l"] by auto
qed

text \<open>C5. No process is shown as starting without reason: unless the service is detaching, its pane has a launch
  in flight with the pane's current generation, and a thread is out that will answer it.\<close>

theorem starting_is_being_launched:
  assumes "reachable (s, xs)" and "state_of s p = Some Starting" and "\<not> lb_detaching (sup_launches s)"
  shows "\<exists>l. lb_pending (sup_launches s) p = Some l \<and> generation_of s p = Some (launch_generation l) \<and>
    (\<exists>e \<in> set xs. is_thread e \<and> stamp e = Some (p, launch_generation l))"
proof -
  note o = reachable_orderly(1)[OF assms(1)]
  have "(p, Starting) \<in> set (states s)" using assms(2) state_of_iff[OF inv_distinct[OF o]] by simp
  then have "pending s p \<noteq> None" using inv_starting[OF o] assms(3) by (auto simp: detaching_def)
  then obtain l where l: "lb_pending (sup_launches s) p = Some l" by (auto simp: pending_def)
  then have "generation_of s p = Some (launch_generation l)"
    using inv_fits[OF o pending_core[OF l]] assms(3) by (simp add: fits_def detaching_def)
  with l launch_answered[OF assms(1) l] show ?thesis by blast
qed

section \<open>Every launch is settled\<close>

text \<open>An endless run in which every thread that is out answers at some time.\<close>

definition fair_run :: "(nat \<Rightarrow> step_label) \<Rightarrow> (nat \<Rightarrow> config) \<Rightarrow> bool" where
  "fair_run ls cs \<longleftrightarrow>
     reachable (cs 0) \<and> (\<forall>i. step (ls i) (cs i) (cs (Suc i))) \<and>
     (\<forall>i. \<forall>e \<in> set (snd (cs i)). is_thread e \<longrightarrow> (\<exists>j \<ge> i. ls j = Answered e))"

text \<open>Whether the launch of that generation is in flight.\<close>

definition in_flight :: "config \<Rightarrow> pane_id \<Rightarrow> spawn_generation \<Rightarrow> bool" where
  "in_flight c p g \<longleftrightarrow> (\<exists>l. lb_pending (sup_launches (fst c)) p = Some l \<and> launch_generation l = g)"

lemma in_flight_pending: "in_flight c p g \<longleftrightarrow> map_option fst (pending (fst c) p) = Some g"
  by (auto simp: in_flight_def pending_def option.map_comp comp_def)

lemma step_settles:
  assumes "step (Answered e) c d" and "sound c" and "is_thread e" and "stamp e = Some (p, g)"
  shows "\<not> in_flight d p g \<or> (\<exists>pid. e = Locating p g pid) \<and> (\<exists>h. Adopting p g h True \<in> set (snd d))"
  using assms(1)
proof cases
  case (step_answer s xs event w)
  let ?t = "handle w event s"
  have o: "orderly 0 xs None {} s" "sup_out s = []" using assms(2) step_answer by (simp_all add: sound_def)
  have "e \<noteq> Respawning p g h \<and> e \<noteq> ForceStopping p g k h" for h k using assms(3) by (auto simp: is_thread_def)
  from orderly_launch_answered[OF o step_answer(3,4) assms(4) step_answer(5) this, of w]
  have "\<not> in_flight (sent ?t (remove1 e xs)) p g \<or>
      (\<exists>pid. e = Locating p g pid) \<and> (\<exists>h. Adopting p g h True \<in> set (sup_out ?t))"
    using orderly_unspent(2)[of 0 p g "remove1 e xs" "{}" ?t] by (fastforce simp: in_flight_pending sent_def pending_def)
  then show ?thesis using step_answer by (auto simp: sent_def)
qed

text \<open>
  What a client waits for, answered in at most two phases: what is out answers it, or asks again, and
  what is asked again answers it.
\<close>

locale two_phases =
  fixes step_by :: "'l \<Rightarrow> 'c \<Rightarrow> 'c \<Rightarrow> bool"
    and answer :: "'e \<Rightarrow> 'l"
    and good :: "'c \<Rightarrow> bool"
    and waits :: "'c \<Rightarrow> bool"
    and out_of :: "'c \<Rightarrow> 'e set"
    and asks :: "'e \<Rightarrow> bool"
    and asks_again :: "'e \<Rightarrow> bool"
  assumes good_step: "step_by l c d \<Longrightarrow> good c \<Longrightarrow> good d"
    and asked: "good c \<Longrightarrow> waits c \<Longrightarrow> \<exists>e \<in> out_of c. asks e"
    and first_answer: "step_by (answer e) c d \<Longrightarrow> good c \<Longrightarrow> asks e \<Longrightarrow> \<not> waits d \<or> (\<exists>e' \<in> out_of d. asks_again e')"
    and second_answer: "step_by (answer e) c d \<Longrightarrow> good c \<Longrightarrow> asks_again e \<Longrightarrow> \<not> waits d"
begin

lemma always_good: "good (cs 0) \<Longrightarrow> (\<And>i. step_by (ls i) (cs i) (cs (Suc i))) \<Longrightarrow> good (cs i)"
  by (induction i) (auto intro: good_step)

lemma comes_to_an_end:
  assumes start: "good (cs 0)" and run: "\<And>i. step_by (ls i) (cs i) (cs (Suc i))"
    and fair: "\<And>i e. e \<in> out_of (cs i) \<Longrightarrow> asks e \<or> asks_again e \<Longrightarrow> \<exists>j \<ge> i. ls j = answer e"
    and "waits (cs i)"
  shows "\<exists>j > i. \<not> waits (cs j)"
proof -
  note good = always_good[of cs ls, OF start run]
  from asked[OF good assms(4)] obtain e where e: "e \<in> out_of (cs i)" "asks e" by blast
  with fair obtain j where j: "j \<ge> i" "ls j = answer e" by blast
  show ?thesis
  proof (cases "waits (cs (Suc j))")
    case True
    with first_answer[OF run[of j, unfolded j(2)] good e(2)] obtain e'
      where e': "e' \<in> out_of (cs (Suc j))" "asks_again e'" by blast
    with fair obtain k where k: "k \<ge> Suc j" "ls k = answer e'" by blast
    have "\<not> waits (cs (Suc k))" by (rule second_answer[OF run[of k, unfolded k(2)] good e'(2)])
    then show ?thesis using j(1) k(1) by (intro exI[of _ "Suc k"]) simp
  next
    case False
    then show ?thesis using j(1) by (intro exI[of _ "Suc j"]) simp
  qed
qed

end

interpretation launches: two_phases step Answered sound "\<lambda>c. in_flight c p g" "\<lambda>c. set (snd c)"
  "\<lambda>e. is_thread e \<and> stamp e = Some (p, g)" "\<lambda>e. \<exists>h. e = Adopting p g h True" for p g
proof
  show "sound d" if "step l c d" "sound c" for l c d using that by (rule sound_step)
  show "\<exists>e \<in> set (snd c). is_thread e \<and> stamp e = Some (p, g)" if "sound c" "in_flight c p g" for c
  proof -
    from that have o: "orderly 0 (snd c) None {} (fst c)" and out: "sup_out (fst c) = []" by (simp_all add: sound_def)
    from that(2) obtain k where k: "pending (fst c) p = Some k" "fst k = g" by (auto simp: in_flight_pending)
    from inv_answered[OF o k(1)] out obtain e where "e \<in> set (snd c)" "answers e p k" by auto
    then show ?thesis using answers_is_thread[of e p k] answers_stamp[of e p k] k(2) by auto
  qed
  show "\<not> in_flight d p g \<or> (\<exists>e' \<in> set (snd d). \<exists>h. e' = Adopting p g h True)"
    if "step (Answered e) c d" "sound c" "is_thread e \<and> stamp e = Some (p, g)" for e c d
    using step_settles[OF that(1,2) conjunct1[OF that(3)] conjunct2[OF that(3)]] by blast
  show "\<not> in_flight d p g" if "step (Answered e) c d" "sound c" "\<exists>h. e = Adopting p g h True" for e c d
  proof -
    from that(3) obtain h where e: "e = Adopting p g h True" by blast
    show ?thesis using step_settles[OF that(1,2), of p g] unfolding e by (simp add: is_thread_def)
  qed
qed

text \<open>C2. Every launch comes to an end. In an endless run of the service in which each thread that launches,
  locates or adopts a process answers at some time, with whatever result, a launch that is in flight
  is later in flight no more, whatever else happens meanwhile: it was answered, given up or replaced
  by one of a later generation. None is left hanging.\<close>

theorem every_launch_is_settled:
  assumes "fair_run ls cs" and "in_flight (cs i) p g"
  shows "\<exists>j > i. \<not> in_flight (cs j) p g"
proof (rule launches.comes_to_an_end[of cs ls])
  show "sound (cs 0)" "step (ls k) (cs k) (cs (Suc k))" for k
    using assms(1) reachable_sound by (simp_all add: fair_run_def)
  show "\<exists>j \<ge> k. ls j = Answered e"
    if "e \<in> set (snd (cs k))" "(is_thread e \<and> stamp e = Some (p, g)) \<or> (\<exists>h. e = Adopting p g h True)" for k e
    using assms(1) that by (auto simp: fair_run_def is_thread_def)
qed (rule assms(2))

end
