(* ===== verification/SupervisorRuns.thy ===== *)
theory SupervisorRuns
  imports SupervisorSystem
begin

text \<open>
  What a start, the answer of a launch and an exit do on every branch, and runs of a supervisor of one
  process that start it, let it fail, start it again, let it run, restart it and shut the service down.
\<close>

section \<open>Starting a process\<close>

definition started_launch :: "supervisor \<Rightarrow> pane_id \<Rightarrow> process_state \<Rightarrow> pending_launch" where
  "started_launch s p prior_state =
     PendingLaunch_new (current_generation s p + 1) prior_state (Purpose_Spawn (prior_state = Restarting))"

lemma start_readiness_fields:
  "sup_generations (start_readiness w p check since deadline s) = sup_generations s"
  "sup_panes (start_readiness w p check since deadline s) = sup_panes s"
  "sup_workspace (start_readiness w p check since deadline s) = sup_workspace s"
  "sup_launches (start_readiness w p check since deadline s) = sup_launches s"
  "sup_metrics (start_readiness w p check since deadline s) = sup_metrics s"
  "filter is_thread (sup_out (start_readiness w p check since deadline s)) = filter is_thread (sup_out s)"
  by (simp_all add: start_readiness_def Let_def insert_readiness_def notify_def notify_process_def raise_notice_def emit_def
      is_thread_def split: ready_probe.splits option.splits)

lemma begin_run_fields [simp]:
  "sup_generations (begin_run w p s) = sup_generations s" "sup_panes (begin_run w p s) = sup_panes s"
  "sup_workspace (begin_run w p s) = sup_workspace s" "sup_launches (begin_run w p s) = sup_launches s"
  "sup_metrics (begin_run w p s) = sup_metrics s"
  "filter is_thread (sup_out (begin_run w p s)) = filter is_thread (sup_out s)"
  by (simp_all add: begin_run_def Let_def start_readiness_fields forget_readiness_def emit_def is_thread_def split: option.splits)

lemma launch_dir_stored: "spec_stored_problem spec = None \<Longrightarrow> \<exists>dir. launch_dir spec root = Inr dir"
  by (auto simp: spec_stored_problem_def launch_dir_def or_else_def split: option.splits)

text \<open>The threads and the timers a supervisor has sent.\<close>

definition scheduled :: "supervisor \<Rightarrow> effect list" where
  "scheduled s = filter (\<lambda>e. stamp e \<noteq> None) (sup_out s)"

lemma quiet_scheduled: "quiet s t \<Longrightarrow> scheduled t = scheduled s"
  by (auto simp: scheduled_def quiet_def harmless_def filter_empty_conv)

lemma launch_fields:
  assumes "process_of s p = Some x" and "spec_stored_problem (proc_spec x) = None" and t: "t = launch w p environment s"
  shows "lb_pending (sup_launches t) = (lb_pending (sup_launches s))(p \<mapsto> started_launch s p (proc_state x))"
    and "sup_generations t = AList.update p (current_generation s p + 1) (sup_generations s)"
    and "sup_panes t = sup_panes s" and "sup_workspace t = workspace_set_state (sup_workspace s) p Starting"
    and "lb_detaching (sup_launches t) = lb_detaching (sup_launches s)"
    and "\<exists>es request needed. sup_out t = sup_out s @ es @ [Launching p (current_generation s p + 1) request needed] \<and>
      (\<forall>e \<in> set es. harmless e) \<and> req_process request = proc_name x \<and> req_command request = proc_command x \<and>
      req_launch_environment request = unwrap_or environment (unwrap_or (lb_environments (sup_launches s) p) [])"
proof -
  obtain dir where dir: "launch_dir (proc_spec x) (project_root (sup_project s)) = Inr dir"
    using launch_dir_stored[OF assms(2)] by blast
  have state: "state_of s p = Some (proc_state x)" using assms(1) by (simp add: state_of_def)
  note defs = t launch_def state spawn_request_of_def process_of_def on_metrics_def on_launches_def become_def
    bump_generation_def advance_generation_def SpawnGeneration_next_def LaunchBook_begin_def LaunchBook_cancel_def
    set_launch_environment_def emit_def Let_def started_launch_def unwrap_or_def
  show "sup_panes t = sup_panes s"
    using dir assms(1) by (simp add: defs split: option.split)
  show "lb_detaching (sup_launches t) = lb_detaching (sup_launches s)"
    using dir assms(1) by (simp add: defs split: option.split)
  show "lb_pending (sup_launches t) = (lb_pending (sup_launches s))(p \<mapsto> started_launch s p (proc_state x))"
    using dir assms(1) by (simp add: defs current_generation_def generation_of_def update_conv' split: option.split)
  show "sup_generations t = AList.update p (current_generation s p + 1) (sup_generations s)"
    using dir assms(1) by (simp add: defs current_generation_def generation_of_def split: option.split)
  show "sup_workspace t = workspace_set_state (sup_workspace s) p Starting"
    using dir assms(1) by (simp add: defs split: option.split)
  have out: "\<exists>es. sup_out (begin_run w p u) = sup_out u @ es \<and> (\<forall>e \<in> set es. harmless e)" for u
    using quiet_begin_run[OF quiet_refl, of u w p] by (simp add: quiet_def)
  obtain u where u: "sup_out u = sup_out s" "\<exists>request needed. sup_out t =
      sup_out (begin_run w p u) @ [Launching p (current_generation s p + 1) request needed] \<and>
      req_process request = proc_name x \<and> req_command request = proc_command x \<and>
      req_launch_environment request = unwrap_or environment (unwrap_or (lb_environments (sup_launches s) p) [])"
  proof
    let ?e = "case environment of Some env \<Rightarrow> set_launch_environment p env s | None \<Rightarrow> s"
    let ?u = "bump_generation p (on_metrics (\<lambda>m. m\<lparr>mb_usage := (mb_usage m)(p := None)\<rparr>) ?e)"
    show "sup_out ?u = sup_out s" by (simp add: defs split: option.split)
    show "\<exists>request needed. sup_out t = sup_out (begin_run w p ?u) @ [Launching p (current_generation s p + 1) request needed] \<and>
        req_process request = proc_name x \<and> req_command request = proc_command x \<and>
        req_launch_environment request = unwrap_or environment (unwrap_or (lb_environments (sup_launches s) p) [])"
      using dir assms(1)
      by (cases environment) (simp_all add: defs current_generation_def generation_of_def update_conv')
  qed
  with out[of u] show "\<exists>es request needed. sup_out t = sup_out s @ es @ [Launching p (current_generation s p + 1) request needed] \<and>
      (\<forall>e \<in> set es. harmless e) \<and> req_process request = proc_name x \<and> req_command request = proc_command x \<and>
      req_launch_environment request = unwrap_or environment (unwrap_or (lb_environments (sup_launches s) p) [])"
    by auto
qed

lemma notify_fields [simp]:
  "sup_generations (notify s level q message) = sup_generations s" "sup_panes (notify s level q message) = sup_panes s"
  "sup_workspace (notify s level q message) = sup_workspace s" "sup_launches (notify s level q message) = sup_launches s"
  "filter is_thread (sup_out (notify s level q message)) = filter is_thread (sup_out s)"
  by (simp_all add: notify_def notify_process_def raise_notice_def Let_def emit_def is_thread_def split: option.splits)

lemma block_launch_fields [simp]:
  "sup_generations (block_launch p block s) = sup_generations s" "sup_panes (block_launch p block s) = sup_panes s"
  "sup_workspace (block_launch p block s) = workspace_set_state (sup_workspace s) p Blocked"
  "sup_launches (block_launch p block s) = sup_launches s"
  "filter is_thread (sup_out (block_launch p block s)) = filter is_thread (sup_out s)"
  by (simp_all add: block_launch_def Let_def notify_blocked_def raise_notice_def record_event_def emit_def on_metrics_def
      become_def is_thread_def notify_def notify_process_def split: option.splits)

text \<open>What a start leaves alone when it is refused.\<close>

definition refused_start :: "supervisor \<Rightarrow> supervisor \<Rightarrow> bool" where
  "refused_start s t \<longleftrightarrow>
     sup_launches t = sup_launches s \<and> sup_generations t = sup_generations s \<and> sup_panes t = sup_panes s \<and>
     scheduled t = scheduled s"

lemma notify_process_fields [simp]:
  "sup_generations (notify_process s level q message) = sup_generations s" "sup_panes (notify_process s level q message) = sup_panes s"
  "sup_workspace (notify_process s level q message) = sup_workspace s" "sup_launches (notify_process s level q message) = sup_launches s"
  by (simp_all add: notify_process_def raise_notice_def Let_def emit_def split: option.splits)


lemma refused_notify:
  "refused_start s (notify s level q message)" "refused_start s (notify_process s level name message)"
  by (auto simp: refused_start_def intro!: quiet_scheduled quiet_intros)

lemma refused_block: "refused_start s (block_launch p block s)"
proof -
  have "scheduled (become p st u) = scheduled u" for st u by (simp add: become_def scheduled_def)
  then have "scheduled (block_launch p block s) = scheduled s"
    by (auto simp: block_launch_def Let_def intro!: quiet_scheduled quiet_intros split: option.splits)
  then show ?thesis by (simp add: refused_start_def)
qed

text \<open>What the launch of a new process does to a supervisor.\<close>

definition launched :: "pane_id \<Rightarrow> process \<Rightarrow> launch_environment \<Rightarrow> supervisor \<Rightarrow> supervisor \<Rightarrow> bool" where
  "launched p x environment s t \<longleftrightarrow>
     lb_pending (sup_launches t) = (lb_pending (sup_launches s))(p \<mapsto> started_launch s p (proc_state x)) \<and>
     sup_generations t = AList.update p (current_generation s p + 1) (sup_generations s) \<and> sup_panes t = sup_panes s \<and>
     sup_workspace t = workspace_set_state (sup_workspace s) p Starting \<and>
     lb_detaching (sup_launches t) = lb_detaching (sup_launches s) \<and>
     (\<exists>request needed. scheduled t = scheduled s @ [Launching p (current_generation s p + 1) request needed] \<and>
        req_process request = proc_name x \<and> req_command request = proc_command x \<and>
        req_launch_environment request = environment)"

lemma launch_launched:
  assumes "process_of s p = Some x" and "spec_stored_problem (proc_spec x) = None"
  shows "launched p x (unwrap_or environment (unwrap_or (lb_environments (sup_launches s) p) [])) s (launch w p environment s)"
proof -
  note F = launch_fields[OF assms refl, of w environment]
  from F(6) obtain es request needed where
    "sup_out (launch w p environment s) = sup_out s @ es @ [Launching p (current_generation s p + 1) request needed]"
    "\<forall>e \<in> set es. harmless e" and r: "req_process request = proc_name x" "req_command request = proc_command x"
      "req_launch_environment request = unwrap_or environment (unwrap_or (lb_environments (sup_launches s) p) [])" by blast
  then have "scheduled (launch w p environment s) = scheduled s @ [Launching p (current_generation s p + 1) request needed]"
    by (auto simp: scheduled_def harmless_def filter_empty_conv)
  with r show ?thesis unfolding launched_def using F(1-5) by blast
qed

lemma spawn_with_outcome:
  assumes "lb_pending (sup_launches s) p = None" and "\<not> is_unsupervised s p" and t: "t = spawn_with w p environment s"
  shows "case process_of s p of
       None \<Rightarrow> refused_start s t \<and> sup_workspace t = sup_workspace s
     | Some x \<Rightarrow>
         if spec_stored_problem (proc_spec x) \<noteq> None then refused_start s t \<and> sup_workspace t = sup_workspace s
         else if sampled_block s p \<noteq> None then
           refused_start s t \<and> sup_workspace t = workspace_set_state (sup_workspace s) p Blocked
         else launched p x (unwrap_or environment (unwrap_or (lb_environments (sup_launches s) p) [])) s t"
proof -
  let ?m = "on_metrics (\<lambda>m. m\<lparr>mb_blocks := (mb_blocks m)(p := None)\<rparr>) s"
  have start: "\<not> is_starting s p" using assms(1) by (simp add: is_starting_def LaunchBook_is_starting_def)
  note defs = t spawn_with_def start refuse_unsupervised_launch_def assms(2) refuse_stored_problem_def refuse_blocked_launch_def
  show ?thesis
  proof (cases "process_of s p")
    case None
    then have "t = notify ?m Level_Error None (utf ''could not start: the pane has no process'')"
      by (simp add: defs sampled_block_def launch_def) (simp add: state_of_def process_of_def on_metrics_def)
    moreover have "refused_start ?m (notify ?m Level_Error None m)" for m by (rule refused_notify)
    ultimately show ?thesis using None by (simp add: refused_start_def) (simp add: on_metrics_def scheduled_def)
  next
    case (Some x)
    have m: "process_of ?m p = Some x" using Some by (simp add: process_of_def on_metrics_def)
    have same: "launched p x e ?m u = launched p x e s u" for e u
      by (simp add: launched_def started_launch_def current_generation_def generation_of_def on_metrics_def scheduled_def)
    have l: "sup_launches ?m = sup_launches s" by (simp add: on_metrics_def)
    show ?thesis
      using Some refused_notify(1) refused_block launch_launched[OF m, of environment w, unfolded l]
      by (auto simp: defs same)
  qed
qed



text \<open>What bookkeeping leaves alone: the processes, the generations, the launches and the ports.\<close>

definition frame where
  "frame s = (sup_workspace s, sup_generations s, sup_launches s, sup_project s,
     mb_held_ports (sup_metrics s), mb_probes_ports (sup_metrics s))"

lemma frame_emit [simp]: "frame (emit e s) = frame s"
  by (simp add: frame_def emit_def)

lemma frame_books [simp]:
  "frame (on_restarts f s) = frame s" "frame (on_attach h s) = frame s" "frame (s\<lparr>sup_restarts := rb\<rparr>) = frame s"
  "frame (s\<lparr>sup_attach := ab\<rparr>) = frame s" "frame (s\<lparr>sup_batch := b\<rparr>) = frame s" "frame (on_pane k p s) = frame s"
  "frame (s\<lparr>sup_readiness := r\<rparr>) = frame s"
  "frame (on_metrics (\<lambda>m. m\<lparr>mb_ports := ports m\<rparr>) s) = frame s"
  "frame (on_metrics (\<lambda>m. m\<lparr>mb_usage := usage m\<rparr>) s) = frame s"
  by (simp_all add: frame_def on_restarts_def on_attach_def on_pane_def on_metrics_def split: option.split)

lemma sampled_block_frame: "frame t = frame s \<Longrightarrow> sampled_block t p = sampled_block s p"
  by (simp add: frame_def sampled_block_def process_of_def launch_ports_of_def port_holder_of_def split: option.split)

lemma start_launched:
  assumes "\<not> is_live s p" and "lb_pending (sup_launches s) p = None" and "\<not> is_unsupervised s p" and "process_of s p = Some x"
    and "spec_stored_problem (proc_spec x) = None" and "sampled_block s p = None"
  shows "launched p x environment s (start_pane w p environment s)"
proof -
  let ?s = "on_restarts (\<lambda>book. end_streaks book p) s"
  have t: "start_pane w p environment s = spawn_with w p (Some environment) ?s"
    using assms(1,2) by (simp add: start_pane_def is_starting_def LaunchBook_is_starting_def)
  have same: "lb_pending (sup_launches ?s) p = None" "\<not> is_unsupervised ?s p" "process_of ?s p = Some x" "launched p x e ?s u = launched p x e s u" for e u
    using assms(1-5)
    by (simp_all add: on_restarts_def process_of_def is_unsupervised_def pane_of_def launched_def started_launch_def
        current_generation_def generation_of_def scheduled_def)
  have "sampled_block ?s p = None" using assms(6) sampled_block_frame[OF frame_books(1)] by simp
  with spawn_with_outcome[OF same(1,2) t, unfolded same(3)] assms(5) show ?thesis by (simp add: unwrap_or_def same(4))
qed

lemma threads_scheduled: "filter is_thread (sup_out s) = filter is_thread (scheduled s)"
proof -
  have "is_thread e \<Longrightarrow> stamp e \<noteq> None" for e by (cases e) (simp_all add: is_thread_def)
  then show ?thesis by (auto simp: scheduled_def intro: filter_cong)
qed

text \<open>C24. A restart that comes due, for the pane's own generation, while the stored definition of its process has a
  problem, is refused. All that happens is that the problem is reported; the process goes on being
  shown as restarting although no launch of it is in flight and no thread and no timer is sent that
  would start it later.\<close>

theorem refused_respawn_stays_restarting:
  assumes "generation_of s p = Some g" and "lb_pending (sup_launches s) p = None" and "\<not> is_unsupervised s p"
    and "process_of s p = Some x" and "spec_stored_problem (proc_spec x) = Some problem" and "proc_state x = Restarting"
    and t: "t = handle w (Respawn p g) s"
  shows "t = notify s Level_Error (Some p) (stored_problem_to_string (world_quote w) (world_show_path w) problem) \<and>
    state_of t p = Some Restarting \<and> lb_pending (sup_launches t) p = None \<and> scheduled t = scheduled s"
proof -
  have n: "t = notify s Level_Error (Some p) (stored_problem_to_string (world_quote w) (world_show_path w) problem)"
    using assms(1-5)
    by (simp add: t handle_respawn_def spawn_def spawn_with_def is_starting_def LaunchBook_is_starting_def
        refuse_unsupervised_launch_def refuse_stored_problem_def)
  have "scheduled t = scheduled s" using refused_notify(1) unfolding n refused_start_def by blast
  with assms(2,4,6) n show ?thesis by (simp add: state_of_def process_of_def)
qed


section \<open>The answer of a launch\<close>

lemma quiet_threads: "quiet s t \<Longrightarrow> filter is_thread (sup_out t) = filter is_thread (sup_out s)"
proof -
  have "harmless e \<Longrightarrow> \<not> is_thread e" for e by (cases e) (simp_all add: harmless_def is_thread_def)
  then show "quiet s t \<Longrightarrow> filter is_thread (sup_out t) = filter is_thread (sup_out s)"
    by (auto simp: quiet_def filter_empty_conv)
qed

lemma state_of_states: "state_of s p = map_of (states s) p"
proof -
  have "map_option proc_state (workspace_process ws p) = map_of (map (\<lambda>q. (proc_id q, proc_state q)) ws) p" for ws
    unfolding workspace_process_find by (induction ws) auto
  then show ?thesis by (simp add: state_of_def process_of_def states_def)
qed

lemma state_of_become: "state_of (become p st s) q = (if q = p then map_option (\<lambda>_. st) (state_of s p) else state_of s q)"
  by (simp add: state_of_def process_of_def become_def workspace_process_set_state set_state_def option.map_comp comp_def)

lemma quiet_state_of: "quiet s t \<Longrightarrow> state_of t = state_of s"
  by (simp add: state_of_states quiet_core fun_eq_iff)

lemma restart_delay_bounds: "RESTART_BACKOFF_BASE \<le> restart_delay n" "restart_delay n \<le> RESTART_BACKOFF_MAX"
proof -
  have "RESTART_BACKOFF_BASE * 1 \<le> RESTART_BACKOFF_BASE * 2 ^ k" for k by (intro mult_le_mono2) simp
  then show "RESTART_BACKOFF_BASE \<le> restart_delay n"
    by (simp add: restart_delay_def RESTART_BACKOFF_BASE_def RESTART_BACKOFF_MAX_def NANOS_PER_SEC_def)
  show "restart_delay n \<le> RESTART_BACKOFF_MAX" by (simp add: restart_delay_def)
qed

lemma take_launch_current:
  assumes "lb_pending (sup_launches s) p = Some l" and "generation_of s p = Some (launch_generation l)"
  shows "take_launch p (launch_generation l) s = (on_launches (\<lambda>book. LaunchBook_cancel book p) s, Some l)"
  using assms by (simp add: take_launch_def LaunchBook_take_def on_launches_def LaunchBook_cancel_def)

lemma install_pane_runs:
  assumes "\<not> is_live s p" and "process_of s p \<noteq> None"
  shows "is_live (fst (install_pane w p h s)) p" and "state_of (fst (install_pane w p h s)) p = Some Running"
    and "pending (fst (install_pane w p h s)) = pending s"
    and "generation_of (fst (install_pane w p h s)) = generation_of s"
proof -
  let ?h = "Some (h\<lparr>handle_initial_screen := None, handle_backlog := None\<rparr>)"
  obtain t b where t: "install_terminal w p ?h s = (t, b)" by fastforce
  note res = install_terminal_result[OF assms(1), of w ?h, unfolded t]
  have b: b and live: "is_live t p" using res(1,6) assms(2) by simp_all
  have q: "quiet (become p Running t) (fst (install_pane w p h s))"
    using b by (auto simp: install_pane_def Let_def t intro!: quiet_intros split: option.splits)
  have "state_of t p = state_of s p" using res(2) by (simp add: state_of_states)
  then have "state_of t p \<noteq> None" using assms(2) by (simp add: state_of_def)
  then show "state_of (fst (install_pane w p h s)) p = Some Running"
    by (auto simp: quiet_state_of[OF q] state_of_become)
  show "is_live (fst (install_pane w p h s)) p" "pending (fst (install_pane w p h s)) = pending s"
    "generation_of (fst (install_pane w p h s)) = generation_of s"
    using quiet_core[OF q] live res(3,4) by simp_all
qed

text \<open>A launch of which nothing was asked, and which printed nothing, before it was answered.\<close>

definition undisturbed :: "pending_launch \<Rightarrow> bool" where
  "undisturbed l \<longleftrightarrow>
     launch_early l = [] \<and> launch_intent l = None \<and> launch_suspend l = None \<and> launch_membership l = None"

lemma apply_pending_none [simp]: "apply_pending w p None None None s = s"
  by (simp add: apply_pending_def apply_intent_def apply_suspend_def)

lemma spawn_succeeded_runs:
  assumes "\<not> is_live s p" and "process_of s p \<noteq> None"
  shows "is_live (spawn_succeeded w p g h restarting [] s) p"
    and "state_of (spawn_succeeded w p g h restarting [] s) p = Some Running"
    and "pending (spawn_succeeded w p g h restarting [] s) = pending s"
    and "generation_of (spawn_succeeded w p g h restarting [] s) = generation_of s"
proof -
  define s1 where "s1 = release_held_exit w p (on_restarts (\<lambda>book. spawned book p)
      (if restarting then on_restarts (\<lambda>book. count_restart book p) s else s))"
  have q1: "quiet s s1" unfolding s1_def by (auto intro!: quiet_intros)
  obtain s2 backlog where s2: "install_pane w p h s1 = (s2, backlog)" by fastforce
  have "state_of s1 p \<noteq> None" unfolding quiet_state_of[OF q1] using assms(2) by (simp add: state_of_def)
  then have "process_of s1 p \<noteq> None" by (auto simp: state_of_def)
  note runs = install_pane_runs[of s1 p w h, unfolded s2 fst_conv, OF _ this]
  let ?t = "spawn_succeeded w p g h restarting [] s"
  have q: "quiet s2 ?t"
    unfolding spawn_succeeded_def Let_def s1_def[symmetric] s2 prod.case replay_def
    by (auto intro!: quiet_intros split: option.splits)
  show "is_live ?t p" "state_of ?t p = Some Running" "pending ?t = pending s" "generation_of ?t = generation_of s"
    using runs assms(1) quiet_core[OF q] quiet_core[OF q1] quiet_state_of[OF q] by simp_all
qed

lemma schedule_restart_effects:
  assumes "t = schedule_restart w p at s"
  shows "is_live t = is_live s" and "state_of t = state_of s" and "pending t = (pending s)(p := None)"
    and "\<exists>d. Respawning p (current_generation s p + 1) d \<in> set (sup_out t) \<and>
          RESTART_BACKOFF_BASE \<le> d \<and> d \<le> RESTART_BACKOFF_MAX"
    and "filter is_thread (sup_out t) = filter is_thread (sup_out s)"
proof -
  obtain book n where b: "next_attempt (sup_restarts s) p (ran_stably w at) = (book, n)" by fastforce
  let ?b = "bump_generation p (s\<lparr>sup_restarts := book\<rparr>)"
  have q: "quiet s (s\<lparr>sup_restarts := book\<rparr>)" by (intro quiet_intros)
  have t: "t = emit (Respawning p (current_generation ?b p) (restart_delay n)) ?b"
    using assms by (simp add: schedule_restart_def b Let_def)
  have g: "current_generation ?b p = current_generation s p + 1"
    by (simp add: bump_generation_def current_advance current_generation_def generation_of_def on_launches_def)
  show "\<exists>d. Respawning p (current_generation s p + 1) d \<in> set (sup_out t) \<and> RESTART_BACKOFF_BASE \<le> d \<and> d \<le> RESTART_BACKOFF_MAX"
    using restart_delay_bounds[of n] unfolding t g by (intro exI[of _ "restart_delay n"]) (simp add: emit_def)
  show "is_live t = is_live s" "pending t = (pending s)(p := None)" using quiet_core[OF q] by (simp_all add: t)
  show "filter is_thread (sup_out t) = filter is_thread (sup_out s)" by (simp add: t emit_def is_thread_def)
  show "state_of t = state_of s"
    using quiet_core(1)[OF q] by (simp add: t state_of_states fun_eq_iff)
qed

lemma workspace_kept [simp]:
  "sup_workspace (deactivate p s) = sup_workspace s" "sup_workspace (alert_desktop s p message) = sup_workspace s"
  by (simp_all add: deactivate_def on_pane_def drop_handle_def on_attach_def on_metrics_def alert_desktop_def emit_def Let_def
      split: option.splits)

lemma spawn_failed_effects:
  assumes "\<not> is_live s p" and "process_of s p = Some x"
    and t: "t = spawn_failed_to_start w p g error s" and restart: "restart = should_restart (proc_restart x) FAILED_UNKNOWN"
  shows "\<not> is_live t p" and "state_of t p = Some (if restart then Restarting else Crashed)"
    and "pending t = (if restart then (pending s)(p := None) else pending s)"
    and "restart \<Longrightarrow> \<exists>d. Respawning p (current_generation s p + 1) d \<in> set (sup_out t) \<and>
          RESTART_BACKOFF_BASE \<le> d \<and> d \<le> RESTART_BACKOFF_MAX"
    and "filter is_thread (sup_out t) = filter is_thread (sup_out s)"
proof -
  let ?message = "utf ''could not start the process: '' @ error"
  let ?s1 = "deactivate p s"
  obtain book first where b: "spawn_failed (sup_restarts ?s1) p = (book, first)" by fastforce
  let ?s2 = "?s1\<lparr>sup_restarts := book\<rparr>"
  let ?s3 = "if first then notify (alert_desktop ?s2 p ?message) Level_Error (Some p) ?message else ?s2"
  let ?next = "if restart then Restarting else Crashed"
  define u where "u = store_end w p (Some FAILED_UNKNOWN) (end_run w p g FailedToStart ?next ?message ?s3)"
  have q: "quiet s u" unfolding u_def using assms(1) by (auto intro!: quiet_intros)
  have "sup_workspace ?s3 = sup_workspace s" by simp
  then have "workspace_should_restart (sup_workspace ?s3) p FAILED_UNKNOWN = restart"
    using assms(2) by (simp add: workspace_should_restart_def process_of_def restart)
  then have t': "t = (if restart then schedule_restart w p (world_now w) (become p Restarting u) else become p Crashed u)"
    by (simp add: t spawn_failed_to_start_def Let_def b u_def)
  note r = schedule_restart_effects[OF refl, where w = w and p = p and at = "world_now w" and s = "become p Restarting u"]
  have st: "state_of (become p ?next u) p = Some ?next"
    using assms(2) by (simp add: state_of_become quiet_state_of[OF q]) (simp add: state_of_def)
  show "\<not> is_live t p" "state_of t p = Some ?next" "pending t = (if restart then (pending s)(p := None) else pending s)"
    "filter is_thread (sup_out t) = filter is_thread (sup_out s)"
    using r(1,2,3,5) st quiet_core[OF q] quiet_threads[OF q] assms(1) unfolding t' by (simp_all split: if_splits)
  show "\<exists>d. Respawning p (current_generation s p + 1) d \<in> set (sup_out t) \<and> RESTART_BACKOFF_BASE \<le> d \<and> d \<le> RESTART_BACKOFF_MAX"
    if restart using r(4) quiet_core[OF q] that unfolding t' by simp
qed

text \<open>C11. How a launch in flight settles when its thread answers, nothing having been asked of it meanwhile. If
  the process was spawned, the pane runs it, shows it as running and keeps its generation, and the
  launch is no longer in flight. If it could not be spawned, the pane runs nothing; a process whose
  policy restarts it shows as restarting and has a timer of the next generation out, due after at
  least 200 milliseconds and at most 5 seconds, and any other shows as crashed; no other thread is
  sent.\<close>

theorem launch_answer_outcome:
  assumes "lb_pending (sup_launches s) p = Some l" and "generation_of s p = Some (launch_generation l)"
    and "launch_purpose l = Purpose_Spawn restarting" and "undisturbed l"
    and "\<not> is_live s p" and "process_of s p = Some x"
    and g: "g = launch_generation l" and t: "t = handle_spawned w p g result s"
  shows "lb_pending (sup_launches t) p = None \<and>
     (case result of
        Inr h \<Rightarrow> is_live t p \<and> state_of t p = Some Running \<and> generation_of t p = Some g
      | Inl error \<Rightarrow>
          \<not> is_live t p \<and> filter is_thread (sup_out t) = filter is_thread (sup_out s) \<and>
          (if should_restart (proc_restart x) FAILED_UNKNOWN
           then state_of t p = Some Restarting \<and>
             (\<exists>d. Respawning p (g + 1) d \<in> set (sup_out t) \<and> 200000000 \<le> d \<and> d \<le> 5000000000)
           else state_of t p = Some Crashed))"
proof -
  let ?s = "on_launches (\<lambda>book. LaunchBook_cancel book p) s"
  note take = take_launch_current[OF assms(1,2)]
  have s: "\<not> is_live ?s p" "process_of ?s p = Some x" "pending ?s p = None" "generation_of ?s = generation_of s"
    "sup_out ?s = sup_out s" "current_generation ?s p = g"
    using assms(2,5,6) g by (simp_all add: process_of_def current_generation_def) (simp_all add: on_launches_def)
  have nums: "RESTART_BACKOFF_BASE = 200000000" "RESTART_BACKOFF_MAX = 5000000000"
    by (simp_all add: RESTART_BACKOFF_BASE_def RESTART_BACKOFF_MAX_def NANOS_PER_SEC_def)
  have p: "lb_pending (sup_launches t) p = None \<longleftrightarrow> pending t p = None" by (simp add: pending_def)
  show ?thesis
  proof (cases result)
    case (Inl error)
    have "t = spawn_failed_to_start w p g error ?s"
      using assms(3,4) Inl by (simp add: t handle_spawned_def settle_spawn_def g take install_spawned_def undisturbed_def)
    from spawn_failed_effects[OF s(1,2) this refl] s(3,5,6) show ?thesis
      unfolding p nums by (simp add: Inl)
  next
    case (Inr h)
    have "t = spawn_succeeded w p g h restarting [] ?s"
      using assms(3,4) Inr by (simp add: t handle_spawned_def settle_spawn_def g take install_spawned_def undisturbed_def Let_def)
    with spawn_succeeded_runs[OF s(1), of w g h restarting] s assms(2) g show ?thesis
      unfolding p by (simp add: Inr)
  qed
qed

section \<open>What an exit leads to\<close>

lemma frame_notices [simp]:
  "frame (raise_notice s level process message block) = frame s"
  "frame (notify_process s level process message) = frame s" "frame (notify s level q message) = frame s"
  "frame (alert_desktop s p message) = frame s" "frame (record_event s q kind detail) = frame s"
  "frame (end_waits p g status st s) = frame s" "frame (forget_probes p s) = frame s"
  by (simp_all add: raise_notice_def notify_process_def notify_def alert_desktop_def record_event_def end_waits_def
      forget_probes_def Let_def split: option.split)

lemma frame_exit [simp]:
  "frame (end_run w p g reason st detail s) = frame s" "frame (store_end w p out s) = frame s"
  "frame (report_unrequested_exit w p intent at outcome s) = frame s" "frame (drop_handle site p s) = frame s"
  "frame (deactivate p s) = frame s" "frame (acknowledge w p h s) = frame s"
  by (simp_all add: end_run_def store_end_def report_unrequested_exit_def drop_handle_def deactivate_def acknowledge_def
      Let_def split_beta split: option.split)


lemma scheduled_simps [simp]:
  "scheduled (become p st s) = scheduled s" "scheduled (on_pane f p s) = scheduled s"
  "scheduled (bump_generation p s) = scheduled s" "scheduled (s\<lparr>sup_restarts := rb\<rparr>) = scheduled s"
  "scheduled (emit e s) = (if stamp e = None then scheduled s else scheduled s @ [e])"
  by (simp_all add: scheduled_def become_def on_pane_def bump_generation_def advance_generation_def on_launches_def emit_def
      split: option.split)

lemma scheduled_retire [simp]: "scheduled (retire_pane p s) = scheduled s"
  by (auto simp: scheduled_def retire_pane_def Let_def emit_def end_waits_def forget_probes_def forget_readiness_def drop_handle_def
      bump_generation_def advance_generation_def on_launches_def on_restarts_def on_attach_def on_metrics_def split: option.split)

lemma retired_process:
  assumes "distinct (map fst (states s))"
  shows "process_of (retire_pane p s) p = None"
proof -
  have w: "sup_workspace (retire_pane p s) = workspace_remove (sup_workspace s) p"
    by (simp add: retire_pane_def Let_def end_waits_def forget_probes_def forget_readiness_def drop_handle_def emit_def
      bump_generation_def advance_generation_def on_launches_def on_restarts_def on_attach_def on_metrics_def split: option.split)
  have "distinct (map proc_id (sup_workspace s))" using assms by (simp add: states_def comp_def)
  from workspace_remove_filter[OF this, of p] show ?thesis
    by (simp add: process_of_def w workspace_process_find find_None_iff)
qed

lemma schedule_restart_scheduled:
  "\<exists>d. scheduled (schedule_restart w p at s) = scheduled s @ [Respawning p (current_generation s p + 1) d] \<and>
       RESTART_BACKOFF_BASE \<le> d \<and> d \<le> RESTART_BACKOFF_MAX"
  "generation_of (schedule_restart w p at s) p = Some (current_generation s p + 1)"
proof -
  obtain book n where b: "next_attempt (sup_restarts s) p (ran_stably w at) = (book, n)" by fastforce
  let ?b = "bump_generation p (s\<lparr>sup_restarts := book\<rparr>)"
  have g: "current_generation ?b p = current_generation s p + 1" "generation_of ?b p = Some (current_generation s p + 1)"
    by (simp_all add: bump_generation_def current_advance current_generation_def generation_of_def on_launches_def
        advance_generation_def update_conv' SpawnGeneration_next_def)
  show "\<exists>d. scheduled (schedule_restart w p at s) = scheduled s @ [Respawning p (current_generation s p + 1) d] \<and>
       RESTART_BACKOFF_BASE \<le> d \<and> d \<le> RESTART_BACKOFF_MAX"
    using restart_delay_bounds[of n] by (simp add: schedule_restart_def b g(1) Let_def)
  show "generation_of (schedule_restart w p at s) p = Some (current_generation s p + 1)"
    using g(2) by (simp add: schedule_restart_def b Let_def)
qed

lemma process_of_become: "process_of (become p st s) p = map_option (\<lambda>x. set_state x st) (process_of s p)"
  by (simp add: process_of_def become_def workspace_process_set_state)

lemma set_state_launch [simp]:
  "proc_spec (set_state x st) = proc_spec x" "process_launch_ports (set_state x st) = process_launch_ports x"
  "proc_name (set_state x st) = proc_name x" "proc_command (set_state x st) = proc_command x"
  by (simp_all add: set_state_def proc_spec_def process_launch_ports_def)

lemma sampled_block_become: "sampled_block (become p st s) p = sampled_block s p"
proof -
  have same: "sup_metrics (become p st s) = sup_metrics s" "port_holder_of (become p st s) = port_holder_of s"
    by (simp_all add: become_def port_holder_of_def fun_eq_iff)
  show ?thesis
    unfolding sampled_block_def launch_ports_of_def same process_of_become
    by (cases "process_of s p") (simp_all add: port_holder_of_def)
qed

text \<open>An exit, once the handle is taken, up to what the decision does.\<close>

lemma exit_before_decision:
  assumes "pane_of s p = Some x" and "\<not> is_live s p"
  obtains v where "quiet s v" and "frame v = frame s"
    and "fst (apply_exit w p outcome s) = apply_decision w p (pane_started_at x)
           (after_exit (pane_intent x) (pane_membership x = RetireOnExit)
             (workspace_should_restart (sup_workspace s) p outcome) outcome) v"
proof -
  let ?v = "\<lambda>f so g reason state m intent started_at. on_restarts f (store_end w p so (end_run w p g reason state m
      (report_unrequested_exit w p intent started_at outcome s)))"
  have "quiet s (?v f so g reason state m intent started_at)" "frame (?v f so g reason state m intent started_at) = frame s"
    for f so g reason state m intent started_at
    by (intro quiet_intros) simp
  then show thesis
    by (rule that) (simp add: apply_exit_def assms(1) Let_def)
qed


text \<open>A pane whose process has just ended, before the decision of what comes next.\<close>

definition ended :: "supervisor \<Rightarrow> pane_id \<Rightarrow> process \<Rightarrow> spawn_generation \<Rightarrow> bool" where
  "ended s p q g \<longleftrightarrow>
     \<not> is_live s p \<and> lb_pending (sup_launches s) p = None \<and> \<not> is_unsupervised s p \<and> process_of s p = Some q \<and>
     generation_of s p = Some g \<and> scheduled s = []"

lemma ended_settles:
  assumes "ended s p q g" and "t = become p st (deactivate p s)"
  shows "\<not> is_live t p \<and> state_of t p = Some st \<and> lb_pending (sup_launches t) p = None \<and> scheduled t = []"
proof -
  have q: "quiet s (deactivate p s)" using assms(1) by (intro quiet_intros) (simp_all add: ended_def)
  have "lb_pending (sup_launches t) p = None \<longleftrightarrow> pending t p = None" by (simp add: pending_def)
  then show ?thesis
    using assms quiet_core[OF q] quiet_state_of[OF q] quiet_scheduled[OF q]
    by (simp add: ended_def state_of_become pending_def state_of_def[of s])
qed

lemma ended_retires:
  assumes "ended s p q g" and "distinct (map fst (states s))"
  shows "\<not> is_live (retire_pane p s) p \<and> process_of (retire_pane p s) p = None \<and> scheduled (retire_pane p s) = []"
  using assms retire_pane_dead[of s p] retired_process[OF assms(2), of p] by (simp add: ended_def dead_def)

lemma ended_waits:
  assumes "ended s p q g" and "t = schedule_restart w p at (deactivate p (become p Restarting s))"
  shows "\<not> is_live t p \<and> state_of t p = Some Restarting \<and> generation_of t p = Some (g + 1) \<and>
    (\<exists>d. scheduled t = [Respawning p (g + 1) d] \<and> 200000000 \<le> d \<and> d \<le> 5000000000)"
proof -
  let ?s = "deactivate p (become p Restarting s)"
  have q: "quiet (become p Restarting s) ?s" using assms(1) by (intro quiet_intros) (simp_all add: ended_def)
  have g: "current_generation ?s p = g" "scheduled ?s = []" "\<not> is_live ?s p" "state_of ?s p = Some Restarting"
    using assms(1) quiet_core[OF q] quiet_scheduled[OF q] quiet_state_of[OF q]
    by (simp_all add: ended_def current_generation_def unwrap_or_def state_of_become state_of_def[of s])
  have nums: "RESTART_BACKOFF_BASE = 200000000" "RESTART_BACKOFF_MAX = 5000000000"
    by (simp_all add: RESTART_BACKOFF_BASE_def RESTART_BACKOFF_MAX_def NANOS_PER_SEC_def)
  from schedule_restart_scheduled[of w p at ?s] schedule_restart_effects(1,2)[OF assms(2)] g show ?thesis
    unfolding nums assms(2) by simp
qed

lemma ended_respawns:
  assumes "ended s p q g" and "t = spawn w p (deactivate p (become p Restarting (on_restarts f s)))"
  shows "lb_detaching (sup_launches t) = lb_detaching (sup_launches s)" and "\<not> is_live t p \<and>
    (if spec_stored_problem (proc_spec q) = None \<and> sampled_block s p = None
     then state_of t p = Some Starting \<and> map_option launch_generation (lb_pending (sup_launches t) p) = Some (g + 1) \<and>
       (\<exists>request needed. scheduled t = [Launching p (g + 1) request needed] \<and> req_command request = proc_command q)
     else state_of t p = Some (if spec_stored_problem (proc_spec q) = None then Blocked else Restarting) \<and>
       lb_pending (sup_launches t) p = None \<and> scheduled t = [])"
proof -
  let ?b = "become p Restarting (on_restarts f s)" let ?s = "deactivate p ?b"
  have q: "quiet ?b ?s" using assms(1) by (intro quiet_intros) (simp_all add: ended_def on_restarts_def is_live_def pane_of_def)
  have b: "frame ?s = frame ?b" "scheduled ?b = scheduled s" by (simp_all add: scheduled_def on_restarts_def)
  have on: "process_of (on_restarts f s) = process_of s" "is_unsupervised (on_restarts f s) = is_unsupervised s"
    "generation_of (on_restarts f s) = generation_of s" "is_live (on_restarts f s) = is_live s"
    by (simp_all add: fun_eq_iff process_of_def is_unsupervised_def pane_of_def is_live_def generation_of_def on_restarts_def)
  have "process_of ?s p = process_of ?b p" using b(1) by (simp add: frame_def process_of_def)
  then have p: "process_of ?s p = Some (set_state q Restarting)"
    using assms(1) by (simp add: process_of_become on ended_def)
  have blk: "sampled_block ?s p = sampled_block s p"
    using sampled_block_frame[OF b(1)] sampled_block_frame[OF frame_books(1)] by (simp add: sampled_block_become)
  have r: "lb_pending (sup_launches ?s) p = None" "\<not> is_unsupervised ?s p"
    "generation_of ?s p = Some g" "\<not> is_live ?s p" "scheduled ?s = []"
    using assms(1) b quiet_core[OF q] quiet_scheduled[OF q]
    by (simp_all add: ended_def frame_def become_def on_restarts_def is_unsupervised_def pane_of_def generation_of_def is_live_def)
  have st: "state_of ?s p = Some Restarting" using p by (simp add: state_of_def set_state_def)
  have cg: "current_generation ?s p = g" using r(3) by (simp add: current_generation_def unwrap_or_def)
  have keep: "sup_panes t = sup_panes ?s \<Longrightarrow> \<not> is_live t p" using r(4) by (simp add: is_live_def pane_of_def)
  have state: "sup_workspace t = workspace_set_state (sup_workspace ?s) p z \<Longrightarrow> state_of t p = Some z" for z
    using p by (simp add: state_of_def process_of_def workspace_process_set_state) (simp add: set_state_def)
  have same: "sup_workspace t = sup_workspace ?s \<Longrightarrow> state_of t p = Some Restarting"
    using st by (simp add: state_of_def process_of_def)
  note outcome = spawn_with_outcome[OF r(1,2) assms(2)[unfolded spawn_def], unfolded p option.case set_state_launch blk]
  have l: "lb_detaching (sup_launches ?s) = lb_detaching (sup_launches s)"
    using b(1) by (simp add: frame_def become_def on_restarts_def)
  consider (stored) "spec_stored_problem (proc_spec q) \<noteq> None" "refused_start ?s t" "sup_workspace t = sup_workspace ?s"
    | (blocked) "spec_stored_problem (proc_spec q) = None" "sampled_block s p \<noteq> None" "refused_start ?s t"
        "sup_workspace t = workspace_set_state (sup_workspace ?s) p Blocked"
    | (fine) e where "spec_stored_problem (proc_spec q) = None" "sampled_block s p = None" "launched p (set_state q Restarting) e ?s t"
    using outcome by (auto split: if_splits)
  note cases = this
  show "lb_detaching (sup_launches t) = lb_detaching (sup_launches s)"
    using l by (cases rule: cases) (auto simp: refused_start_def launched_def)
  show "\<not> is_live t p \<and>
    (if spec_stored_problem (proc_spec q) = None \<and> sampled_block s p = None
     then state_of t p = Some Starting \<and> map_option launch_generation (lb_pending (sup_launches t) p) = Some (g + 1) \<and>
       (\<exists>request needed. scheduled t = [Launching p (g + 1) request needed] \<and> req_command request = proc_command q)
     else state_of t p = Some (if spec_stored_problem (proc_spec q) = None then Blocked else Restarting) \<and>
       lb_pending (sup_launches t) p = None \<and> scheduled t = [])"
  proof (cases rule: cases)
    case stored
    with keep same r show ?thesis by (auto simp: refused_start_def)
  next
    case blocked
    with keep state r show ?thesis by (auto simp: refused_start_def)
  next
    case (fine e)
    with keep state r(5) cg show ?thesis by (auto simp: launched_def started_launch_def PendingLaunch_new_def)
  qed
qed

lemma exit_decided:
  assumes "reachable (s, xs)" and "pane_of s p = Some x" and "pane_handle x \<noteq> None"
    and "process_of s p = Some q" and "generation_of s p = Some g"
    and t: "t = handle w (Output p g (Output_Exited outcome)) s"
  obtains v where "ended v p q g" and "distinct (map fst (states v))" and "frame v = frame s"
    and "quiet (apply_decision w p (pane_started_at x)
           (after_exit (pane_intent x) (pane_membership x = RetireOnExit) (should_restart (proc_restart q) outcome) outcome) v) t"
proof -
  note o = reachable_orderly(1)[OF assms(1)]
  have out: "scheduled s = []" using reachable_sound[OF assms(1)] by (simp add: sound_def scheduled_def)
  have live: "is_live s p" using assms(2,3) by (auto simp: is_live_def)
  have none: "lb_pending (sup_launches s) p = None" using live_none[OF o live] by (simp add: pending_def)
  let ?s = "on_pane take_handle p s"
  obtain h where h: "pane_handle x = Some h" using assms(3) by blast
  have x': "pane_of ?s p = Some (take_handle x)" using assms(2) by (simp add: pane_of_on_pane)
  note dead = not_live_after_take[of p s]
  have ws: "sup_workspace ?s = sup_workspace s" by (simp add: on_pane_def split: option.split)
  have take: "pane_intent (take_handle x) = pane_intent x" "pane_membership (take_handle x) = pane_membership x"
    "pane_started_at (take_handle x) = pane_started_at x" by (simp_all add: take_handle_def)
  let ?d = "after_exit (pane_intent x) (pane_membership x = RetireOnExit) (should_restart (proc_restart q) outcome) outcome"
  have restart: "workspace_should_restart (sup_workspace s) p outcome = should_restart (proc_restart q) outcome"
    using assms(4) by (simp add: workspace_should_restart_def process_of_def)
  obtain v where v: "quiet ?s v" "frame v = frame ?s"
    and a: "fst (apply_exit w p outcome ?s) = apply_decision w p (pane_started_at x) ?d v"
    using exit_before_decision[OF x' dead, of w outcome, unfolded take ws restart] by blast
  have frame: "frame v = frame s" using v(2) by simp
  have uns: "\<not> is_unsupervised ?s p"
    using o live by (simp add: orderly_def Let_def is_unsupervised_def pane_of_on_pane take_handle_def split: option.splits)
  show thesis
  proof (rule that)
    show "ended v p q g"
      using frame assms(4,5) none uns dead out quiet_core[OF v(1)] quiet_scheduled[OF v(1)]
      by (simp add: ended_def frame_def process_of_def generation_of_def)
    show "distinct (map fst (states v))" using o frame by (simp add: orderly_def Let_def frame_def states_def)
    show "frame v = frame s" by (rule frame)
    have "t = handle_exit w p outcome s"
      using assms(5) none by (simp add: t handle_output_def keep_early_def take_output_def)
    moreover obtain a' r where "apply_exit w p outcome ?s = (a', r)" by fastforce
    ultimately show "quiet (apply_decision w p (pane_started_at x) ?d v) t"
      using a unfolding handle_exit_def
      by (auto simp: assms(2) h Let_def split_beta intro!: quiet_intros split: option.splits)
  qed
qed

lemma quiet_pending:
  assumes "quiet s t"
  shows "lb_pending (sup_launches t) p = None \<longleftrightarrow> lb_pending (sup_launches s) p = None"
    and "map_option launch_generation (lb_pending (sup_launches t) p) = map_option launch_generation (lb_pending (sup_launches s) p)"
  using fun_cong[OF quiet_core(5)[OF assms], of p]
  by (cases "lb_pending (sup_launches s) p"; cases "lb_pending (sup_launches t) p"; simp add: pending_def core_of_def)+

text \<open>C21. What the exit of a running process leads to, on every branch, wherever the supervisor may have got to. The
  pane runs nothing then. A process withdrawn from its stack is gone from the workspace. One that was
  asked to stop shows as exited. One that was asked to restart is launched at once under the next
  generation with its own command, unless its stored definition has a problem or its port is held, when
  it is left restarting or blocked. One that nobody asked anything of follows its policy: it shows as
  restarting, under the next generation, with one timer out, due after 200 milliseconds to 5 seconds; or
  it is settled as exited or crashed by the outcome. No other thread and no other timer is sent on any
  branch.\<close>

theorem exit_outcome:
  assumes "reachable (s, xs)" and "pane_of s p = Some x" and "pane_handle x \<noteq> None"
    and "process_of s p = Some q" and "generation_of s p = Some g"
    and t: "t = handle w (Output p g (Output_Exited outcome)) s"
  shows "\<not> is_live t p \<and>
    (if pane_membership x = RetireOnExit then process_of t p = None \<and> scheduled t = []
     else if is_stop (pane_intent x) then state_of t p = Some Exited \<and> lb_pending (sup_launches t) p = None \<and> scheduled t = []
     else if is_restart (pane_intent x) then
       (if spec_stored_problem (proc_spec q) = None \<and> sampled_block s p = None
        then state_of t p = Some Starting \<and> map_option launch_generation (lb_pending (sup_launches t) p) = Some (g + 1) \<and>
          (\<exists>request needed. scheduled t = [Launching p (g + 1) request needed] \<and> req_command request = proc_command q)
        else state_of t p = Some (if spec_stored_problem (proc_spec q) = None then Blocked else Restarting) \<and>
          lb_pending (sup_launches t) p = None \<and> scheduled t = [])
     else if should_restart (proc_restart q) outcome then
       state_of t p = Some Restarting \<and> generation_of t p = Some (g + 1) \<and>
       (\<exists>d. scheduled t = [Respawning p (g + 1) d] \<and> 200000000 \<le> d \<and> d \<le> 5000000000)
     else state_of t p = Some (if outcome = Succeeded then Exited else Crashed) \<and>
       lb_pending (sup_launches t) p = None \<and> scheduled t = [])"
proof -
  obtain v where E: "ended v p q g" and d: "distinct (map fst (states v))" and frame: "frame v = frame s"
    and qt: "quiet (apply_decision w p (pane_started_at x)
      (after_exit (pane_intent x) (pane_membership x = RetireOnExit) (should_restart (proc_restart q) outcome) outcome) v) t"
    using exit_decided[OF assms] by blast
  let ?d = "after_exit (pane_intent x) (pane_membership x = RetireOnExit) (should_restart (proc_restart q) outcome) outcome"
  let ?a = "apply_decision w p (pane_started_at x) ?d v"
  have blk: "sampled_block v p = sampled_block s p" by (rule sampled_block_frame[OF frame])
  have gone: "process_of ?a p = None \<Longrightarrow> process_of t p = None"
    using fun_cong[OF quiet_state_of[OF qt], of p] by (simp add: state_of_def)
  note transfer = quiet_core(2,4)[OF qt] quiet_state_of[OF qt] quiet_scheduled[OF qt] quiet_pending[OF qt]
  have "?d = (if pane_membership x = RetireOnExit then Retire else if is_stop (pane_intent x) then Stop
      else if is_restart (pane_intent x) then RestartNow
      else if should_restart (proc_restart q) outcome then RestartLater
      else Settle (if outcome = Succeeded then Exited else Crashed))"
    by (cases "pane_intent x"; cases outcome) (simp_all add: after_exit_def intent_defs exit_state_def)
  then consider (retire) "pane_membership x = RetireOnExit" "?a = retire_pane p v"
    | (stop) "pane_membership x \<noteq> RetireOnExit" "is_stop (pane_intent x)" "?a = become p Exited (deactivate p v)"
    | (now) "pane_membership x \<noteq> RetireOnExit" "\<not> is_stop (pane_intent x)" "is_restart (pane_intent x)"
        "?a = spawn w p (deactivate p (become p Restarting (on_restarts (\<lambda>book. reset_backoff book p) v)))"
    | (later) "pane_membership x \<noteq> RetireOnExit" "\<not> is_stop (pane_intent x)" "\<not> is_restart (pane_intent x)"
        "should_restart (proc_restart q) outcome"
        "?a = schedule_restart w p (pane_started_at x) (deactivate p (become p Restarting v))"
    | (settle) "pane_membership x \<noteq> RetireOnExit" "\<not> is_stop (pane_intent x)" "\<not> is_restart (pane_intent x)"
        "\<not> should_restart (proc_restart q) outcome"
        "?a = become p (if outcome = Succeeded then Exited else Crashed) (deactivate p v)"
    by (simp add: apply_decision_def split: if_splits)
  then show ?thesis
  proof cases
    case retire
    with ended_retires[OF E d] gone show ?thesis unfolding transfer by simp
  next
    case stop
    with ended_settles[OF E stop(3)] show ?thesis unfolding transfer by simp
  next
    case now
    show ?thesis unfolding transfer if_not_P[OF now(1)] if_not_P[OF now(2)] if_P[OF now(3)]
      by (rule ended_respawns(2)[OF E now(4), unfolded blk])
  next
    case later
    with ended_waits[OF E later(5)] show ?thesis unfolding transfer by simp
  next
    case settle
    with ended_settles[OF E settle(5)] show ?thesis unfolding transfer by simp
  qed
qed

section \<open>Runs of one process\<close>

definition quiet_world :: world where
  "quiet_world = \<lparr>world_now = 0, world_time = 0, world_nfc = (\<lambda>t. t), world_quote = (\<lambda>t. Some t),
     world_show_path = (\<lambda>_. []), world_uppercase = (\<lambda>t. t), world_pattern_error = (\<lambda>_. None),
     world_terminates = (\<lambda>_. True), world_kills = (\<lambda>_. True), world_pauses = (\<lambda>_. True),
     world_resumes = (\<lambda>_. True), world_acknowledges = (\<lambda>_. True), world_alive = (\<lambda>_. False),
     world_exited = (\<lambda>_. True), world_start_token = (\<lambda>_. None), world_signals = (\<lambda>_. True),
     world_alive_after = (\<lambda>_. False)\<rparr>"

definition job_spec :: process_spec where
  "job_spec = \<lparr>spec_name = utf ''job'', spec_command = utf ''run'', spec_working_dir = None,
     spec_description = None, spec_environment = env_empty, spec_autostart = True, spec_restart = Always,
     spec_stop = \<lparr>signal = Terminate, grace_period = 10\<rparr>, spec_ready = None, spec_ports = []\<rparr>"

definition job_stack :: stack where
  "job_stack = \<lparr>stack_project = \<lparr>project_root = [RootDir], project_name = utf ''jobs'', project_idle_stop = None\<rparr>,
     stack_processes = [job_spec]\<rparr>"

definition job_new :: supervisor where
  "job_new = Supervisor_new quiet_world job_stack default_settings True False False False False"

definition job_started :: supervisor where
  "job_started = start_process quiet_world (utf ''job'') [] job_new"

definition job_handle :: process_handle where
  "job_handle = \<lparr>handle_id = 1, handle_process_id = Some 7, handle_initial_screen = None, handle_backlog = None,
     handle_screen_size = None, handle_attached_clients = 0, handle_started_at = None, handle_run_start = None,
     handle_output_end = None\<rparr>"

lemma job_spec_fine: "spec_stored_problem job_spec = None"
  by (simp add: spec_stored_problem_def unconfined_dir_of_def or_else_def spec_over_cap_None_iff env_over_cap_None_iff
      job_spec_def env_empty_def utf_def PROCESS_NAME_MAX_CHARS_def ENV_VARS_MAX_def DECLARED_PORTS_MAX_def)

lemma job_new_fields:
  "sup_workspace job_new = [to_process job_spec 0]" "sup_panes job_new = []" "sup_generations job_new = []"
  "lb_pending (sup_launches job_new) = Map.empty" "\<not> lb_detaching (sup_launches job_new)" "sup_out job_new = []"
  by (simp_all add: job_new_def Supervisor_new_def StackSync_apply_def job_stack_def job_spec_def next_pane_id_def index_by_key_def)

text \<open>What is known of a supervisor from the state its process is shown in.\<close>

lemma job_shown:
  assumes "sup_workspace s = [set_state (to_process job_spec 0) st]"
  shows "process_of s 0 = Some (set_state (to_process job_spec 0) st)" and "state_of s 0 = Some st" and "sampled_block s 0 = None"
    and "on_named quiet_world (utf ''job'') f s = f 0 s" and "states s = [(0, st)]" and "stop_policy_of s 0 = Some (spec_stop job_spec)"
proof -
  show p: "process_of s 0 = Some (set_state (to_process job_spec 0) st)"
    by (simp add: process_of_def workspace_process_find assms set_state_def to_process_def)
  then show "state_of s 0 = Some st" "sampled_block s 0 = None"
    by (simp_all add: state_of_def set_state_def sampled_block_def launch_ports_of_def process_launch_ports_def launch_ports_def
        to_process_def job_spec_def)
  have "pane_named quiet_world s (utf ''job'') = Some 0"
    by (simp add: pane_named_def assms process_key_def job_spec_def to_process_def set_state_def)
  then show "on_named quiet_world (utf ''job'') f s = f 0 s" by (simp add: on_named_def resolve_def)
  show "states s = [(0, st)]" by (simp add: states_def assms set_state_def to_process_def)
  show "stop_policy_of s 0 = Some (spec_stop job_spec)"
    using p by (simp add: stop_policy_of_def set_state_def to_process_def)
qed

lemma job_new_shown: "sup_workspace job_new = [set_state (to_process job_spec 0) Pending]"
  by (simp add: job_new_fields set_state_def to_process_def)

lemma job_idle:
  "\<not> is_live job_new 0" "\<not> is_unsupervised job_new 0" "current_generation job_new q = 0" "early_outputs job_new q = 0"
  by (simp_all add: is_live_def is_unsupervised_def pane_of_def job_new_fields current_generation_def generation_of_def
      SpawnGeneration_initial_def early_outputs_def)

text \<open>A start of the process where nothing of it runs.\<close>

lemma job_starts:
  assumes "sup_workspace s = [set_state (to_process job_spec 0) st]" and "sup_panes s = []" and "lb_pending (sup_launches s) = Map.empty"
    and t: "t = start_process quiet_world (utf ''job'') [] s" and g: "g = current_generation s 0 + 1"
  shows "lb_pending (sup_launches t) = [0 \<mapsto> started_launch s 0 st]" and "sup_generations t = AList.update 0 g (sup_generations s)"
    and "sup_panes t = []" and "sup_workspace t = [set_state (to_process job_spec 0) Starting]"
    and "lb_detaching (sup_launches t) = lb_detaching (sup_launches s)"
    and "\<exists>request needed. scheduled t = scheduled s @ [Launching 0 g request needed]"
proof -
  note shown = job_shown[OF assms(1)]
  have "launched 0 (set_state (to_process job_spec 0) st) [] s t"
    unfolding t start_process_def shown(4)
    by (rule start_launched) (simp_all add: is_live_def is_unsupervised_def pane_of_def assms(2,3) shown(1,3) job_spec_fine)
  then show "lb_pending (sup_launches t) = [0 \<mapsto> started_launch s 0 st]" "sup_generations t = AList.update 0 g (sup_generations s)"
    "sup_panes t = []" "sup_workspace t = [set_state (to_process job_spec 0) Starting]"
    "lb_detaching (sup_launches t) = lb_detaching (sup_launches s)"
    "\<exists>request needed. scheduled t = scheduled s @ [Launching 0 g request needed]"
    using assms(1-3)
    by (auto simp: launched_def g workspace_set_state_def position_of_def to_process_def set_state_def)
qed

lemma roomyI:
  assumes "\<And>q. unat (current_generation s q) \<le> 9" and "\<And>p. early_outputs s p \<le> 9" and "length (sup_workspace s) \<le> 9"
    and "length (sup_generations s) \<le> 9" and "length (sup_panes s) \<le> 9"
  shows "roomy s"
proof -
  have "unat (current_generation s q) + demand s p \<le> 100" for p q
    using assms(1)[of q] assms(2)[of p] assms(3-5) by (simp add: demand_def)
  moreover have "(100 :: nat) < 2 ^ 64" by simp
  ultimately show ?thesis unfolding roomy_def by (meson le_less_trans)
qed

lemma job_new_roomy: "roomy job_new"
  by (rule roomyI) (simp_all add: job_idle job_new_fields)

lemma job_started_fields:
  "lb_pending (sup_launches job_started) = [0 \<mapsto> started_launch job_new 0 Pending]"
  "sup_generations job_started = [(0, 1)]" "sup_panes job_started = []"
  "sup_workspace job_started = [set_state (to_process job_spec 0) Starting]" "\<not> lb_detaching (sup_launches job_started)"
  "\<exists>request needed. filter is_thread (sup_out job_started) = [Launching 0 1 request needed]"
proof -
  note S = job_starts[OF job_new_shown _ _ job_started_def refl, unfolded job_idle(3)]
  show "lb_pending (sup_launches job_started) = [0 \<mapsto> started_launch job_new 0 Pending]"
    "sup_generations job_started = [(0, 1)]" "sup_panes job_started = []"
    "sup_workspace job_started = [set_state (to_process job_spec 0) Starting]" "\<not> lb_detaching (sup_launches job_started)"
    using S(1-5) by (simp_all add: job_new_fields)
  show "\<exists>request needed. filter is_thread (sup_out job_started) = [Launching 0 1 request needed]"
    using S(6) unfolding threads_scheduled
    by (auto simp: job_new_fields scheduled_def[of job_new] is_thread_def[of "Launching _ _ _ _"])
qed

definition job_launching :: config where
  "job_launching = sent job_started []"

lemma job_launching_reached: "reachable job_launching" "step Acted (job_new, []) job_launching" "reachable (job_new, [])"
proof -
  show new: "reachable (job_new, [])" unfolding job_new_def by (rule reachable_new)
  show step: "step Acted (job_new, []) job_launching"
    unfolding job_launching_def job_started_def by (intro step_act job_new_roomy act_start)
  show "reachable job_launching" by (rule reachable_step[OF new step])
qed

lemma job_launching_state:
  "lb_pending (sup_launches (fst job_launching)) 0 = Some (started_launch job_new 0 Pending)"
  "launch_generation (started_launch job_new 0 Pending) = 1" "generation_of (fst job_launching) 0 = Some 1"
  "\<not> lb_detaching (sup_launches (fst job_launching))" "state_of (fst job_launching) 0 = Some Starting"
  "\<not> is_live (fst job_launching) 0" "process_of (fst job_launching) 0 = Some (set_state (to_process job_spec 0) Starting)"
  "undisturbed (started_launch job_new 0 Pending)"
  by (simp_all add: job_launching_def sent_def job_started_fields started_launch_def PendingLaunch_new_def job_idle generation_of_def
      state_of_def process_of_def workspace_process_find set_state_def to_process_def is_live_def pane_of_def undisturbed_def)

lemma job_launching_roomy: "roomy (fst job_launching)"
  by (rule roomyI)
    (auto simp: job_launching_def sent_def job_started_fields current_generation_def generation_of_def early_outputs_def
      started_launch_def PendingLaunch_new_def SpawnGeneration_initial_def split: option.splits)

definition job_thread :: effect where
  "job_thread = hd (filter is_thread (snd job_launching))"

lemma job_thread_out:
  "\<exists>request needed. job_thread = Launching 0 1 request needed" "filter is_thread (snd job_launching) = [job_thread]"
  "job_thread \<in> set (snd job_launching)" "is_thread job_thread" "answered_by job_thread (Spawned 0 1 result)"
proof -
  obtain r n where f: "filter is_thread (snd job_launching) = [Launching 0 1 r n]"
    using job_started_fields(6) by (auto simp: job_launching_def sent_def)
  then show "filter is_thread (snd job_launching) = [job_thread]" and e: "\<exists>request needed. job_thread = Launching 0 1 request needed"
    by (simp_all add: job_thread_def)
  then have "job_thread \<in> set (filter is_thread (snd job_launching))" by simp
  then show "job_thread \<in> set (snd job_launching)" "is_thread job_thread" by simp_all
  show "answered_by job_thread (Spawned 0 1 result)" using e answered_by.intros(1)[of 0 1 _ _ result] by metis
qed

definition job_answered :: "ustring + process_handle \<Rightarrow> config" where
  "job_answered result = sent (handle quiet_world (Spawned 0 1 result) (fst job_launching)) (remove1 job_thread (snd job_launching))"

lemma job_answered_step: "step (Answered job_thread) job_launching (job_answered result)"
  unfolding job_answered_def
  using step_answer[OF job_launching_roomy job_thread_out(3,5), of quiet_world result] by simp

lemma job_answered_reached: "reachable (job_answered result)"
  by (rule reachable_step[OF job_launching_reached(1) job_answered_step])


theorem launch_answer_outcome_witness:
  "is_live (handle_spawned quiet_world 0 1 (Inr job_handle) (fst job_launching)) 0 \<and>
   state_of (handle_spawned quiet_world 0 1 (Inl []) (fst job_launching)) 0 = Some Restarting"
proof -
  note A = launch_answer_outcome[OF job_launching_state(1) _ _ job_launching_state(8,6,7) job_launching_state(2)[symmetric] refl]
  show ?thesis
    using A[of False quiet_world "Inr job_handle"] A[of False quiet_world "Inl []"] job_launching_state(2,3)
    by (simp add: started_launch_def PendingLaunch_new_def set_state_def to_process_def job_spec_def should_restart_def)
qed

lemma job_runs: "is_live (fst (job_answered (Inr job_handle))) 0"
proof -
  let ?s = "on_launches (\<lambda>book. LaunchBook_cancel book 0) (fst job_launching)"
  let ?l = "started_launch job_new 0 Pending"
  have "take_launch 0 1 (fst job_launching) = (?s, Some ?l)"
    using take_launch_current[OF job_launching_state(1)] job_launching_state(2,3) by simp
  then have "handle_spawned quiet_world 0 1 (Inr job_handle) (fst job_launching) =
      spawn_succeeded quiet_world 0 1 job_handle False [] ?s"
    by (simp add: handle_spawned_def settle_spawn_def install_spawned_def started_launch_def PendingLaunch_new_def Let_def)
  moreover have "is_live (spawn_succeeded quiet_world 0 1 job_handle False [] ?s) 0"
    by (rule spawn_succeeded_runs(1)) (use job_launching_state(6,7) in \<open>simp, simp add: process_of_def on_launches_def\<close>)
  ultimately show ?thesis by (simp add: job_answered_def sent_def is_live_def pane_of_def)
qed

theorem one_run_per_pane_witness:
  "is_live (fst (job_answered (Inr job_handle))) 0 \<and>
   lb_pending (sup_launches (fst (job_answered (Inr job_handle)))) 0 = None"
  using one_run_per_pane[of "fst (job_answered (Inr job_handle))" "snd (job_answered (Inr job_handle))" 0] job_runs
    job_answered_reached[of "Inr job_handle"] by simp

theorem starting_is_being_launched_witness:
  "\<exists>e \<in> set (snd job_launching). is_thread e \<and> stamp e = Some (0, 1)"
  using starting_is_being_launched[of "fst job_launching" "snd job_launching" 0] job_launching_reached(1) job_launching_state
  by auto

text \<open>The service shuts down while the launch is in flight.\<close>

definition job_detached :: config where
  "job_detached = sent (shutdown (fst job_launching)) (snd job_launching)"

lemma job_detached_fields:
  "lb_pending (sup_launches (fst job_detached)) = [0 \<mapsto> started_launch job_new 0 Pending]"
  "lb_detaching (sup_launches (fst job_detached))" "sup_generations (fst job_detached) = [(0, 2)]"
  "sup_panes (fst job_detached) = []" "length (sup_workspace (fst job_detached)) = 1"
  by (simp_all add: job_detached_def sent_def shutdown_def Let_def job_launching_def job_started_fields on_launches_def on_attach_def
      advance_generation_def current_generation_def generation_of_def SpawnGeneration_next_def)

lemma job_detached_reached: "reachable job_detached"
proof (rule reachable_step[OF job_launching_reached(1)])
  show "step Acted job_launching job_detached"
    unfolding job_detached_def using step_act[OF job_launching_roomy act_shutdown, of "snd job_launching"] by simp
qed

lemma job_detached_roomy: "roomy (fst job_detached)"
  by (rule roomyI)
    (auto simp: job_detached_fields current_generation_def generation_of_def early_outputs_def started_launch_def
      PendingLaunch_new_def SpawnGeneration_initial_def split: option.splits)

definition job_detached_answered :: config where
  "job_detached_answered = sent (handle quiet_world (Spawned 0 1 (Inr job_handle)) (fst job_detached))
     (remove1 job_thread (snd job_detached))"

lemma job_detached_answered_reached: "reachable job_detached_answered"
proof (rule reachable_step[OF job_detached_reached])
  have "job_thread \<in> set (snd job_detached)" using job_thread_out(3) by (simp add: job_detached_def sent_def)
  from step_answer[OF job_detached_roomy this job_thread_out(5)]
  show "step (Answered job_thread) job_detached job_detached_answered" by (simp add: job_detached_answered_def)
qed

lemma job_handle_dropped: "Dropped At_Stale_Release job_handle \<in> set (snd job_detached_answered)"
proof -
  have "take_launch 0 1 (fst job_detached) = (fst job_detached, None)"
    by (simp add: take_launch_def generation_of_def job_detached_fields)
  moreover have "snd (LaunchBook_take (sup_launches (fst job_detached)) 0 1) \<noteq> None"
    "lb_detaching (fst (LaunchBook_take (sup_launches (fst job_detached)) 0 1))"
    using job_launching_state(2) by (simp_all add: LaunchBook_take_def job_detached_fields)
  ultimately show ?thesis
    by (simp add: job_detached_answered_def sent_def handle_spawned_def settle_spawn_def stale_release_of_def split_beta
        release_stale_def emit_def)
qed

theorem no_handle_is_lost_witness:
  "\<exists>site. Dropped site job_handle \<in> set (snd job_detached_answered) \<and>
     (site = At_Shutdown \<or> site = At_Stale_Release \<or> site = At_Stopped_Adoption \<or> site = At_Reconnect)"
proof (intro exI conjI)
  show "Dropped At_Stale_Release job_handle \<in> set (snd job_detached_answered)" by (rule job_handle_dropped)
  show "At_Stale_Release = At_Shutdown \<or> At_Stale_Release = At_Stale_Release \<or> At_Stale_Release = At_Stopped_Adoption \<or>
      At_Stale_Release = At_Reconnect"
    by (rule no_handle_is_lost[of "fst job_detached_answered" "snd job_detached_answered", OF _ job_handle_dropped])
      (simp add: job_detached_answered_reached)
qed

text \<open>The launch fails, and nothing else happens for ever.\<close>

lemma failing_fields [simp]:
  "sup_generations (deactivate p s) = sup_generations s" "sup_generations (alert_desktop s p message) = sup_generations s"
  "sup_generations (end_run w p g reason st detail s) = sup_generations s" "sup_generations (store_end w p out s) = sup_generations s"
  "sup_launches (deactivate p s) = sup_launches s" "sup_launches (alert_desktop s p message) = sup_launches s"
  "sup_launches (end_run w p g reason st detail s) = sup_launches s" "sup_launches (store_end w p out s) = sup_launches s"
  "sup_panes (alert_desktop s p message) = sup_panes s" "sup_panes (end_run w p g reason st detail s) = sup_panes s"
  "sup_panes (store_end w p out s) = sup_panes s" "sup_panes s = [] \<Longrightarrow> sup_panes (deactivate p s) = []"
  "sup_workspace (end_run w p g reason st detail s) = sup_workspace s" "sup_workspace (store_end w p out s) = sup_workspace s"
  by (simp_all add: deactivate_def on_pane_def drop_handle_def on_attach_def on_metrics_def alert_desktop_def emit_def Let_def pane_of_def
      end_run_def on_restarts_def forget_probes_def record_event_def end_waits_def store_end_def split: option.splits)

lemma spawn_failed_fields:
  assumes "sup_panes s = []" and "workspace_should_restart (sup_workspace s) p FAILED_UNKNOWN"
    and t: "t = spawn_failed_to_start w p g error s"
  shows "sup_generations t = AList.update p (current_generation s p + 1) (sup_generations s)" and "sup_panes t = []"
    and "lb_pending (sup_launches t) = (lb_pending (sup_launches s))(p := None)"
    and "lb_detaching (sup_launches t) = lb_detaching (sup_launches s)"
    and "sup_workspace t = workspace_set_state (sup_workspace s) p Restarting"
  using assms(1,2)
  by (simp_all add: t spawn_failed_to_start_def schedule_restart_def Let_def split_beta become_def bump_generation_def
      advance_generation_def on_launches_def LaunchBook_cancel_def emit_def SpawnGeneration_next_def current_generation_def
      generation_of_def)

definition job_failed :: config where
  "job_failed = job_answered (Inl [])"

lemma job_failed_fields:
  "sup_generations (fst job_failed) = [(0, 2)]" "sup_panes (fst job_failed) = []"
  "sup_workspace (fst job_failed) = [set_state (to_process job_spec 0) Restarting]"
  "lb_pending (sup_launches (fst job_failed)) = Map.empty" "\<not> lb_detaching (sup_launches (fst job_failed))"
  "filter is_thread (snd job_failed) = []" "\<exists>d. Respawning 0 2 d \<in> set (snd job_failed)"
proof -
  let ?s = "on_launches (\<lambda>book. LaunchBook_cancel book 0) (fst job_launching)"
  define t where "t = spawn_failed_to_start quiet_world 0 1 [] ?s"
  have "take_launch 0 1 (fst job_launching) = (?s, Some (started_launch job_new 0 Pending))"
    using take_launch_current[OF job_launching_state(1)] job_launching_state(2,3) by simp
  then have "handle_spawned quiet_world 0 1 (Inl []) (fst job_launching) = t"
    by (simp add: handle_spawned_def settle_spawn_def install_spawned_def started_launch_def PendingLaunch_new_def Let_def t_def)
  then have f: "job_failed = sent t (remove1 job_thread (snd job_launching))"
    by (simp add: job_failed_def job_answered_def)
  have s: "sup_panes ?s = []" "sup_generations ?s = [(0, 1)]" "sup_workspace ?s = [set_state (to_process job_spec 0) Starting]"
    "lb_pending (sup_launches ?s) = Map.empty" "\<not> lb_detaching (sup_launches ?s)" "sup_out ?s = []"
    by (simp_all add: on_launches_def LaunchBook_cancel_def job_launching_def sent_def job_started_fields)
  have g: "current_generation ?s 0 = 1" "\<not> is_live ?s 0"
    using job_launching_state(3,6) by (simp_all add: current_generation_def unwrap_or_def)
  note p = job_shown(1)[OF s(3)]
  have always: "workspace_should_restart (sup_workspace ?s) 0 FAILED_UNKNOWN"
    using p by (simp add: workspace_should_restart_def process_of_def set_state_def to_process_def job_spec_def should_restart_def)
  show "sup_generations (fst job_failed) = [(0, 2)]" "sup_panes (fst job_failed) = []"
    "sup_workspace (fst job_failed) = [set_state (to_process job_spec 0) Restarting]"
    "lb_pending (sup_launches (fst job_failed)) = Map.empty" "\<not> lb_detaching (sup_launches (fst job_failed))"
    using spawn_failed_fields[OF s(1) always t_def] s g
    by (simp_all add: f sent_def workspace_set_state_def position_of_def to_process_def set_state_def)
  note E = spawn_failed_effects(4,5)[OF g(2) p t_def refl]
  have "filter is_thread (remove1 job_thread (snd job_launching)) = []"
    using job_thread_out(2,4) by (simp add: filter_remove1)
  with E(2) s(6) show "filter is_thread (snd job_failed) = []" by (simp add: f sent_def)
  show "\<exists>d. Respawning 0 2 d \<in> set (snd job_failed)"
    using E(1) g(1) by (auto simp: f sent_def set_state_def to_process_def job_spec_def should_restart_def)
qed

definition job_at_rest :: config where
  "job_at_rest = sent (hold_up (fst job_failed)) (snd job_failed)"

lemma job_rests: "step Acted job_failed job_at_rest" "step Acted job_at_rest job_at_rest" "filter is_thread (snd job_at_rest) = []"
proof -
  have out: "sup_out (fst job_failed) = []" by (simp add: job_failed_def job_answered_def sent_def)
  have r: "roomy (fst job_failed)" "roomy (fst job_at_rest)"
    by (rule roomyI; auto simp: job_at_rest_def sent_def hold_up_def job_failed_fields current_generation_def generation_of_def
        early_outputs_def SpawnGeneration_initial_def split: option.splits)+
  show "step Acted job_failed job_at_rest"
    unfolding job_at_rest_def using step_act[OF r(1) act_held, of "snd job_failed"] by simp
  have "sent (hold_up (fst job_at_rest)) (snd job_at_rest) = job_at_rest"
    by (simp add: job_at_rest_def sent_def hold_up_def)
  then show "step Acted job_at_rest job_at_rest" using step_act[OF r(2) act_held, of "snd job_at_rest"] by simp
  show "filter is_thread (snd job_at_rest) = []" using out by (simp add: job_at_rest_def sent_def hold_up_def job_failed_fields)
qed

definition job_run :: "nat \<Rightarrow> config" where
  "job_run i = (if i = 0 then (job_new, []) else if i = 1 then job_launching else if i = 2 then job_failed else job_at_rest)"

definition job_labels :: "nat \<Rightarrow> step_label" where
  "job_labels i = (if i = 1 then Answered job_thread else Acted)"

lemma job_run_fair: "fair_run job_labels job_run"
proof -
  have "step (job_labels i) (job_run i) (job_run (Suc i))" for i
    using job_launching_reached(2) job_answered_step[of "Inl []"] job_rests
    by (auto simp: job_run_def job_labels_def job_failed_def[symmetric])
  moreover have "\<exists>j \<ge> i. job_labels j = Answered e" if "e \<in> set (snd (job_run i))" "is_thread e" for i e
  proof -
    have "filter is_thread (snd (job_run i)) = (if i = 1 then [job_thread] else [])"
      using job_failed_fields(6) job_rests(3) job_thread_out(2) by (simp add: job_run_def)
    moreover have "e \<in> set (filter is_thread (snd (job_run i)))" using that by simp
    ultimately have "i = 1 \<and> e = job_thread" by (simp split: if_splits)
    then show ?thesis by (auto simp: job_labels_def)
  qed
  ultimately show ?thesis using job_launching_reached(3) by (simp add: fair_run_def job_run_def)
qed

theorem every_launch_is_settled_witness:
  "in_flight (job_run 1) 0 1 \<and> (\<exists>j > 1. \<not> in_flight (job_run j) 0 1)"
proof -
  have f: "in_flight (job_run 1) 0 1" using job_launching_state(1,2) by (simp add: in_flight_def job_run_def)
  from every_launch_is_settled[OF job_run_fair f] f show ?thesis by blast
qed

text \<open>The launch failed and its restart is due later, and the process is started by hand before that.\<close>

definition job_retried :: config where
  "job_retried = sent (start_process quiet_world (utf ''job'') [] (fst job_failed)) (snd job_failed)"

lemma job_retried_reached: "reachable job_retried"
proof (rule reachable_step)
  show "reachable job_failed" unfolding job_failed_def by (rule job_answered_reached)
  have "roomy (fst job_failed)"
    by (rule roomyI) (auto simp: job_failed_fields current_generation_def generation_of_def early_outputs_def
        SpawnGeneration_initial_def split: option.splits)
  from step_act[OF this act_start, of "snd job_failed"] show "step Acted job_failed job_retried"
    unfolding job_retried_def by simp
qed

lemma job_retried_fields:
  "lb_pending (sup_launches (fst job_retried)) 0 = Some (started_launch (fst job_failed) 0 Restarting)"
  "\<not> lb_detaching (sup_launches (fst job_retried))" "\<exists>d. Respawning 0 2 d \<in> set (snd job_retried)"
  using job_starts(1,5)[OF job_failed_fields(3,2,4) refl refl] job_failed_fields(5,7)
  by (auto simp: job_retried_def sent_def)

text \<open>The process runs, is restarted on demand, and exits before its time to stop is over.\<close>

lemma release_fields [simp]: "frame (release_held_exit w p s) = frame s" "sup_panes (release_held_exit w p s) = sup_panes s"
  by (simp_all add: release_held_exit_def AttachBook_release_def acknowledge_def Let_def emit_def split: option.split)
    (simp_all add: frame_def)

lemma arm_probes_fields [simp]: "frame (arm_probes p s) = frame s" "sup_panes (arm_probes p s) = sup_panes s"
  by (simp_all add: arm_probes_def Let_def frame_def emit_def split: option.split)

lemma record_event_panes [simp]: "sup_panes (record_event s q kind detail) = sup_panes s"
  by (simp add: record_event_def emit_def Let_def split: option.split)

lemma install_pane_fields:
  assumes "process_of s p \<noteq> None" and "\<not> is_live s p" and "handle_initial_screen h = None" and "handle_backlog h = None"
    and "handle_started_at h = None"
  shows "frame (fst (install_pane w p h s)) = frame (become p Running s)" and "snd (install_pane w p h s) = None"
    and "sup_panes (fst (install_pane w p h s)) = AList.update p
      \<lparr>pane_screen = None, pane_handle = Some h, pane_unsupervised = None, pane_started_at = world_now w,
       pane_intent = FollowPolicy, pane_shutdown = ShutdownGeneration_initial, pane_membership = Tracked\<rparr> (sup_panes s)"
proof -
  obtain q where q: "process_of s p = Some q" using assms(1) by blast
  have h: "h\<lparr>handle_initial_screen := None, handle_backlog := None\<rparr> = h" using assms(3,4) by simp
  have d: "drop_handle At_Install p (on_attach f s) = on_attach f s" for f
    using assms(2) by (simp add: drop_handle_def is_live_def pane_of_def on_attach_def split: option.splits bind_splits)
  show "frame (fst (install_pane w p h s)) = frame (become p Running s)" "snd (install_pane w p h s) = None"
    "sup_panes (fst (install_pane w p h s)) = AList.update p
      \<lparr>pane_screen = None, pane_handle = Some h, pane_unsupervised = None, pane_started_at = world_now w,
       pane_intent = FollowPolicy, pane_shutdown = ShutdownGeneration_initial, pane_membership = Tracked\<rparr> (sup_panes s)"
    using assms(3-5)
    by (simp_all add: install_pane_def install_terminal_def Let_def h d q split: option.split)
      (simp_all add: frame_def become_def on_attach_def emit_def)
qed

lemma spawn_succeeded_fields:
  assumes "process_of s p \<noteq> None" and "\<not> is_live s p" and "handle_initial_screen h = None" and "handle_backlog h = None"
    and "handle_started_at h = None" and t: "t = spawn_succeeded w p g h False [] s"
  shows "frame t = frame (become p Running s)"
    and "sup_panes t = AList.update p
      \<lparr>pane_screen = None, pane_handle = Some h, pane_unsupervised = None, pane_started_at = world_now w,
       pane_intent = FollowPolicy, pane_shutdown = ShutdownGeneration_initial, pane_membership = Tracked\<rparr> (sup_panes s)"
proof -
  let ?s = "release_held_exit w p (on_restarts (\<lambda>book. spawned book p) s)"
  have f: "frame ?s = frame s" "sup_panes ?s = sup_panes s" by simp_all (simp add: on_restarts_def)
  have "process_of ?s p \<noteq> None" "\<not> is_live ?s p" "frame (become p Running ?s) = frame (become p Running s)"
    using f assms(1,2) by (simp_all add: frame_def process_of_def is_live_def pane_of_def become_def)
  note I = install_pane_fields[OF this(1,2) assms(3-5), of w] and b = this(3)
  show "frame t = frame (become p Running s)" using I b by (simp add: t spawn_succeeded_def Let_def split_beta replay_def)
  show "sup_panes t = AList.update p
      \<lparr>pane_screen = None, pane_handle = Some h, pane_unsupervised = None, pane_started_at = world_now w,
       pane_intent = FollowPolicy, pane_shutdown = ShutdownGeneration_initial, pane_membership = Tracked\<rparr> (sup_panes s)"
    using I f by (simp add: t spawn_succeeded_def Let_def split_beta replay_def)
qed

definition job_running :: config where
  "job_running = job_answered (Inr job_handle)"

definition job_pane :: pane where
  "job_pane = \<lparr>pane_screen = None, pane_handle = Some job_handle, pane_unsupervised = None, pane_started_at = 0,
     pane_intent = FollowPolicy, pane_shutdown = ShutdownGeneration_initial, pane_membership = Tracked\<rparr>"

lemma job_running_fields:
  "sup_panes (fst job_running) = [(0, job_pane)]" "sup_generations (fst job_running) = [(0, 1)]"
  "sup_workspace (fst job_running) = [set_state (to_process job_spec 0) Running]"
  "lb_pending (sup_launches (fst job_running)) = Map.empty" "\<not> lb_detaching (sup_launches (fst job_running))"
proof -
  let ?s = "on_launches (\<lambda>book. LaunchBook_cancel book 0) (fst job_launching)"
  have "take_launch 0 1 (fst job_launching) = (?s, Some (started_launch job_new 0 Pending))"
    using take_launch_current[OF job_launching_state(1)] job_launching_state(2,3) by simp
  then have f: "job_running = sent (spawn_succeeded quiet_world 0 1 job_handle False [] ?s) (remove1 job_thread (snd job_launching))"
    by (simp add: job_running_def job_answered_def handle_spawned_def settle_spawn_def install_spawned_def started_launch_def
        PendingLaunch_new_def Let_def)
  have s: "sup_panes ?s = []" "sup_generations ?s = [(0, 1)]" "sup_workspace ?s = [set_state (to_process job_spec 0) Starting]"
    "lb_pending (sup_launches ?s) = Map.empty" "\<not> lb_detaching (sup_launches ?s)" "sup_out ?s = []"
    by (simp_all add: on_launches_def LaunchBook_cancel_def job_launching_def sent_def job_started_fields)
  have p: "process_of ?s 0 = Some (set_state (to_process job_spec 0) Starting)" by (rule job_shown(1)[OF s(3)])
  have "\<not> is_live ?s 0" using job_launching_state(6) by simp
  note F = spawn_succeeded_fields[OF _ this, of job_handle _ quiet_world 1]
  show "sup_panes (fst job_running) = [(0, job_pane)]" "sup_generations (fst job_running) = [(0, 1)]"
    "sup_workspace (fst job_running) = [set_state (to_process job_spec 0) Running]"
    "lb_pending (sup_launches (fst job_running)) = Map.empty" "\<not> lb_detaching (sup_launches (fst job_running))"
    using F[OF _ _ _ _ refl] p s
    by (simp_all add: f sent_def job_handle_def job_pane_def quiet_world_def frame_def become_def)
      (simp add: workspace_set_state_def position_of_def to_process_def set_state_def)
qed

lemma transition_terminated:
  assumes "stop_policy_of s p = Some policy" and "pane_of s p = Some x" and "pane_handle x = Some h"
    and "world_terminates w h" and "generation_of s p = Some g"
  shows "request_graceful_transition w p request restart s =
    emit (ForceStopping p g (ShutdownGeneration_next (pane_shutdown x)) (grace_period policy))
      (become p Stopping (on_pane (change_intent (delivery restart True)) p
        (emit (Terminating h (signal policy) (grace_period policy)) (on_pane (change_intent request) p (on_pane advance_shutdown p s)))))"
  using assms
  by (simp add: request_graceful_transition_def Let_def advance_shutdown_generation_def pane_of_on_pane advance_shutdown_def
      change_intent_def schedule_force_stop_def)

definition job_asked :: config where
  "job_asked = sent (restart_process quiet_world (utf ''job'') [] (fst job_running)) (snd job_running)"

lemma job_asked_fields:
  "sup_panes (fst job_asked) = [(0, job_pane\<lparr>pane_intent := RestartInFlight, pane_shutdown := 1\<rparr>)]"
  "sup_generations (fst job_asked) = [(0, 1)]"
  "sup_workspace (fst job_asked) = [set_state (to_process job_spec 0) Stopping]"
  "lb_pending (sup_launches (fst job_asked)) = Map.empty" "\<not> lb_detaching (sup_launches (fst job_asked))"
  "ForceStopping 0 1 1 10 \<in> set (snd job_asked)"
proof -
  let ?s = "fst job_running"
  let ?v = "set_launch_environment 0 [] (on_restarts (\<lambda>book. end_streaks book 0) ?s)"
  have v: "sup_panes ?v = [(0, job_pane)]" "sup_generations ?v = [(0, 1)]" "sup_workspace ?v = [set_state (to_process job_spec 0) Running]"
    "lb_pending (sup_launches ?v) = Map.empty" "\<not> lb_detaching (sup_launches ?v)"
    by (simp_all add: set_launch_environment_def on_launches_def on_restarts_def job_running_fields)
  have "restart_process quiet_world (utf ''job'') [] ?s = restart_pane quiet_world 0 (Some []) ?s"
    by (simp add: restart_process_def job_shown(4)[OF job_running_fields(3)])
  also have "\<dots> = request_graceful_transition quiet_world 0 request_restart True ?v"
    by (simp add: restart_pane_def asked_of_launch_def record_intent_def on_launch_def job_running_fields on_restarts_def is_live_def
        pane_of_def job_pane_def accepts_restart_request_def with_environment_def)
  also have "\<dots> = emit (ForceStopping 0 1 1 10) (become 0 Stopping (on_pane (change_intent (delivery True True)) 0
      (emit (Terminating job_handle Terminate 10) (on_pane (change_intent request_restart) 0 (on_pane advance_shutdown 0 ?v)))))"
    using transition_terminated[of ?v 0 "spec_stop job_spec" job_pane job_handle quiet_world 1] job_shown(6)[OF v(3)] v(1,2)
    by (simp add: pane_of_def job_pane_def quiet_world_def generation_of_def job_spec_def ShutdownGeneration_next_def
        ShutdownGeneration_initial_def)
  finally have f: "job_asked = sent \<dots> (snd job_running)" by (simp add: job_asked_def)
  show "sup_panes (fst job_asked) = [(0, job_pane\<lparr>pane_intent := RestartInFlight, pane_shutdown := 1\<rparr>)]"
    "sup_generations (fst job_asked) = [(0, 1)]" "sup_workspace (fst job_asked) = [set_state (to_process job_spec 0) Stopping]"
    "lb_pending (sup_launches (fst job_asked)) = Map.empty" "\<not> lb_detaching (sup_launches (fst job_asked))"
    "ForceStopping 0 1 1 10 \<in> set (snd job_asked)"
    using v
    by (simp_all add: f sent_def on_pane_def pane_of_def emit_def become_def change_intent_def delivery_def job_pane_def
        intent_defs advance_shutdown_def ShutdownGeneration_next_def ShutdownGeneration_initial_def)
      (simp add: workspace_set_state_def position_of_def to_process_def set_state_def)
qed

lemma job_asked_reached: "reachable job_running" "reachable job_asked" "roomy (fst job_asked)"
proof -
  show r: "reachable job_running" unfolding job_running_def by (rule job_answered_reached)
  have roomy: "roomy (fst job_running)" "roomy (fst job_asked)"
    by (rule roomyI; auto simp: job_running_fields job_asked_fields current_generation_def generation_of_def early_outputs_def
        SpawnGeneration_initial_def split: option.splits)+
  then show "roomy (fst job_asked)" by blast
  from step_act[OF roomy(1) act_restart, of "snd job_running"] have "step Acted job_running job_asked"
    unfolding job_asked_def by simp
  then show "reachable job_asked" by (rule reachable_step[OF r])
qed

definition job_respawned :: config where
  "job_respawned = sent (handle quiet_world (Output 0 1 (Output_Exited Succeeded)) (fst job_asked)) (snd job_asked)"

lemma job_respawned_reached: "reachable job_respawned"
proof (rule reachable_step[OF job_asked_reached(2)])
  show "step Heard job_asked job_respawned"
    unfolding job_respawned_def using step_output[OF job_asked_reached(3), of "snd job_asked"] by simp
qed

lemma job_respawned_fields:
  "map_option launch_generation (lb_pending (sup_launches (fst job_respawned)) 0) = Some 2"
  "\<not> lb_detaching (sup_launches (fst job_respawned))" "ForceStopping 0 1 1 10 \<in> set (snd job_respawned)"
proof -
  let ?x = "job_pane\<lparr>pane_intent := RestartInFlight, pane_shutdown := 1\<rparr>" and ?q = "set_state (to_process job_spec 0) Stopping"
  let ?t = "handle quiet_world (Output 0 1 (Output_Exited Succeeded)) (fst job_asked)"
  have p: "pane_of (fst job_asked) 0 = Some ?x" "pane_handle ?x \<noteq> None" "generation_of (fst job_asked) 0 = Some 1"
    by (simp_all add: pane_of_def job_asked_fields generation_of_def job_pane_def)
  have r: "reachable (fst job_asked, snd job_asked)" using job_asked_reached(2) by simp
  obtain v where v: "ended v 0 ?q 1" "frame v = frame (fst job_asked)"
    and q: "quiet (apply_decision quiet_world 0 (pane_started_at ?x) (after_exit (pane_intent ?x) (pane_membership ?x = RetireOnExit)
      (should_restart (proc_restart ?q) Succeeded) Succeeded) v) ?t"
    by (rule exit_decided[OF r p(1,2) job_shown(1)[OF job_asked_fields(3)] p(3) refl, of quiet_world Succeeded])
  let ?u = "spawn quiet_world 0 (deactivate 0 (become 0 Restarting (on_restarts (\<lambda>book. reset_backoff book 0) v)))"
  have q: "quiet ?u ?t" using q by (simp add: job_pane_def after_exit_def apply_decision_def)
  have "sampled_block v 0 = None" using sampled_block_frame[OF v(2)] job_shown(3)[OF job_asked_fields(3)] by simp
  with ended_respawns[OF v(1) refl, of quiet_world "\<lambda>book. reset_backoff book 0"] quiet_pending(2)[OF q, of 0] quiet_core(6)[OF q] v(2)
    job_asked_fields(5,6)
  show "map_option launch_generation (lb_pending (sup_launches (fst job_respawned)) 0) = Some 2"
    "\<not> lb_detaching (sup_launches (fst job_respawned))" "ForceStopping 0 1 1 10 \<in> set (snd job_respawned)"
    by (simp_all add: job_respawned_def sent_def job_spec_fine detaching_def frame_def)
qed

text \<open>The timer that would have killed the run that was asked to restart, and the timer of the restart that the start by
  hand came before, are both out.\<close>

theorem timers_of_earlier_runs_are_inert_witness:
  "ForceStopping 0 1 1 10 \<in> set (snd job_respawned) \<and>
   handle_force_stop quiet_world 0 1 1 (fst job_respawned) = fst job_respawned \<and>
   (\<exists>d. Respawning 0 2 d \<in> set (snd job_retried)) \<and>
   handle_respawn quiet_world 0 2 (fst job_retried) = fst job_retried"
proof -
  obtain l where l: "lb_pending (sup_launches (fst job_respawned)) 0 = Some l" using job_respawned_fields(1) by auto
  have r: "reachable (fst job_respawned, snd job_respawned)" "reachable (fst job_retried, snd job_retried)"
    using job_respawned_reached job_retried_reached by simp_all
  from timers_of_earlier_runs_are_inert[OF r(1) l job_respawned_fields(2), of quiet_world]
    timers_of_earlier_runs_are_inert[OF r(2) job_retried_fields(1,2), of quiet_world]
    job_respawned_fields(3) job_retried_fields(3)
  show ?thesis by blast
qed

theorem exit_outcome_witness:
  "state_of (handle quiet_world (Output 0 1 (Output_Exited Succeeded)) (fst job_running)) 0 = Some Restarting \<and>
   state_of (handle quiet_world (Output 0 1 (Output_Exited Succeeded)) (fst job_asked)) 0 = Some Starting"
proof -
  let ?x = "job_pane\<lparr>pane_intent := RestartInFlight, pane_shutdown := 1\<rparr>"
  have p: "pane_of (fst job_running) 0 = Some job_pane" "generation_of (fst job_running) 0 = Some 1" "pane_handle job_pane \<noteq> None"
    "pane_of (fst job_asked) 0 = Some ?x" "generation_of (fst job_asked) 0 = Some 1" "pane_handle ?x \<noteq> None"
    by (simp_all add: pane_of_def job_running_fields job_asked_fields generation_of_def job_pane_def)
  have r: "reachable (fst job_running, snd job_running)" "reachable (fst job_asked, snd job_asked)"
    using job_asked_reached by simp_all
  note E = exit_outcome[OF r(1) p(1,3) job_shown(1)[OF job_running_fields(3)] p(2) refl, of quiet_world Succeeded]
    exit_outcome[OF r(2) p(4,6) job_shown(1)[OF job_asked_fields(3)] p(5) refl, of quiet_world Succeeded]
  have c: "pane_membership job_pane \<noteq> RetireOnExit" "\<not> is_stop (pane_intent job_pane)" "\<not> is_restart (pane_intent job_pane)"
    "pane_membership ?x \<noteq> RetireOnExit" "\<not> is_stop (pane_intent ?x)" "is_restart (pane_intent ?x)"
    "should_restart (proc_restart (set_state (to_process job_spec 0) st)) Succeeded"
    "spec_stored_problem (proc_spec (set_state (to_process job_spec 0) st)) = None \<and> sampled_block (fst job_asked) 0 = None" for st
    using job_shown(3)[OF job_asked_fields(3)]
    by (simp_all add: job_pane_def intent_defs set_state_def to_process_def job_spec_def should_restart_def)
      (simp add: job_spec_fine[unfolded job_spec_def] proc_spec_def)
  show ?thesis using E c by presburger
qed

text \<open>A process waiting for its restart, whose stored directory leaves the project.\<close>

definition stray_job :: process where
  "stray_job = set_state (to_process (job_spec\<lparr>spec_working_dir := Some [ParentDir]\<rparr>) 0) Restarting"

definition stray_new :: supervisor where
  "stray_new = job_new\<lparr>sup_workspace := [stray_job], sup_generations := [(0, 1)]\<rparr>"

theorem refused_respawn_stays_restarting_witness:
  "generation_of stray_new 0 = Some 1 \<and>
   handle quiet_world (Respawn 0 1) stray_new =
     notify stray_new Level_Error (Some 0) (stored_problem_to_string (world_quote quiet_world) (world_show_path quiet_world)
       (the (spec_stored_problem (proc_spec stray_job)))) \<and>
   state_of (handle quiet_world (Respawn 0 1) stray_new) 0 = Some Restarting"
proof -
  have f: "generation_of stray_new 0 = Some 1" "lb_pending (sup_launches stray_new) 0 = None" "\<not> is_unsupervised stray_new 0"
    "process_of stray_new 0 = Some stray_job" "proc_state stray_job = Restarting"
    by (simp_all add: stray_new_def stray_job_def job_new_fields is_unsupervised_def pane_of_def process_of_def generation_of_def
        workspace_process_find set_state_def to_process_def)
  have "unconfined_dir_of (proc_spec stray_job) \<noteq> None"
    by (simp add: stray_job_def set_state_def proc_spec_def to_process_def job_spec_def unconfined_dir_of_def is_absolute_def
        stays_under_root_def)
  then obtain problem where problem: "spec_stored_problem (proc_spec stray_job) = Some problem"
    by (auto simp: spec_stored_problem_def or_else_def split: option.splits)
  from refused_respawn_stays_restarting[OF f(1-4) this f(5) refl, of quiet_world] f(1) show ?thesis
    unfolding problem option.sel by blast
qed

end
