(* ===== verification/BookLaws.thy ===== *)
theory BookLaws
  imports Books "HOL-Library.Sublist"
begin

text \<open>
  What the books of a supervisor promise: the output that comes before a launch is answered is kept
  within bounds and in order, the retries of an adoption back off, and what forgetting a pane leaves.
\<close>

section \<open>Output before the answer\<close>

definition keep_all :: "pending_launch \<Rightarrow> process_output list \<Rightarrow> pending_launch" where
  "keep_all self outputs = fold (\<lambda>printed launch. keep launch printed) outputs self"

abbreviation lasting :: "process_output list \<Rightarrow> process_output list" where
  "lasting outputs \<equiv> filter (\<lambda>printed. \<not> is_droppable printed) outputs"

lemma keep_early_cases:
  obtains (fits) "length (launch_early l) < EARLY_OUTPUT_CAP" "launch_early (keep l printed) = launch_early l @ [printed]"
  | (drops) before gone after where "launch_early l = before @ gone # after" "is_droppable gone" "EARLY_OUTPUT_CAP \<le> length (launch_early l)"
      "launch_early (keep l printed) = before @ after @ [printed]"
  | (full) "lasting (launch_early l) = launch_early l" "launch_early (keep l printed) = launch_early l @ [printed]"
proof (cases "length (launch_early l) < EARLY_OUTPUT_CAP")
  case True
  then show ?thesis by (intro fits) (simp_all add: keep_def)
next
  case cap: False
  show ?thesis
  proof (cases "position is_droppable (launch_early l)")
    case None
    then have "lasting (launch_early l) = launch_early l" by (simp add: position_None_iff filter_id_conv)
    with None cap show ?thesis by (intro full) (simp_all add: keep_def)
  next
    case (Some i)
    then have i: "i < length (launch_early l)" "is_droppable (launch_early l ! i)" by (auto dest: position_SomeD)
    show ?thesis
      by (rule drops[OF id_take_nth_drop[OF i(1)] i(2)]) (use cap Some in \<open>simp_all add: keep_def Let_def\<close>)
  qed
qed

lemma keep_lasting: "lasting (launch_early (keep l printed)) = lasting (launch_early l) @ lasting [printed]"
  by (cases rule: keep_early_cases[of l printed]) simp_all

lemma keep_subseq: "subseq (launch_early (keep l printed)) (launch_early l @ [printed])"
proof (cases rule: keep_early_cases[of l printed])
  case (drops before gone after)
  have "subseq (before @ after @ [printed]) (before @ gone # after @ [printed])" 
    by (intro list_emb_append_mono list_emb_Cons subseq_order.order_refl)
  with drops show ?thesis by simp
qed simp_all

lemma keep_length:
  assumes "length (launch_early l) \<le> max EARLY_OUTPUT_CAP (length (lasting (launch_early l)) + 1)"
  shows "length (launch_early (keep l printed)) \<le> max EARLY_OUTPUT_CAP (length (lasting (launch_early (keep l printed))) + 1)"
proof (cases rule: keep_early_cases[of l printed])
  case (drops before gone after)
  then have "length (launch_early (keep l printed)) = length (launch_early l)" by simp
  moreover have "length (lasting (launch_early l)) \<le> length (lasting (launch_early (keep l printed)))"
    by (simp add: keep_lasting)
  ultimately show ?thesis using assms by linarith
next
  case full
  then have "length (launch_early (keep l printed)) \<le> length (lasting (launch_early (keep l printed))) + 1" by simp
  then show ?thesis by simp
qed simp

lemma keep_undropped:
  "length outputs \<le> EARLY_OUTPUT_CAP \<Longrightarrow> launch_early (keep_all (PendingLaunch_new g st purpose) outputs) = outputs"
  by (induction outputs rule: rev_induct) (simp_all add: keep_all_def keep_def PendingLaunch_new_def)

text \<open>C22. What a process prints before its launch is answered. Whatever it prints, in whatever order, every
  output that must not be lost (an exit, placed output, a repaint, an unreadable stream) is kept, and
  what is kept is in the order it came in; the last output is always there; and nothing is dropped as
  long as there are no more than 256 outputs. At most 256 outputs are held, or, once 256 or more must
  not be lost, those and at most one other.\<close>

theorem early_output_is_kept_in_order:
  assumes "l = keep_all (PendingLaunch_new generation prior_state purpose) outputs"
  shows "lasting (launch_early l) = lasting outputs \<and> subseq (launch_early l) outputs \<and>
    length (launch_early l) \<le> max 256 (length (lasting outputs) + 1) \<and>
    (length outputs \<le> 256 \<longrightarrow> launch_early l = outputs) \<and>
    (outputs \<noteq> [] \<longrightarrow> launch_early l \<noteq> [] \<and> last (launch_early l) = last outputs)"
proof -
  let ?new = "PendingLaunch_new generation prior_state purpose"
  have "lasting (launch_early (keep_all ?new outputs)) = lasting outputs \<and>
      subseq (launch_early (keep_all ?new outputs)) outputs \<and>
      length (launch_early (keep_all ?new outputs)) \<le>
        max EARLY_OUTPUT_CAP (length (lasting (launch_early (keep_all ?new outputs))) + 1)"
  proof (induction outputs rule: rev_induct)
    case Nil
    show ?case by (simp add: keep_all_def PendingLaunch_new_def)
  next
    case (snoc printed outputs)
    let ?l = "keep_all ?new outputs"
    have l: "keep_all ?new (outputs @ [printed]) = keep ?l printed" by (simp add: keep_all_def)
    have "subseq (launch_early ?l @ [printed]) (outputs @ [printed])" using snoc by simp
    then have "subseq (launch_early (keep ?l printed)) (outputs @ [printed])"
      by (rule subseq_order.trans[OF keep_subseq])
    moreover have "lasting (launch_early (keep ?l printed)) = lasting (outputs @ [printed])"
      using snoc by (simp add: keep_lasting)
    ultimately show ?case
      using keep_length[OF snoc.IH[THEN conjunct2, THEN conjunct2], of printed] unfolding l by blast
  qed
  moreover have "launch_early (keep_all ?new outputs) \<noteq> [] \<and> last (launch_early (keep_all ?new outputs)) = last outputs"
    if "outputs \<noteq> []"
    using that by (cases outputs rule: rev_cases) (simp_all add: keep_all_def keep_def Let_def)
  moreover note keep_undropped[of outputs generation prior_state purpose]
  ultimately show ?thesis unfolding assms EARLY_OUTPUT_CAP_def by (elim conjE) simp
qed

theorem early_output_is_kept_in_order_witness:
  "launch_early (keep_all (PendingLaunch_new 1 Pending (Purpose_Spawn False)) [Chunk [104], Output_Exited Succeeded]) =
     [Chunk [104], Output_Exited Succeeded] \<and>
   length (launch_early (keep_all (PendingLaunch_new 1 Pending (Purpose_Spawn False))
     (replicate 257 (Output_Exited Succeeded)))) = 257"
proof -
  let ?l = "keep_all (PendingLaunch_new 1 Pending (Purpose_Spawn False))" and ?exits = "replicate 257 (Output_Exited Succeeded)"
  note K = early_output_is_kept_in_order[OF refl, of 1 Pending "Purpose_Spawn False"]
  have "lasting ?exits = ?exits" by (simp add: filter_id_conv is_droppable_def)
  then have "257 \<le> length (launch_early (?l ?exits))"
    using K[of ?exits] length_filter_le[of "\<lambda>kept. \<not> is_droppable kept" "launch_early (?l ?exits)"] by simp
  moreover have "length (launch_early (?l ?exits)) \<le> 257" using K[of ?exits] list_emb_length by fastforce
  ultimately show ?thesis using K[of "[Chunk [104], Output_Exited Succeeded]"] by simp
qed

section \<open>Retries of an adoption\<close>

datatype retry_step = Told pane_id pid | Begun pane_id | Scheduled pane_id

text \<open>The delays of the retries scheduled for \<open>p\<close>, in order, while panes are retried in any order.\<close>

fun retry_delays :: "pane_id \<Rightarrow> retry_step list \<Rightarrow> adoption_retries \<Rightarrow> duration list" where
  "retry_delays p [] self = []"
| "retry_delays p (Told pane holder # steps) self = retry_delays p steps (fst (first_failure self pane holder))"
| "retry_delays p (Begun pane # steps) self = retry_delays p steps (fst (AdoptionRetries_begin self pane))"
| "retry_delays p (Scheduled pane # steps) self =
     (case AdoptionRetries_schedule self pane of
        (self, _, delay) \<Rightarrow> (if pane = p then [delay] else []) @ retry_delays p steps self)"

definition backoff :: "nat \<Rightarrow> duration" where
  "backoff n = min (FIRST_RETRY * 2 ^ n) MAX_RETRY"

lemma backoff_next: "min (min (backoff n * 2) DURATION_MAX) MAX_RETRY = backoff (Suc n)"
proof -
  have "MAX_RETRY \<le> DURATION_MAX" by (simp add: MAX_RETRY_def DURATION_MAX_def NANOS_PER_SEC_def)
  then show ?thesis by (simp add: backoff_def min_def mult_ac)
qed

lemma retry_delay_steps [simp]:
  "retry_delay (retry_entry (fst (first_failure self pane holder)) p) = retry_delay (retry_entry self p)"
  "retry_delay (retry_entry (fst (AdoptionRetries_begin self pane)) p) = retry_delay (retry_entry self p)"
  "retry_delay (retry_entry (fst (AdoptionRetries_schedule self pane)) p) =
     (if p = pane then min (min (retry_delay (retry_entry self p) * 2) DURATION_MAX) MAX_RETRY
      else retry_delay (retry_entry self p))"
  "snd (snd (AdoptionRetries_schedule self pane)) = retry_delay (retry_entry self pane)"
  by (simp_all add: first_failure_def tell_def retry_entry_def AdoptionRetries_begin_def AdoptionRetries_schedule_def
      PaneRetry_schedule_def Let_def)

lemma retry_delays_from:
  "retry_delay (retry_entry self p) = backoff m \<Longrightarrow>
   retry_delays p steps self = map backoff [m..<m + length (retry_delays p steps self)]"
proof (induction p steps self arbitrary: m rule: retry_delays.induct)
  case (4 p pane steps self)
  obtain self' i delay where s: "AdoptionRetries_schedule self pane = (self', i, delay)" by (metis prod_cases3)
  have e: "retry_delay (retry_entry self' p) = (if p = pane then backoff (Suc m) else backoff m)"
    and d: "delay = retry_delay (retry_entry self pane)"
    using retry_delay_steps(3)[of self pane p] retry_delay_steps(4)[of self pane] "4.prems" backoff_next[of m] by (auto simp: s)
  show ?case
  proof (cases "pane = p")
    case True
    have r: "retry_delays p (Scheduled pane # steps) self = backoff m # retry_delays p steps self'"
      using True d "4.prems" s by simp
    have "retry_delays p steps self' = map backoff [Suc m..<Suc m + length (retry_delays p steps self')]"
      by (rule "4.IH"[OF s[symmetric] refl]) (use e True in simp)
    then show ?thesis unfolding r by (simp add: upt_conv_Cons del: upt_Suc)
  next
    case False
    with "4.IH"[OF s[symmetric] refl, of m] e show ?thesis by (simp add: s)
  qed
qed simp_all

text \<open>C23. The retries of an adoption back off. However the retries of several panes are told, begun and scheduled
  in between, the delays given to one pane are 30 seconds, then twice as long each time, and never
  more than 10 minutes.\<close>

theorem retries_back_off:
  assumes "ar_panes self p = None" and "delays = retry_delays p steps self"
  shows "delays = map (\<lambda>n. min (30000000000 * 2 ^ n) 600000000000) [0..<length delays]"
proof -
  have "retry_delay (retry_entry self p) = backoff 0"
    using assms(1) by (simp add: retry_entry_def PaneRetry_new_def backoff_def FIRST_RETRY_def MAX_RETRY_def NANOS_PER_SEC_def)
  from retry_delays_from[OF this, of steps] show ?thesis
    unfolding assms(2) by (simp add: backoff_def[abs_def] FIRST_RETRY_def MAX_RETRY_def NANOS_PER_SEC_def)
qed

theorem retries_back_off_witness:
  "retry_delays 3 [Scheduled 3, Scheduled 4, Told 3 9, Scheduled 3] \<lparr>ar_panes = Map.empty, ar_next = 0\<rparr> =
     [30000000000, 60000000000]"
proof -
  define self where "self = \<lparr>ar_panes = Map.empty, ar_next = 0\<rparr>"
  define delays where "delays = retry_delays 3 [Scheduled 3, Scheduled 4, Told 3 9, Scheduled 3] self"
  have "length delays = 2" by (simp add: delays_def AdoptionRetries_schedule_def PaneRetry_schedule_def Let_def)
  moreover have "ar_panes self 3 = None" by (simp add: self_def)
  ultimately have "delays = map (\<lambda>n. min (30000000000 * 2 ^ n) 600000000000) [0..<2]"
    using retries_back_off[OF _ delays_def] by simp
  then show ?thesis unfolding delays_def self_def by (simp add: upt_rec)
qed

section \<open>Forgetting a pane\<close>

text \<open>C25. A retired pane's stored end is not forgotten with it. A process that gets the same pane id later and
  is adopted with the exit of its own last run reports that exit at the time of the retired process's
  end.\<close>

theorem forget_leaves_stored_end:
  assumes "rb_stored_ends book pane = Some at" and "history_last_exit past = Some outcome"
  shows "last_exit_of (take_history (RestartBook_forget book pane) pane past) pane =
    Some \<lparr>le_reason = ExitReason_of outcome False, le_outcome = outcome, le_at = Some at\<rparr>"
  using assms by (simp add: last_exit_of_def take_history_def RestartBook_forget_def Let_def or_else_def)

definition empty_restarts :: restart_book where
  "empty_restarts = \<lparr>rb_attempts = Map.empty, rb_restarts = Map.empty, rb_last_exits = Map.empty, rb_run_ends = Map.empty,
     rb_stored_ends = Map.empty, rb_crash_streaks = {}, rb_failing_spawns = {}\<rparr>"

theorem forget_leaves_stored_end_witness:
  "last_exit_of (take_history (RestartBook_forget (take_stored_end empty_restarts 4 FAILED_UNKNOWN 17) 4) 4
     \<lparr>history_restarts = 0, history_last_exit = Some Succeeded\<rparr>) 4 =
   Some \<lparr>le_reason = Reason_Exited, le_outcome = Succeeded, le_at = Some 17\<rparr>"
proof -
  have "rb_stored_ends (take_stored_end empty_restarts 4 FAILED_UNKNOWN 17) 4 = Some 17" by (simp add: take_stored_end_def)
  from forget_leaves_stored_end[OF this, of "\<lparr>history_restarts = 0, history_last_exit = Some Succeeded\<rparr>" Succeeded]
  show ?thesis by (simp add: ExitReason_of_def)
qed

end
