(* ===== verification/Spec2Isabelle.thy ===== *)
theory Spec2Isabelle
  imports StackEditor Occupancy SupervisorRuns BookLaws
begin

text \<open>
  A verification of muster, a service that runs the processes of a developer's projects in
  pseudo-terminals and lets people and coding agents share them.

  \<^bold>\<open>The program.\<close> The crates under \<open>src/\<close> form layers. \<open>muster-domain\<close> has the values, the definition
  of a stack of processes and the rules on them, without I/O. \<open>muster-application\<close> has the use cases:
  what happens at an exit, how a stored stack is applied to running panes, how a stack is edited.
  \<open>muster-store\<close> keeps projects, stacks, settings, locks and todos in SQLite. \<open>muster-service\<close> runs one
  supervisor per project, which owns the panes, launches their processes through threads, and
  reacts to output, exits, timers and commands. A process belongs to a holder (\<open>muster-holder\<close>) that
  outlives the service and can be adopted again. \<open>muster-protocol\<close> has the messages, and the command
  line, the MCP server and the herdr adapter are clients.

  \<^bold>\<open>How the theories correspond to it.\<close>

  \<^item> \<open>Prelude\<close> and \<open>RustText\<close>: results, first-match searches, saturating and checked integers, ordered
    maps as strictly sorted lists, and the functions of \<open>str\<close> and \<open>char\<close> the sources call. A Rust
    \<open>String\<close> is a list of code points.
  \<^item> \<open>Values\<close>, \<open>Paths\<close>, \<open>Process\<close>, \<open>Config\<close>, \<open>Settings\<close>, \<open>Coordination\<close>, \<open>Occupancy\<close>: the modules of
    \<open>muster-domain/src\<close> of the same names. A struct is a record, an enum a datatype, a constructor
    that validates a function into \<open>error + value\<close>. Types that \<open>nutype\<close> validates are
    interpretations of \<open>validated_text\<close>, enumerations with printed names of \<open>choice\<close>.
    \<open>Occupancy\<close> is the table of \<open>occupancy/table.rs\<close> with its counters, its stamps and the changes
    it announces.
  \<^item> \<open>Application\<close>: \<open>workspace.rs\<close> and \<open>stack_sync.rs\<close> of \<open>muster-application/src\<close>; the decision at an
    exit (\<open>exit_decision.rs\<close> and \<open>process_lifecycle.rs\<close> of the same crate) is in \<open>Process\<close>.
  \<^item> \<open>StackStore\<close>: \<open>project_rows.rs\<close>, \<open>stack_rows.rs\<close>, \<open>edit_log_rows.rs\<close>, \<open>settings_rows.rs\<close>, \<open>run_rows.rs\<close>
    and \<open>pending_idle_stop_rows.rs\<close> of \<open>muster-store/src\<close>. The tables are lists of rows in one record
    \<open>stack_db\<close>, a statement is a function on them, and a transaction is a function into
    \<open>config_error + result \<times> stack_db\<close>, whose failure leaves the tables alone.
  \<^item> \<open>StackLaws\<close>, \<open>StackRefine\<close>, \<open>StackHistory\<close>: the well-formedness of the tables (\<open>tables_ok\<close>), the
    abstract specification (a stack is a list of definitions, an operation an edit of one list), the
    refinement, and histories of operations.
  \<^item> \<open>StackEditor\<close>: \<open>stack_editor.rs\<close> of \<open>muster-application/src\<close>, with the notices it sends.
  \<^item> \<open>CoordinationStore\<close>: \<open>lock_rows.rs\<close> and the todos of \<open>coordination_rows.rs\<close>, with histories.
  \<^item> \<open>Books\<close>, \<open>Supervisor\<close>, \<open>Lifecycle\<close>, \<open>Supervision\<close>: \<open>muster-service/src/supervisor\<close>. \<open>Books\<close> has the
    launch book, the restart book, the attach book, the adoption retries and the metrics book;
    \<open>Supervisor\<close> the record \<open>supervisor\<close> (the struct's fields, and \<open>sup_out\<close>, the effects the code has in
    order); \<open>Lifecycle\<close> launching, exits, unsupervised processes and blocked ports; \<open>Supervision\<close> the
    answers of threads, reconnecting, adopting, the commands, the idle stop and the shutdown.
  \<^item> \<open>Launches\<close>, \<open>SupervisorLaws\<close>, \<open>SupervisorSteps\<close>, \<open>SupervisorCommands\<close>: the invariant \<open>orderly\<close> of a
    supervisor and of what it has out, and that each operation keeps it.
  \<^item> \<open>SupervisorSystem\<close>: the supervisor with the threads and timers it has started, as an inductive
    step relation; \<open>SupervisorRuns\<close>: the outcome of a start, of its answer and of an exit on every
    branch, and concrete runs; \<open>BookLaws\<close>: what the books promise on their own.

  \<^bold>\<open>What the theorems show.\<close>

  \<^item> The supervisor, in every configuration that commands, output, answers and timers reach in any
    order: a pane has one run at most, and nothing is launched beside it; unless the service is
    detaching, timers set for an earlier run do nothing while the next is being launched; the handle of a running process is let go only at the shutdown, when the launch or
    the adoption came too late, or to connect anew; a process shown as starting is being launched; and
    in a run in which the threads answer, every launch in flight is settled. What a start, its
    answer and the exit of a process do is given branch by branch.
  \<^item> The books: output that arrives before the answer of a launch is kept in order, never loses an exit,
    and is bounded by its cap or by what must not be lost; the retries of an adoption back off up to their cap.
  \<^item> Locks and todos: over any history of operations a live lock has one holder, a session keeps to its
    cap and an ended session holds nothing; the next todo claimed is the first one that can be.
  \<^item> The stored stack: every operation refines its edit of the abstract stack and touches no other
    project; the revision of a stack tells different stacks apart; a definition survives its row;
    an addition is refused for the reasons listed and no other; a registration always ends; a listener
    that only hears the editor's notices is up to date.
  \<^item> The domain: the counters and listings of the occupancy table are those read off the reports and
    departures themselves, whatever order they come in; what happens at an exit is what was last asked
    for; a changed stack keeps running processes and reports exactly what was added, retired and removed; a change of a definition edits only what it names and
    keeps the caps; settings, cursors and readiness probes survive printing or storing; a working
    directory accepted under a root stays under it; texts made printable cannot steer a terminal.

  \<^bold>\<open>Contracts.\<close> The interfaces are the locales \<open>choice\<close> and \<open>validated_text\<close> (\<open>Values\<close>), \<open>lease\<close>
  (\<open>Coordination\<close>, for locks and for claims), \<open>announced_occupancy\<close> (\<open>Occupancy\<close>), \<open>announced_store\<close>
  (\<open>StackEditor\<close>) and \<open>two_phases\<close> (\<open>SupervisorSystem\<close>, a wait that one or two answers end). Each is
  interpreted on the definitions that model the code.

  \<^bold>\<open>What is assumed of other code.\<close> Functions of other crates and of the operating system are fields of
  \<open>store_world\<close> (normalisation, format characters, shell quoting, the text of a path or of a duration)
  and of \<open>world\<close> (clocks, signals, start tokens). A law about them is a premise of the theorems that
  need it, and the witnesses give a function that has it. The supervisor's \<open>world\<close> is chosen anew at
  each event and has no laws at all. SQLite is taken to roll back a transaction that fails, so a refused
  write of the stack or of the settings leaves the tables and, the editor returning at the error, tells
  nobody (\<open>written\<close> in \<open>StackEditor\<close>). The service starts its supervisors with a runner and an adopter
  that work on threads of their own, so a launch is always answered by a later event.

  \<^bold>\<open>Bounds.\<close> Integers keep their width where the code can reach it: the generations of panes and of
  shutdowns are 64-bit words that wrap around, and the seconds of locks and claims 64-bit words with
  saturating sums. A step of \<open>SupervisorSystem\<close> is taken while \<open>roomy\<close> holds: the generation of
  each pane is at least \<open>demand\<close> below \<open>2 ^ 64\<close>, where \<open>demand\<close> is twice the number of processes, plus
  the known panes, plus three for each output a launch held back. One event advances a pane by at most
  that. At a million launches a second the premise holds for half a million years. The one
  iterator of the code that has no end, the candidate names of a new project, is searched over one more
  candidate than there are projects, and a free name is shown to be among them. Every
  other loop of the code is a structural recursion.

  \<^bold>\<open>What modelling showed.\<close> \<open>RestartBook::forget\<close> is documented to forget everything about a pane but
  leaves its stored end (\<open>BookLaws\<close>). The output held for a launch is documented to be at most
  \<open>EARLY_OUTPUT_CAP\<close> events, but grows beyond it when more than that must not be lost (\<open>BookLaws\<close>). A
  respawn that is refused because the stored definition has a problem by then leaves the process shown
  as restarting although nothing will restart it (\<open>SupervisorRuns\<close>).

  \<^bold>\<open>Not modelled.\<close>

  \<^item> The output taps, the waits and the log reads of the supervisor (\<open>waiting.rs\<close>, \<open>bridge.rs\<close>,
    \<open>output_tap.rs\<close>), the event log and the notices to clients: a call into them is an effect in
    \<open>sup_out\<close>, and no modelled operation reads their state.
  \<^item> The runtime, the acceptor, the recorders and the holder clients of the service and the holder
    itself: threads, sockets, files and process control, seen here as what answers the supervisor.
  \<^item> Notes, key-value entries and pages of \<open>coordination_rows.rs\<close>; opening the database, its pragmas
    and migrations, which are SQLite.
  \<^item> The terminal emulation, which scans and renders around a third-party emulator; the frames and
    \<open>serde\<close> forms of the protocol; the client library, the MCP server, the herdr adapter, the command
    line and the shell hooks, which parse arguments, call the service and print views of its replies;
    and the texts of desktop notifications and of most errors.
  \<^item> Within the modelled modules: \<open>serde\<close> and \<open>Debug\<close> implementations, identifiers without behaviour, and
    paths that are not UTF-8, a path being a list of component texts.
\<close>

end
